theory Spec2Isabelle
  imports Main "HOL-Library.Word"
begin

section \<open>The flat storage engine (flat\_storage.c)\<close>

text \<open>
  A shallow embedding of the flat allocator of memcached: the region of large chunks,
  the two free lists, breaking and unbreaking of large chunks, the coalescer, the LRU
  and the item life cycle.

  The header \<^verbatim>\<open>flat_storage.h\<close> (the chunk structures, the sizes and the address
  arithmetic) is not among the sources.  Its compile-time constants and its inline
  functions \<^verbatim>\<open>chunks_needed\<close> and \<^verbatim>\<open>is_large_chunk\<close> are parameters of the
  model (the record \<open>config\<close>).  Its address arithmetic is modelled from the
  specification where it is used.

  An \<^verbatim>\<open>assert\<close> that fails, and a dereferenced null pointer, end the program; both
  are results of the model (\<open>Inl\<close>).  A loop without a bound of its own runs on fuel;
  running out of fuel is the result \<open>Inl Diverged\<close>.
\<close>

subsection \<open>Results\<close>

datatype error = AssertionFailure | NullPointerDereference | Diverged

definition and_then :: "error + 'a \<Rightarrow> ('a \<Rightarrow> error + 'b) \<Rightarrow> error + 'b" where
  "and_then m f = (case m of Inl e \<Rightarrow> Inl e | Inr x \<Rightarrow> f x)"

subsection \<open>Chunk pointers, flags, chunks\<close>

text \<open>
  Modelled from the spec: a chunk pointer is ``a compact \<open>(large_index, small_offset)\<close>
  index'' into the region, with the sentinel \<^verbatim>\<open>NULL_CHUNKPTR\<close>; \<^verbatim>\<open>get_chunkptr\<close> and
  \<^verbatim>\<open>get_chunk_address\<close> are inverse bijections, so addresses and chunk pointers are
  one type here.  The large chunk \<open>k\<close> and its first small chunk share the address
  \<open>Chunk k 0\<close>.
\<close>

datatype chunkptr = NULL_CHUNKPTR | Chunk nat nat

datatype large_flag =
  LARGE_CHUNK_INITIALIZED | LARGE_CHUNK_FREE | LARGE_CHUNK_USED | LARGE_CHUNK_BROKEN
  | LARGE_CHUNK_TITLE

datatype small_flag =
  SMALL_CHUNK_INITIALIZED | SMALL_CHUNK_FREE | SMALL_CHUNK_USED | SMALL_CHUNK_TITLE
  | SMALL_CHUNK_COALESCE_PENDING

datatype item_flag =
  ITEM_VALID | ITEM_LINKED | ITEM_DELETED | ITEM_HAS_TIMESTAMP | ITEM_HAS_IP_ADDRESS

type_synonym rel_time_t = "32 word"
type_synonym size_t = "64 word"

text \<open>
  The item header, as the type-agnostic view \<^verbatim>\<open>empty_header\<close> reads it.  The small
  title and the large title at one address are the same memory, so the model keeps one
  header per address.  The bit masks of the flag bytes are sets of flags.  The key
  bytes, which the source spreads over the payloads of the item's chunks, are the field
  \<open>key_bytes\<close>; the value bytes are not modelled.
\<close>

record item_header =
  h_next :: chunkptr
  "next" :: chunkptr
  prev :: chunkptr
  next_chunk :: chunkptr
  time :: rel_time_t
  exptime :: rel_time_t
  nbytes :: size_t
  nkey :: size_t
  refcount :: "16 word"
  it_flags :: "item_flag set"
  flags :: int
  key_bytes :: string

text \<open>
  A \<^verbatim>\<open>small_chunk_t**\<close>: the address of the slot that refers to a node of the small
  free list, either \<^verbatim>\<open>&fsi.small_free_list\<close> or the \<^verbatim>\<open>sc_free.next\<close> of a chunk.
\<close>

datatype slot = NULL_SLOT | Small_free_list_slot | Free_next_slot chunkptr

record small_chunk =
  sc_flags :: "small_flag set"
  sc_body_prev_chunk :: chunkptr
  sc_body_next_chunk :: chunkptr
  sc_free_next :: chunkptr
  sc_free_prev_next :: slot

record large_chunk =
  lc_flags :: "large_flag set"
  lc_body_next_chunk :: chunkptr
  lc_free_next :: chunkptr
  small_chunks_allocated :: "8 word"

text \<open>Memory that is all zero, as a fresh anonymous mapping is.\<close>

definition zero_header :: item_header where
  "zero_header =
     \<lparr>h_next = NULL_CHUNKPTR, next = NULL_CHUNKPTR, prev = NULL_CHUNKPTR,
      next_chunk = NULL_CHUNKPTR, time = 0, exptime = 0, nbytes = 0, nkey = 0,
      refcount = 0, it_flags = {}, flags = 0, key_bytes = []\<rparr>"

definition zero_small :: small_chunk where
  "zero_small =
     \<lparr>sc_flags = {}, sc_body_prev_chunk = NULL_CHUNKPTR, sc_body_next_chunk = NULL_CHUNKPTR,
      sc_free_next = NULL_CHUNKPTR, sc_free_prev_next = NULL_SLOT\<rparr>"

definition zero_large :: large_chunk where
  "zero_large =
     \<lparr>lc_flags = {}, lc_body_next_chunk = NULL_CHUNKPTR, lc_free_next = NULL_CHUNKPTR,
      small_chunks_allocated = 0\<rparr>"

subsection \<open>Constants of the missing header\<close>

record config =
  KEY_MAX_LENGTH :: size_t
  MAX_ITEM_SIZE :: int
  LRU_SEARCH_DEPTH :: nat
  ITEM_UPDATE_INTERVAL :: rel_time_t
  SMALL_CHUNKS_PER_LARGE_CHUNK :: nat
  LARGE_CHUNK_SZ :: size_t
  FLAT_STORAGE_INCREMENT_DELTA :: size_t
  LARGE_TITLE_CHUNK_DATA_SZ :: size_t
  LARGE_BODY_CHUNK_DATA_SZ :: size_t
  SMALL_TITLE_CHUNK_DATA_SZ :: size_t
  SMALL_BODY_CHUNK_DATA_SZ :: size_t
  chunks_needed :: "size_t \<Rightarrow> size_t \<Rightarrow> size_t"
  is_large_chunk :: "size_t \<Rightarrow> size_t \<Rightarrow> bool"
  ITEM_ntotal :: "item_header \<Rightarrow> nat"

subsection \<open>The global state\<close>

text \<open>
  The structure \<^verbatim>\<open>fsi\<close> with its statistics, the memory of the region (headers,
  small chunks, large chunks), and what the engine reads and writes outside itself:
  the assoc table (modelled from the spec as a keyed map), the clock, the settings and
  the thread's statistics.
\<close>

datatype stats_event =
  Stats_evict size_t | Stats_expire size_t | Stats_prefix_record_removal string

record state =
  unused_memory :: size_t
  uninitialized_start :: nat
  large_free_list :: chunkptr
  large_free_list_sz :: size_t
  small_free_list :: chunkptr
  small_free_list_sz :: size_t
  lru_head :: chunkptr
  lru_tail :: chunkptr
  initialized :: bool
  large_title_chunks :: "64 word"
  large_body_chunks :: "64 word"
  large_broken_chunks :: "64 word"
  small_title_chunks :: "64 word"
  small_body_chunks :: "64 word"
  broken_chunk_histogram :: "nat \<Rightarrow> 64 word"
  break_events :: "64 word"
  unbreak_events :: "64 word"
  migrates :: "64 word"
  header :: "chunkptr \<Rightarrow> item_header"
  small :: "chunkptr \<Rightarrow> small_chunk"
  large :: "chunkptr \<Rightarrow> large_chunk"
  assoc_table :: "string \<Rightarrow> chunkptr option"
  current_time :: rel_time_t
  oldest_live :: rel_time_t
  detail_enabled :: bool
  item_storage_allocated :: "64 word"
  item_total_size :: "64 word"
  curr_items :: "64 word"
  total_items :: "64 word"
  evictions :: "64 word"
  stats_events :: "stats_event list"

subsection \<open>The LRU\<close>

text \<open>
  \<^verbatim>\<open>get_lru_item\<close>: the loop runs while \<^verbatim>\<open>i < LRU_SEARCH_DEPTH && iter != NULL\<close>; the
  first argument of the loop function is the number of iterations left.
\<close>

fun get_lru_item_loop :: "nat \<Rightarrow> chunkptr \<Rightarrow> state \<Rightarrow> chunkptr" where
  "get_lru_item_loop 0 iter s = NULL_CHUNKPTR"
| "get_lru_item_loop (Suc n) iter s =
     (if iter = NULL_CHUNKPTR then NULL_CHUNKPTR
      else if refcount (header s iter) = 0 then iter
      else get_lru_item_loop n (prev (header s iter)) s)"

definition get_lru_item :: "config \<Rightarrow> state \<Rightarrow> chunkptr" where
  "get_lru_item c s = get_lru_item_loop (LRU_SEARCH_DEPTH c) (lru_tail s) s"

text \<open>Writes through an item pointer: \<^verbatim>\<open>it->empty_header.field = v\<close>.\<close>

definition upd_header :: "chunkptr \<Rightarrow> (item_header \<Rightarrow> item_header) \<Rightarrow> state \<Rightarrow> state" where
  "upd_header p f s = s\<lparr>header := (header s)(p := f (header s p))\<rparr>"

definition upd_header_if ::
  "bool \<Rightarrow> chunkptr \<Rightarrow> (item_header \<Rightarrow> item_header) \<Rightarrow> state \<Rightarrow> state" where
  "upd_header_if b p f s = (if b then upd_header p f s else s)"

text \<open>
  \<^verbatim>\<open>item_link_q\<close>.  The third assertion is the source's: it compares
  \<^verbatim>\<open>fsi.lru_head == NULL\<close> with itself.
\<close>

definition item_link_q :: "chunkptr \<Rightarrow> state \<Rightarrow> error + state" where
  "item_link_q it s =
     (if it = NULL_CHUNKPTR then Inl NullPointerDereference
      else if next (header s it) \<noteq> NULL_CHUNKPTR then Inl AssertionFailure
      else if prev (header s it) \<noteq> NULL_CHUNKPTR then Inl AssertionFailure
      else if (lru_head s = NULL_CHUNKPTR) \<noteq> (lru_head s = NULL_CHUNKPTR)
        then Inl AssertionFailure
      else Inr
        ((upd_header_if (lru_head s \<noteq> NULL_CHUNKPTR) (lru_head s) (\<lambda>h. h\<lparr>prev := it\<rparr>)
         (upd_header_if (lru_head s \<noteq> NULL_CHUNKPTR) it (\<lambda>h. h\<lparr>next := lru_head s\<rparr>) s))
         \<lparr>lru_head := it,
          lru_tail := (if lru_tail s = NULL_CHUNKPTR then it else lru_tail s)\<rparr>))"

text \<open>
  \<^verbatim>\<open>item_unlink_q\<close>.  The source reads \<^verbatim>\<open>it->empty_header.prev\<close> and
  \<^verbatim>\<open>it->empty_header.next\<close> again when it writes them into the neighbours; no write
  before those reads touches the two fields, so they are the values \<open>prv\<close> and \<open>nxt\<close>
  read at the start.
\<close>

definition item_unlink_q :: "chunkptr \<Rightarrow> state \<Rightarrow> error + state" where
  "item_unlink_q it s =
     (if it = NULL_CHUNKPTR then Inl NullPointerDereference
      else
        let nxt = next (header s it);
            prv = prev (header s it)
        in
        if it = lru_head s \<and> prv \<noteq> NULL_CHUNKPTR then Inl AssertionFailure
        else if it = lru_tail s \<and> nxt \<noteq> NULL_CHUNKPTR then Inl AssertionFailure
        else Inr
          (upd_header it (\<lambda>h. h\<lparr>next := NULL_CHUNKPTR\<rparr>)
          (upd_header it (\<lambda>h. h\<lparr>prev := NULL_CHUNKPTR\<rparr>)
          (upd_header_if (prv \<noteq> NULL_CHUNKPTR) prv (\<lambda>h. h\<lparr>next := nxt\<rparr>)
          (upd_header_if (nxt \<noteq> NULL_CHUNKPTR) nxt (\<lambda>h. h\<lparr>prev := prv\<rparr>)
          (s\<lparr>lru_head := (if it = lru_head s then nxt else lru_head s),
             lru_tail := (if it = lru_tail s then prv else lru_tail s)\<rparr>))))))"

text \<open>
  \<^verbatim>\<open>do_item_update\<close>.  \<^verbatim>\<open>rel_time_t\<close> is an unsigned 32-bit integer, so the
  difference \<^verbatim>\<open>current_time - ITEM_UPDATE_INTERVAL\<close> wraps around.
\<close>

definition do_item_update :: "config \<Rightarrow> chunkptr \<Rightarrow> state \<Rightarrow> error + state" where
  "do_item_update c it s =
     (if it = NULL_CHUNKPTR then Inl NullPointerDereference
      else if time (header s it) < current_time s - ITEM_UPDATE_INTERVAL c then
        (if ITEM_VALID \<notin> it_flags (header s it) then Inl AssertionFailure
         else if ITEM_LINKED \<in> it_flags (header s it) then
           and_then (item_unlink_q it s) (\<lambda>s1.
             item_link_q it (upd_header it (\<lambda>h. h\<lparr>time := current_time s1\<rparr>) s1))
         else Inr s)
      else Inr s)"

subsection \<open>Memory access\<close>

definition upd_small :: "chunkptr \<Rightarrow> (small_chunk \<Rightarrow> small_chunk) \<Rightarrow> state \<Rightarrow> state" where
  "upd_small p f s = s\<lparr>small := (small s)(p := f (small s p))\<rparr>"

definition upd_small_if ::
  "bool \<Rightarrow> chunkptr \<Rightarrow> (small_chunk \<Rightarrow> small_chunk) \<Rightarrow> state \<Rightarrow> state" where
  "upd_small_if b p f s = (if b then upd_small p f s else s)"

definition upd_large :: "chunkptr \<Rightarrow> (large_chunk \<Rightarrow> large_chunk) \<Rightarrow> state \<Rightarrow> state" where
  "upd_large p f s = s\<lparr>large := (large s)(p := f (large s p))\<rparr>"

text \<open>
  Modelled from the spec: \<^verbatim>\<open>get_parent_chunk\<close> gives the large chunk a small chunk
  lies in, and \<^verbatim>\<open>&lc->lc_broken.lbc[i]\<close> is the small chunk \<open>i\<close> of a large chunk;
  the first small chunk has the address of the large chunk.
\<close>

fun get_parent_chunk :: "chunkptr \<Rightarrow> chunkptr" where
  "get_parent_chunk NULL_CHUNKPTR = NULL_CHUNKPTR"
| "get_parent_chunk (Chunk k i) = Chunk k 0"

fun lbc :: "chunkptr \<Rightarrow> nat \<Rightarrow> chunkptr" where
  "lbc NULL_CHUNKPTR i = NULL_CHUNKPTR"
| "lbc (Chunk k j) i = Chunk k (j + i)"

definition small_chunks_of :: "config \<Rightarrow> chunkptr \<Rightarrow> chunkptr list" where
  "small_chunks_of c lc = map (lbc lc) [0 ..< SMALL_CHUNKS_PER_LARGE_CHUNK c]"

text \<open>A \<^verbatim>\<open>for\<close> loop over chunks whose body may end the program.\<close>

fun for_each ::
  "(chunkptr \<Rightarrow> state \<Rightarrow> error + state) \<Rightarrow> chunkptr list \<Rightarrow> state \<Rightarrow> error + state" where
  "for_each f [] s = Inr s"
| "for_each f (x # xs) s = and_then (f x s) (for_each f xs)"

text \<open>\<^verbatim>\<open>fsi.stats.broken_chunk_histogram[k] += d\<close>.\<close>

definition hist_add :: "nat \<Rightarrow> 64 word \<Rightarrow> state \<Rightarrow> state" where
  "hist_add k d s =
     s\<lparr>broken_chunk_histogram :=
         (broken_chunk_histogram s)(k := broken_chunk_histogram s k + d)\<rparr>"

text \<open>Reading and writing through a \<^verbatim>\<open>small_chunk_t**\<close>.\<close>

definition read_slot :: "slot \<Rightarrow> state \<Rightarrow> error + chunkptr" where
  "read_slot sl s =
     (case sl of
        NULL_SLOT \<Rightarrow> Inl NullPointerDereference
      | Small_free_list_slot \<Rightarrow> Inr (small_free_list s)
      | Free_next_slot p \<Rightarrow>
          if p = NULL_CHUNKPTR then Inl NullPointerDereference
          else Inr (sc_free_next (small s p)))"

definition write_slot :: "slot \<Rightarrow> chunkptr \<Rightarrow> state \<Rightarrow> error + state" where
  "write_slot sl v s =
     (case sl of
        NULL_SLOT \<Rightarrow> Inl NullPointerDereference
      | Small_free_list_slot \<Rightarrow> Inr (s\<lparr>small_free_list := v\<rparr>)
      | Free_next_slot p \<Rightarrow>
          if p = NULL_CHUNKPTR then Inl NullPointerDereference
          else Inr (upd_small p (\<lambda>k. k\<lparr>sc_free_next := v\<rparr>) s))"

subsection \<open>The free lists\<close>

datatype chunk_type_t = SMALL_CHUNK | LARGE_CHUNK

text \<open>The case \<^verbatim>\<open>LARGE_CHUNK\<close> of \<^verbatim>\<open>free_list_push\<close>.\<close>

definition free_list_push_large :: "chunkptr \<Rightarrow> state \<Rightarrow> error + state" where
  "free_list_push_large chunk s =
     (if chunk = NULL_CHUNKPTR then Inl NullPointerDereference
      else if lc_flags (large s chunk) \<noteq> {LARGE_CHUNK_INITIALIZED} then Inl AssertionFailure
      else Inr
        ((upd_large chunk (\<lambda>l. l\<lparr>lc_flags := {LARGE_CHUNK_INITIALIZED, LARGE_CHUNK_FREE}\<rparr>)
         (upd_large chunk
            (\<lambda>l. l\<lparr>lc_free_next := (if large_free_list s \<noteq> NULL_CHUNKPTR
                                    then large_free_list s else NULL_CHUNKPTR)\<rparr>) s))
         \<lparr>large_free_list := chunk, large_free_list_sz := large_free_list_sz s + 1\<rparr>))"

text \<open>
  Taking a node out of the middle of the small free list (the lines shared by
  \<^verbatim>\<open>unbreak_large_chunk\<close> and \<^verbatim>\<open>coalesce_free_small_chunks\<close>):
  \<^verbatim>\<open>assert(*prev_next == chunk); *prev_next = chunk->next;
  if (chunk->next != NULL) chunk->next->prev_next = prev_next;\<close>
\<close>

definition splice_out :: "chunkptr \<Rightarrow> state \<Rightarrow> error + state" where
  "splice_out chunk s =
     (let prev_next = sc_free_prev_next (small s chunk);
          nxt = sc_free_next (small s chunk)
      in and_then (read_slot prev_next s) (\<lambda>v.
           if v \<noteq> chunk then Inl AssertionFailure
           else and_then (write_slot prev_next nxt s) (\<lambda>s1.
             Inr (upd_small_if (nxt \<noteq> NULL_CHUNKPTR) nxt
                    (\<lambda>k. k\<lparr>sc_free_prev_next := prev_next\<rparr>) s1))))"

text \<open>The body of the second loop of \<^verbatim>\<open>unbreak_large_chunk\<close>.\<close>

definition unbreak_small_chunk :: "chunkptr \<Rightarrow> state \<Rightarrow> error + state" where
  "unbreak_small_chunk small_chunk s =
     (if small_chunk = NULL_CHUNKPTR then Inl NullPointerDereference
      else if sc_flags (small s small_chunk) \<noteq> {SMALL_CHUNK_INITIALIZED, SMALL_CHUNK_FREE}
              \<and> sc_flags (small s small_chunk)
                  \<noteq> {SMALL_CHUNK_INITIALIZED, SMALL_CHUNK_COALESCE_PENDING}
        then Inl AssertionFailure
      else if SMALL_CHUNK_FREE \<in> sc_flags (small s small_chunk) then
        and_then (splice_out small_chunk s) (\<lambda>s1.
          Inr ((upd_small small_chunk (\<lambda>k. k\<lparr>sc_flags := {}\<rparr>) s1)
                 \<lparr>small_free_list_sz := small_free_list_sz s1 - 1\<rparr>))
      else Inr s)"

text \<open>The body of the loop of \<^verbatim>\<open>unbreak_large_chunk\<close> that is compiled without \<^verbatim>\<open>NDEBUG\<close>.\<close>

definition unbreak_check_small_chunk :: "chunkptr \<Rightarrow> state \<Rightarrow> error + state" where
  "unbreak_check_small_chunk small_chunk s =
     (if small_chunk = NULL_CHUNKPTR then Inl NullPointerDereference
      else if SMALL_CHUNK_INITIALIZED \<notin> sc_flags (small s small_chunk) then Inl AssertionFailure
      else if SMALL_CHUNK_USED \<in> sc_flags (small s small_chunk) then Inl AssertionFailure
      else Inr s)"

definition unbreak_large_chunk :: "config \<Rightarrow> chunkptr \<Rightarrow> bool \<Rightarrow> state \<Rightarrow> error + state" where
  "unbreak_large_chunk c lc mandatory s =
     (if lc = NULL_CHUNKPTR then Inl NullPointerDereference
      else if lc_flags (large s lc)
              \<noteq> {LARGE_CHUNK_INITIALIZED, LARGE_CHUNK_USED, LARGE_CHUNK_BROKEN}
        then Inl AssertionFailure
      else if \<not> mandatory \<and> small_chunks_allocated (large s lc) \<noteq> 0 then Inr s
      else if mandatory \<and> small_chunks_allocated (large s lc) \<noteq> 0 then Inl AssertionFailure
      else
        and_then (if mandatory then Inr s
                  else for_each unbreak_check_small_chunk (small_chunks_of c lc) s) (\<lambda>s0.
        and_then (for_each unbreak_small_chunk (small_chunks_of c lc) s0) (\<lambda>s1.
        and_then (free_list_push_large lc
                    (upd_large lc (\<lambda>l. l\<lparr>lc_flags := {LARGE_CHUNK_INITIALIZED}\<rparr>) s1)) (\<lambda>s2.
          Inr ((hist_add 0 (- 1) s2)
                 \<lparr>large_broken_chunks := large_broken_chunks s2 - 1,
                  unbreak_events := unbreak_events s2 + 1\<rparr>)))))"

text \<open>The case \<^verbatim>\<open>SMALL_CHUNK\<close> of \<^verbatim>\<open>free_list_push\<close>, up to the merge.\<close>

definition free_list_push_small :: "chunkptr \<Rightarrow> state \<Rightarrow> error + state" where
  "free_list_push_small chunk s =
     (if chunk = NULL_CHUNKPTR then Inl NullPointerDereference
      else if sc_flags (small s chunk) \<noteq> {SMALL_CHUNK_INITIALIZED} then Inl AssertionFailure
      else
        let pc = get_parent_chunk chunk;
            a = small_chunks_allocated (large s pc)
        in
        if \<not> 0 < a then Inl AssertionFailure
        else Inr
          ((upd_small chunk
              (\<lambda>k. k\<lparr>sc_flags := {SMALL_CHUNK_INITIALIZED, SMALL_CHUNK_FREE}\<rparr>)
           (upd_small chunk (\<lambda>k. k\<lparr>sc_free_prev_next := Small_free_list_slot\<rparr>)
           (upd_small chunk
              (\<lambda>k. k\<lparr>sc_free_next := (if small_free_list s \<noteq> NULL_CHUNKPTR
                                      then small_free_list s else NULL_CHUNKPTR)\<rparr>)
           (upd_small_if (small_free_list s \<noteq> NULL_CHUNKPTR) (small_free_list s)
              (\<lambda>k. k\<lparr>sc_free_prev_next := Free_next_slot chunk\<rparr>)
           (hist_add (unat (a - 1)) 1
           (upd_large pc (\<lambda>l. l\<lparr>small_chunks_allocated := a - 1\<rparr>)
           (hist_add (unat a) (- 1) s)))))))
           \<lparr>small_free_list := chunk, small_free_list_sz := small_free_list_sz s + 1\<rparr>))"

definition free_list_push ::
  "config \<Rightarrow> chunkptr \<Rightarrow> chunk_type_t \<Rightarrow> bool \<Rightarrow> state \<Rightarrow> error + state" where
  "free_list_push c chunk chunk_type try_merge s =
     (if try_merge \<and> chunk_type = LARGE_CHUNK then Inl AssertionFailure
      else case chunk_type of
        SMALL_CHUNK \<Rightarrow>
          and_then (free_list_push_small chunk s) (\<lambda>s1.
            if try_merge then unbreak_large_chunk c (get_parent_chunk chunk) False s1
            else Inr s1)
      | LARGE_CHUNK \<Rightarrow> free_list_push_large chunk s)"

text \<open>\<^verbatim>\<open>free_list_pop\<close> returns the chunk, or null when the list is empty.\<close>

definition free_list_pop_small :: "config \<Rightarrow> state \<Rightarrow> error + chunkptr \<times> state" where
  "free_list_pop_small c s =
     (if small_free_list_sz s = 0 then Inr (NULL_CHUNKPTR, s)
      else
        let retval = small_free_list s;
            parent_chunk = get_parent_chunk retval;
            a = small_chunks_allocated (large s parent_chunk);
            nxt = sc_free_next (small s retval)
        in
        if retval = NULL_CHUNKPTR then Inl NullPointerDereference
        else if \<not> unat (a + 1) \<le> SMALL_CHUNKS_PER_LARGE_CHUNK c then Inl AssertionFailure
        else if sc_flags (small s retval) \<noteq> {SMALL_CHUNK_INITIALIZED, SMALL_CHUNK_FREE}
          then Inl AssertionFailure
        else Inr (retval,
          (upd_small retval (\<lambda>k. k\<lparr>sc_flags := sc_flags k - {SMALL_CHUNK_FREE}\<rparr>)
          (upd_small_if (nxt \<noteq> NULL_CHUNKPTR) nxt
             (\<lambda>k. k\<lparr>sc_free_prev_next := Small_free_list_slot\<rparr>)
          (hist_add (unat (a + 1)) 1
          (upd_large parent_chunk (\<lambda>l. l\<lparr>small_chunks_allocated := a + 1\<rparr>)
          (hist_add (unat a) (- 1) s)))))
          \<lparr>small_free_list := nxt, small_free_list_sz := small_free_list_sz s - 1\<rparr>))"

definition free_list_pop_large :: "state \<Rightarrow> error + chunkptr \<times> state" where
  "free_list_pop_large s =
     (if large_free_list_sz s = 0 then Inr (NULL_CHUNKPTR, s)
      else
        let retval = large_free_list s in
        if retval = NULL_CHUNKPTR then Inl NullPointerDereference
        else if lc_flags (large s retval) \<noteq> {LARGE_CHUNK_INITIALIZED, LARGE_CHUNK_FREE}
          then Inl AssertionFailure
        else Inr (retval,
          (upd_large retval (\<lambda>l. l\<lparr>lc_flags := lc_flags l - {LARGE_CHUNK_FREE}\<rparr>) s)
          \<lparr>large_free_list := lc_free_next (large s retval),
           large_free_list_sz := large_free_list_sz s - 1\<rparr>))"

definition free_list_pop :: "config \<Rightarrow> chunk_type_t \<Rightarrow> state \<Rightarrow> error + chunkptr \<times> state" where
  "free_list_pop c chunk_type s =
     (case chunk_type of
        SMALL_CHUNK \<Rightarrow> free_list_pop_small c s
      | LARGE_CHUNK \<Rightarrow> free_list_pop_large s)"

subsection \<open>Breaking a large chunk\<close>

text \<open>The body of the loop of \<^verbatim>\<open>break_large_chunk\<close>; the loop runs from the last small chunk down.\<close>

definition break_small_chunk :: "config \<Rightarrow> chunkptr \<Rightarrow> state \<Rightarrow> error + state" where
  "break_small_chunk c small_chunk s =
     (if small_chunk = NULL_CHUNKPTR then Inl NullPointerDereference
      else free_list_push c small_chunk SMALL_CHUNK False
             (upd_small small_chunk (\<lambda>k. k\<lparr>sc_flags := {SMALL_CHUNK_INITIALIZED}\<rparr>) s))"

definition break_large_chunk :: "config \<Rightarrow> chunkptr \<Rightarrow> state \<Rightarrow> error + state" where
  "break_large_chunk c chunk s =
     (if chunk = NULL_CHUNKPTR then Inl NullPointerDereference
      else if lc_flags (large s chunk) \<noteq> {LARGE_CHUNK_INITIALIZED} then Inl AssertionFailure
      else
        and_then
          (for_each (break_small_chunk c) (rev (small_chunks_of c chunk))
             (hist_add (SMALL_CHUNKS_PER_LARGE_CHUNK c) 1
             (upd_large chunk
                (\<lambda>l. l\<lparr>small_chunks_allocated := of_nat (SMALL_CHUNKS_PER_LARGE_CHUNK c)\<rparr>)
             (upd_large chunk
                (\<lambda>l. l\<lparr>lc_flags := lc_flags l \<union> {LARGE_CHUNK_USED, LARGE_CHUNK_BROKEN}\<rparr>) s))))
          (\<lambda>s1. Inr
             ((upd_large chunk (\<lambda>l. l\<lparr>small_chunks_allocated := 0\<rparr>) s1)
                \<lparr>large_broken_chunks := large_broken_chunks s1 + 1,
                 break_events := break_events s1 + 1\<rparr>)))"

subsection \<open>Finding a donor for the coalescer\<close>

text \<open>
  \<^verbatim>\<open>small_chunk_referenced\<close> walks from a chunk back along \<^verbatim>\<open>prev_chunk\<close> to the title
  of its item.  The walk has no bound of its own: it runs on fuel.
\<close>

fun small_chunk_referenced_loop :: "nat \<Rightarrow> chunkptr \<Rightarrow> state \<Rightarrow> error + bool" where
  "small_chunk_referenced_loop 0 sc s = Inl Diverged"
| "small_chunk_referenced_loop (Suc n) sc s =
     (if sc = NULL_CHUNKPTR then Inl NullPointerDereference
      else if SMALL_CHUNK_TITLE \<notin> sc_flags (small s sc) then
        (if \<not> {SMALL_CHUNK_INITIALIZED, SMALL_CHUNK_USED} \<subseteq> sc_flags (small s sc)
         then Inl AssertionFailure
         else small_chunk_referenced_loop n (sc_body_prev_chunk (small s sc)) s)
      else if \<not> {SMALL_CHUNK_INITIALIZED, SMALL_CHUNK_USED, SMALL_CHUNK_TITLE}
                  \<subseteq> sc_flags (small s sc)
        then Inl AssertionFailure
      else Inr (refcount (header s sc) \<noteq> 0))"

definition small_chunk_referenced :: "nat \<Rightarrow> chunkptr \<Rightarrow> state \<Rightarrow> error + bool" where
  "small_chunk_referenced n sc s =
     (if sc = NULL_CHUNKPTR then Inl NullPointerDereference
      else if SMALL_CHUNK_INITIALIZED \<notin> sc_flags (small s sc) then Inl AssertionFailure
      else if SMALL_CHUNK_FREE \<in> sc_flags (small s sc) then Inr False
      else small_chunk_referenced_loop n sc s)"

fun large_broken_chunk_referenced_loop ::
  "nat \<Rightarrow> chunkptr list \<Rightarrow> state \<Rightarrow> error + bool" where
  "large_broken_chunk_referenced_loop n [] s = Inr False"
| "large_broken_chunk_referenced_loop n (iter # rest) s =
     and_then (small_chunk_referenced n iter s) (\<lambda>r.
       if r then Inr True else large_broken_chunk_referenced_loop n rest s)"

definition large_broken_chunk_referenced ::
  "config \<Rightarrow> nat \<Rightarrow> chunkptr \<Rightarrow> state \<Rightarrow> error + bool" where
  "large_broken_chunk_referenced c n lc s =
     large_broken_chunk_referenced_loop n (small_chunks_of c lc) s"

text \<open>
  \<^verbatim>\<open>find_unreferenced_broken_chunk\<close>: \<open>counter\<close> is an \<^verbatim>\<open>unsigned\<close>; a search depth of
  zero is no limit, and then the walk along the small free list runs on fuel alone.
\<close>

fun find_unreferenced_broken_chunk_loop ::
  "config \<Rightarrow> nat \<Rightarrow> size_t \<Rightarrow> 32 word \<Rightarrow> chunkptr \<Rightarrow> state \<Rightarrow> error + chunkptr" where
  "find_unreferenced_broken_chunk_loop c 0 search_depth counter small_chunk_iter s =
     Inl Diverged"
| "find_unreferenced_broken_chunk_loop c (Suc n) search_depth counter small_chunk_iter s =
     (if small_chunk_iter \<noteq> NULL_CHUNKPTR
         \<and> (search_depth = 0 \<or> ucast counter < search_depth)
      then
        and_then (large_broken_chunk_referenced c n (get_parent_chunk small_chunk_iter) s)
          (\<lambda>r. if \<not> r then Inr (get_parent_chunk small_chunk_iter)
                else find_unreferenced_broken_chunk_loop c n search_depth (counter + 1)
                       (sc_free_next (small s small_chunk_iter)) s)
      else Inr NULL_CHUNKPTR)"

definition find_unreferenced_broken_chunk ::
  "config \<Rightarrow> nat \<Rightarrow> size_t \<Rightarrow> state \<Rightarrow> error + chunkptr" where
  "find_unreferenced_broken_chunk c n search_depth s =
     find_unreferenced_broken_chunk_loop c n search_depth 0 (small_free_list s) s"

subsection \<open>The coalescer\<close>

datatype coalesce_progress_t =
  COALESCE_NO_PROGRESS | COALESCE_LARGE_CHUNK_FORMED | COALESCE_FORWARD_PROGRESS

text \<open>The body of the first loop over the donor: a free small chunk leaves the free list.\<close>

definition coalesce_remove_free :: "chunkptr \<Rightarrow> state \<Rightarrow> error + state" where
  "coalesce_remove_free iter s =
     (if iter = NULL_CHUNKPTR then Inl NullPointerDereference
      else if SMALL_CHUNK_FREE \<in> sc_flags (small s iter) then
        and_then (splice_out iter s) (\<lambda>s1.
          Inr ((upd_small iter
                  (\<lambda>k. k\<lparr>sc_flags := sc_flags k - {SMALL_CHUNK_FREE}
                                         \<union> {SMALL_CHUNK_COALESCE_PENDING}\<rparr>) s1)
                 \<lparr>small_free_list_sz := small_free_list_sz s1 - 1\<rparr>))
      else Inr s)"

text \<open>
  Modelled from the spec: the assoc table is a keyed map; \<^verbatim>\<open>assoc_update(old, new)\<close>
  rewrites the pointer to the old item in place.
\<close>

definition assoc_update :: "chunkptr \<Rightarrow> chunkptr \<Rightarrow> state \<Rightarrow> state" where
  "assoc_update old_it new_it s =
     s\<lparr>assoc_table := (\<lambda>k. if assoc_table s k = Some old_it then Some new_it else assoc_table s k)\<rparr>"

text \<open>Migrating a title chunk: ``edit the forward and backward links''.\<close>

definition migrate_title_next :: "chunkptr \<Rightarrow> chunkptr \<Rightarrow> state \<Rightarrow> error + state" where
  "migrate_title_next old_chunk replacement s =
     (let nxt = next (header s replacement) in
      if nxt \<noteq> NULL_CHUNKPTR then
        (if prev (header s nxt) \<noteq> old_chunk then Inl AssertionFailure
         else Inr (upd_header nxt (\<lambda>h. h\<lparr>prev := replacement\<rparr>) s))
      else if lru_tail s \<noteq> old_chunk then Inl AssertionFailure
      else Inr (s\<lparr>lru_tail := replacement\<rparr>))"

definition migrate_title_prev :: "chunkptr \<Rightarrow> chunkptr \<Rightarrow> state \<Rightarrow> error + state" where
  "migrate_title_prev old_chunk replacement s =
     (let prv = prev (header s replacement) in
      if prv \<noteq> NULL_CHUNKPTR then
        (if next (header s prv) \<noteq> old_chunk then Inl AssertionFailure
         else Inr (upd_header prv (\<lambda>h. h\<lparr>next := replacement\<rparr>) s))
      else if lru_head s \<noteq> old_chunk then Inl AssertionFailure
      else Inr (s\<lparr>lru_head := replacement\<rparr>))"

text \<open>``edit the next\_chunk's prev\_chunk link''.\<close>

definition migrate_next_chunk :: "chunkptr \<Rightarrow> chunkptr \<Rightarrow> chunkptr \<Rightarrow> state \<Rightarrow> error + state" where
  "migrate_next_chunk old_chunk replacement nxt_chunk s =
     (if nxt_chunk \<noteq> NULL_CHUNKPTR then
        (if sc_body_prev_chunk (small s nxt_chunk) \<noteq> old_chunk then Inl AssertionFailure
         else Inr (upd_small nxt_chunk (\<lambda>k. k\<lparr>sc_body_prev_chunk := replacement\<rparr>) s))
      else Inr s)"

definition migrate_title :: "chunkptr \<Rightarrow> chunkptr \<Rightarrow> state \<Rightarrow> error + state" where
  "migrate_title old_chunk replacement s =
     and_then (migrate_title_next old_chunk replacement s) (\<lambda>s1.
     and_then (migrate_title_prev old_chunk replacement s1) (\<lambda>s2.
     and_then (migrate_next_chunk old_chunk replacement
                 (next_chunk (header s2 replacement)) s2) (\<lambda>s3.
       Inr (assoc_update old_chunk replacement
              (upd_small replacement
                 (\<lambda>k. k\<lparr>sc_flags := sc_flags k \<union> {SMALL_CHUNK_USED, SMALL_CHUNK_TITLE}\<rparr>)
                 s3)))))"

text \<open>Migrating a body chunk.\<close>

definition migrate_body :: "chunkptr \<Rightarrow> chunkptr \<Rightarrow> state \<Rightarrow> error + state" where
  "migrate_body old_chunk replacement s =
     (let prv_chunk = sc_body_prev_chunk (small s replacement);
          nxt_chunk = sc_body_next_chunk (small s replacement)
      in
      if prv_chunk = NULL_CHUNKPTR then Inl NullPointerDereference
      else
        and_then
          (migrate_next_chunk old_chunk replacement nxt_chunk
             (if SMALL_CHUNK_TITLE \<in> sc_flags (small s prv_chunk)
              then upd_header prv_chunk (\<lambda>h. h\<lparr>next_chunk := replacement\<rparr>) s
              else upd_small prv_chunk (\<lambda>k. k\<lparr>sc_body_next_chunk := replacement\<rparr>) s))
          (\<lambda>s1. Inr (upd_small replacement
                        (\<lambda>k. k\<lparr>sc_flags := sc_flags k \<union> {SMALL_CHUNK_USED}\<rparr>) s1)))"

text \<open>
  The body of the second loop over the donor.  \<^verbatim>\<open>memcpy(replacement, iter,
  sizeof(small_chunk_t))\<close> copies the whole chunk: its flags, its body and free-list
  fields, and the item header that a title chunk holds.
\<close>

definition coalesce_migrate :: "config \<Rightarrow> chunkptr \<Rightarrow> chunkptr \<Rightarrow> state \<Rightarrow> error + state" where
  "coalesce_migrate c lc iter s =
     (if iter = NULL_CHUNKPTR then Inl NullPointerDereference
      else if SMALL_CHUNK_INITIALIZED \<notin> sc_flags (small s iter) then Inl AssertionFailure
      else if SMALL_CHUNK_USED \<in> sc_flags (small s iter) then
        and_then (free_list_pop c SMALL_CHUNK s) (\<lambda>(replacement, s1).
          if replacement = NULL_CHUNKPTR then Inl AssertionFailure
          else if sc_flags (small s1 replacement) \<noteq> {SMALL_CHUNK_INITIALIZED}
            then Inl AssertionFailure
          else
            and_then
              ((if SMALL_CHUNK_TITLE \<in> sc_flags (small s1 iter)
                then migrate_title else migrate_body) iter replacement
                 (s1\<lparr>small := (small s1)(replacement := small s1 iter),
                     header := (header s1)(replacement := header s1 iter)\<rparr>))
              (\<lambda>s2. Inr
                 (upd_large lc
                    (\<lambda>l. l\<lparr>small_chunks_allocated := small_chunks_allocated l - 1\<rparr>)
                 (upd_small iter
                    (\<lambda>k. k\<lparr>sc_flags := {SMALL_CHUNK_INITIALIZED,
                                         SMALL_CHUNK_COALESCE_PENDING}\<rparr>) s2))))
      else Inr s)"

text \<open>One iteration of the loop of \<^verbatim>\<open>coalesce_free_small_chunks\<close>, once a donor is found.\<close>

definition coalesce_donor :: "config \<Rightarrow> chunkptr \<Rightarrow> state \<Rightarrow> error + state" where
  "coalesce_donor c lc s =
     (if lc = NULL_CHUNKPTR then Inl NullPointerDereference
      else
        let a = small_chunks_allocated (large s lc) in
        and_then
          (if a \<noteq> 0 then
             and_then (for_each coalesce_remove_free (small_chunks_of c lc)
                         ((hist_add (unat a) (- 1) s)\<lparr>migrates := migrates s + ucast a\<rparr>))
               (for_each (coalesce_migrate c lc) (small_chunks_of c lc))
           else Inr ((hist_add (unat a) (- 1) s)\<lparr>migrates := migrates s + ucast a\<rparr>))
          (\<lambda>s1. unbreak_large_chunk c lc True (hist_add 0 1 s1)))"

fun coalesce_free_small_chunks_loop ::
  "config \<Rightarrow> nat \<Rightarrow> coalesce_progress_t \<Rightarrow> state \<Rightarrow> error + coalesce_progress_t \<times> state" where
  "coalesce_free_small_chunks_loop c 0 retval s = Inl Diverged"
| "coalesce_free_small_chunks_loop c (Suc n) retval s =
     (if of_nat (SMALL_CHUNKS_PER_LARGE_CHUNK c) \<le> small_free_list_sz s then
        and_then (find_unreferenced_broken_chunk c n 0 s) (\<lambda>lc.
          if lc = NULL_CHUNKPTR then Inr (retval, s)
          else and_then (coalesce_donor c lc s)
                 (coalesce_free_small_chunks_loop c n COALESCE_LARGE_CHUNK_FORMED))
      else Inr (retval, s))"

definition coalesce_free_small_chunks ::
  "config \<Rightarrow> nat \<Rightarrow> state \<Rightarrow> error + coalesce_progress_t \<times> state" where
  "coalesce_free_small_chunks c n s =
     coalesce_free_small_chunks_loop c n COALESCE_NO_PROGRESS s"

subsection \<open>Freeing an item\<close>

text \<open>
  Modelled from the spec: \<^verbatim>\<open>is_item_large_chunk\<close> and \<^verbatim>\<open>chunks_in_item\<close> of the
  missing header are the class and the chunk count of the item's key and value lengths
  (``\<^verbatim>\<open>item_need_realloc\<close>: true if class or chunk-count would change'').
\<close>

definition is_item_large_chunk :: "config \<Rightarrow> chunkptr \<Rightarrow> state \<Rightarrow> bool" where
  "is_item_large_chunk c it s =
     is_large_chunk c (nkey (header s it)) (nbytes (header s it))"

definition chunks_in_item :: "config \<Rightarrow> chunkptr \<Rightarrow> state \<Rightarrow> size_t" where
  "chunks_in_item c it s = chunks_needed c (nkey (header s it)) (nbytes (header s it))"

text \<open>
  The loops of \<^verbatim>\<open>item_free\<close> over the body chunks follow \<^verbatim>\<open>next_chunk\<close> until null;
  they run on fuel.  The result is \<^verbatim>\<open>chunks_freed\<close> with the state.
\<close>

primrec item_free_large_bodies ::
  "config \<Rightarrow> nat \<Rightarrow> chunkptr \<Rightarrow> size_t \<Rightarrow> state \<Rightarrow> error + size_t \<times> state" where
  "item_free_large_bodies c 0 nxt_chunk chunks_freed s = Inl Diverged"
| "item_free_large_bodies c (Suc n) nxt_chunk chunks_freed s =
     (if nxt_chunk = NULL_CHUNKPTR then Inr (chunks_freed, s)
      else if lc_flags (large s nxt_chunk) \<noteq> {LARGE_CHUNK_INITIALIZED, LARGE_CHUNK_USED}
        then Inl AssertionFailure
      else
        and_then
          (free_list_push c nxt_chunk LARGE_CHUNK False
             (upd_large nxt_chunk (\<lambda>l. l\<lparr>lc_flags := lc_flags l - {LARGE_CHUNK_USED}\<rparr>) s))
          (item_free_large_bodies c n (lc_body_next_chunk (large s nxt_chunk))
             (chunks_freed + 1)))"

primrec item_free_small_bodies ::
  "config \<Rightarrow> nat \<Rightarrow> chunkptr \<Rightarrow> size_t \<Rightarrow> state \<Rightarrow> error + size_t \<times> state" where
  "item_free_small_bodies c 0 nxt_chunk chunks_freed s = Inl Diverged"
| "item_free_small_bodies c (Suc n) nxt_chunk chunks_freed s =
     (if nxt_chunk = NULL_CHUNKPTR then Inr (chunks_freed, s)
      else if sc_flags (small s nxt_chunk) \<noteq> {SMALL_CHUNK_INITIALIZED, SMALL_CHUNK_USED}
        then Inl AssertionFailure
      else
        and_then
          (free_list_push c nxt_chunk SMALL_CHUNK True
             (upd_small nxt_chunk (\<lambda>k. k\<lparr>sc_flags := sc_flags k - {SMALL_CHUNK_USED}\<rparr>) s))
          (item_free_small_bodies c n (sc_body_next_chunk (small s nxt_chunk))
             (chunks_freed + 1)))"

text \<open>``free the title'', for the two classes.\<close>

definition item_free_large_title :: "config \<Rightarrow> chunkptr \<Rightarrow> state \<Rightarrow> error + state" where
  "item_free_large_title c it s =
     (if lc_flags (large s it)
           \<noteq> {LARGE_CHUNK_INITIALIZED, LARGE_CHUNK_USED, LARGE_CHUNK_TITLE}
      then Inl AssertionFailure
      else
        and_then
          (free_list_push c it LARGE_CHUNK False
             (upd_header it (\<lambda>h. h\<lparr>it_flags := {}\<rparr>)
             (upd_large it
                (\<lambda>l. l\<lparr>lc_flags := lc_flags l - {LARGE_CHUNK_USED, LARGE_CHUNK_TITLE}\<rparr>) s)))
          (\<lambda>s1. Inr (s1\<lparr>large_title_chunks := large_title_chunks s1 - 1\<rparr>)))"

definition item_free_small_title :: "config \<Rightarrow> chunkptr \<Rightarrow> state \<Rightarrow> error + state" where
  "item_free_small_title c it s =
     (if sc_flags (small s it)
           \<noteq> {SMALL_CHUNK_INITIALIZED, SMALL_CHUNK_USED, SMALL_CHUNK_TITLE}
      then Inl AssertionFailure
      else
        and_then
          (free_list_push c it SMALL_CHUNK True
             (upd_header it (\<lambda>h. h\<lparr>it_flags := {}\<rparr>)
             (upd_small it
                (\<lambda>k. k\<lparr>sc_flags := sc_flags k - {SMALL_CHUNK_USED, SMALL_CHUNK_TITLE}\<rparr>) s)))
          (\<lambda>s1. Inr (s1\<lparr>small_title_chunks := small_title_chunks s1 - 1\<rparr>)))"

text \<open>
  \<^verbatim>\<open>item_free\<close>.  \<^verbatim>\<open>DEBUG_CLEAR\<close> (of the missing header) writes into memory that
  is being freed and is left out.
\<close>

definition item_free :: "config \<Rightarrow> nat \<Rightarrow> chunkptr \<Rightarrow> state \<Rightarrow> error + state" where
  "item_free c n it s =
     (if it = NULL_CHUNKPTR then Inl NullPointerDereference
      else
        let expected_chunks_freed = chunks_in_item c it s in
        if it_flags (header s it) - {ITEM_HAS_TIMESTAMP, ITEM_HAS_IP_ADDRESS} \<noteq> {ITEM_VALID}
          then Inl AssertionFailure
        else if refcount (header s it) \<noteq> 0 then Inl AssertionFailure
        else if next (header s it) \<noteq> NULL_CHUNKPTR then Inl AssertionFailure
        else if prev (header s it) \<noteq> NULL_CHUNKPTR then Inl AssertionFailure
        else if h_next (header s it) \<noteq> NULL_CHUNKPTR then Inl AssertionFailure
        else if is_item_large_chunk c it s then
          and_then (item_free_large_bodies c n (next_chunk (header s it)) 0 s)
            (\<lambda>(chunks_freed, s1).
               and_then
                 (item_free_large_title c it
                    (s1\<lparr>large_body_chunks := large_body_chunks s1 - chunks_freed\<rparr>))
                 (\<lambda>s2. if chunks_freed + 1 \<noteq> expected_chunks_freed
                        then Inl AssertionFailure else Inr s2))
        else
          and_then (item_free_small_bodies c n (next_chunk (header s it)) 0 s)
            (\<lambda>(chunks_freed, s1).
               and_then
                 (item_free_small_title c it
                    (s1\<lparr>small_body_chunks := small_body_chunks s1 - chunks_freed\<rparr>))
                 (\<lambda>s2. if chunks_freed + 1 \<noteq> expected_chunks_freed
                        then Inl AssertionFailure else Inr s2)))"

subsection \<open>Linking and unlinking\<close>

datatype unlink_flag = UNLINK_MAYBE_EVICT | UNLINK_IS_EVICT | UNLINK_IS_EXPIRED

text \<open>
  Modelled from the spec: \<^verbatim>\<open>item_key_copy\<close> returns the key of the item, and the
  assoc table supports \<^verbatim>\<open>insert(item, key)\<close>, \<^verbatim>\<open>find(key, nkey)\<close> and
  \<^verbatim>\<open>delete(key, nkey)\<close>.  A key is the first \<open>nkey\<close> bytes at the key pointer.
\<close>

definition item_key_copy :: "chunkptr \<Rightarrow> state \<Rightarrow> string" where
  "item_key_copy it s = key_bytes (header s it)"

definition assoc_insert :: "chunkptr \<Rightarrow> string \<Rightarrow> state \<Rightarrow> state" where
  "assoc_insert it k s =
     s\<lparr>assoc_table := (assoc_table s)(take (unat (nkey (header s it))) k \<mapsto> it)\<rparr>"

definition assoc_delete :: "string \<Rightarrow> size_t \<Rightarrow> state \<Rightarrow> state" where
  "assoc_delete k nk s = s\<lparr>assoc_table := (assoc_table s)(take (unat nk) k := None)\<rparr>"

definition assoc_find :: "string \<Rightarrow> size_t \<Rightarrow> state \<Rightarrow> chunkptr" where
  "assoc_find k nk s =
     (case assoc_table s (take (unat nk) k) of None \<Rightarrow> NULL_CHUNKPTR | Some it \<Rightarrow> it)"

text \<open>
  \<^verbatim>\<open>do_item_link\<close>; it returns 1 always, the model returns the state.
\<close>

definition do_item_link :: "chunkptr \<Rightarrow> string \<Rightarrow> state \<Rightarrow> error + state" where
  "do_item_link it k s =
     (if it = NULL_CHUNKPTR then Inl NullPointerDereference
      else if ITEM_VALID \<notin> it_flags (header s it) then Inl AssertionFailure
      else if ITEM_LINKED \<in> it_flags (header s it) then Inl AssertionFailure
      else
        item_link_q it
          ((assoc_insert it k
             (upd_header it (\<lambda>h. h\<lparr>time := current_time s\<rparr>)
             (upd_header it (\<lambda>h. h\<lparr>it_flags := it_flags h \<union> {ITEM_LINKED}\<rparr>) s)))
           \<lparr>item_total_size :=
              item_total_size s + (nkey (header s it) + nbytes (header s it)),
            curr_items := curr_items s + 1,
            total_items := total_items s + 1\<rparr>))"

text \<open>
  The part of \<^verbatim>\<open>do_item_unlink\<close> between the test of \<^verbatim>\<open>ITEM_LINKED\<close> and
  \<^verbatim>\<open>item_unlink_q\<close>: the flag, the statistics, the assoc table, \<^verbatim>\<open>h_next\<close>.
\<close>

definition unlink_kind :: "chunkptr \<Rightarrow> unlink_flag set \<Rightarrow> state \<Rightarrow> unlink_flag set" where
  "unlink_kind it fl s =
     (if UNLINK_MAYBE_EVICT \<in> fl then
        (if exptime (header s it) = 0 \<or> current_time s < exptime (header s it)
         then {UNLINK_IS_EVICT} else {UNLINK_IS_EXPIRED})
      else fl)"

definition unlink_account :: "chunkptr \<Rightarrow> unlink_flag set \<Rightarrow> string \<Rightarrow> state \<Rightarrow> state" where
  "unlink_account it fl k s =
     (let sz = nkey (header s it) + nbytes (header s it);
          kind = unlink_kind it fl s
      in
      (upd_header it (\<lambda>h. h\<lparr>h_next := NULL_CHUNKPTR\<rparr>)
      (assoc_delete k (nkey (header s it))
      (upd_header it (\<lambda>h. h\<lparr>it_flags := it_flags h - {ITEM_LINKED}\<rparr>) s)))
      \<lparr>item_total_size := item_total_size s - sz,
       curr_items := curr_items s - 1,
       evictions := (if UNLINK_IS_EVICT \<in> kind then evictions s + 1 else evictions s),
       stats_events :=
         stats_events s
         @ (if UNLINK_IS_EVICT \<in> kind then [Stats_evict sz]
            else if UNLINK_IS_EXPIRED \<in> kind then [Stats_expire sz] else [])
         @ (if detail_enabled s then [Stats_prefix_record_removal k] else [])\<rparr>)"

definition do_item_unlink ::
  "config \<Rightarrow> nat \<Rightarrow> chunkptr \<Rightarrow> unlink_flag set \<Rightarrow> string option \<Rightarrow> state \<Rightarrow> error + state"
  where
  "do_item_unlink c n it fl k s =
     (if it = NULL_CHUNKPTR then Inl NullPointerDereference
      else if ITEM_VALID \<notin> it_flags (header s it) then Inl AssertionFailure
      else if ITEM_LINKED \<in> it_flags (header s it) then
        and_then
          (item_unlink_q it
             (unlink_account it fl
                (case k of None \<Rightarrow> item_key_copy it s | Some k' \<Rightarrow> k') s))
          (\<lambda>s1. if refcount (header s1 it) = 0 then item_free c n it s1 else Inr s1)
      else Inr s)"

definition do_item_deref :: "config \<Rightarrow> nat \<Rightarrow> chunkptr \<Rightarrow> state \<Rightarrow> error + state" where
  "do_item_deref c n it s =
     (if it = NULL_CHUNKPTR then Inl NullPointerDereference
      else if ITEM_VALID \<notin> it_flags (header s it) then Inl AssertionFailure
      else
        let rc = (if refcount (header s it) \<noteq> 0 then refcount (header s it) - 1
                  else refcount (header s it))
        in
        if ITEM_DELETED \<in> it_flags (header s it) \<and> rc = 0 then Inl AssertionFailure
        else if rc = 0 \<and> ITEM_LINKED \<notin> it_flags (header s it)
          then item_free c n it (upd_header it (\<lambda>h. h\<lparr>refcount := rc\<rparr>) s)
        else Inr (upd_header it (\<lambda>h. h\<lparr>refcount := rc\<rparr>) s))"

definition do_item_replace ::
  "config \<Rightarrow> nat \<Rightarrow> chunkptr \<Rightarrow> chunkptr \<Rightarrow> string \<Rightarrow> state \<Rightarrow> error + state" where
  "do_item_replace c n it new_it k s =
     (if it = NULL_CHUNKPTR then Inl NullPointerDereference
      else if \<not> {ITEM_VALID, ITEM_LINKED} \<subseteq> it_flags (header s it) then Inl AssertionFailure
      else
        and_then (do_item_unlink c n it {} (Some k) s) (\<lambda>s1.
          if new_it = NULL_CHUNKPTR then Inl NullPointerDereference
          else if ITEM_VALID \<notin> it_flags (header s1 new_it) then Inl AssertionFailure
          else do_item_link new_it k s1))"

subsection \<open>Eviction\<close>

primrec flat_storage_lru_evict ::
  "config \<Rightarrow> nat \<Rightarrow> chunk_type_t \<Rightarrow> size_t \<Rightarrow> state \<Rightarrow> error + bool \<times> state" where
  "flat_storage_lru_evict c 0 chunk_type nchunks s = Inl Diverged"
| "flat_storage_lru_evict c (Suc n) chunk_type nchunks s =
     (if get_lru_item c s = NULL_CHUNKPTR then Inr (False, s)
      else
        and_then (do_item_unlink c n (get_lru_item c s) {UNLINK_MAYBE_EVICT} None s) (\<lambda>s1.
          case chunk_type of
            SMALL_CHUNK \<Rightarrow>
              if nchunks \<le> large_free_list_sz s1 * of_nat (SMALL_CHUNKS_PER_LARGE_CHUNK c)
                             + small_free_list_sz s1
              then Inr (True, s1)
              else flat_storage_lru_evict c n chunk_type nchunks s1
          | LARGE_CHUNK \<Rightarrow>
              if nchunks \<le> large_free_list_sz s1 then Inr (True, s1)
              else if nchunks * of_nat (SMALL_CHUNKS_PER_LARGE_CHUNK c)
                        \<le> large_free_list_sz s1 * of_nat (SMALL_CHUNKS_PER_LARGE_CHUNK c)
                           + small_free_list_sz s1
              then
                and_then (coalesce_free_small_chunks c n s1) (\<lambda>(r, s2).
                  if r = COALESCE_NO_PROGRESS
                    then flat_storage_lru_evict c n chunk_type nchunks s2
                  else if nchunks \<le> large_free_list_sz s2 then Inr (True, s2)
                  else flat_storage_lru_evict c n chunk_type nchunks s2)
              else flat_storage_lru_evict c n chunk_type nchunks s1))"

subsection \<open>Growing the region\<close>

text \<open>
  The loop of \<^verbatim>\<open>flat_storage_alloc\<close> runs
  \<^verbatim>\<open>FLAT_STORAGE_INCREMENT_DELTA / LARGE_CHUNK_SZ\<close> times; \<^verbatim>\<open>fsi.uninitialized_start\<close>
  is the index of the first large chunk that is not initialized.
\<close>

primrec flat_storage_alloc_loop :: "config \<Rightarrow> nat \<Rightarrow> state \<Rightarrow> error + state" where
  "flat_storage_alloc_loop c 0 s = Inr s"
| "flat_storage_alloc_loop c (Suc k) s =
     and_then
       (free_list_push c (Chunk (uninitialized_start s) 0) LARGE_CHUNK False
          (upd_large (Chunk (uninitialized_start s) 0)
             (\<lambda>l. l\<lparr>lc_flags := {LARGE_CHUNK_INITIALIZED}\<rparr>)
             (s\<lparr>uninitialized_start := uninitialized_start s + 1\<rparr>)))
       (\<lambda>s1. flat_storage_alloc_loop c k
               (s1\<lparr>unused_memory := unused_memory s1 - LARGE_CHUNK_SZ c\<rparr>))"

definition flat_storage_alloc :: "config \<Rightarrow> state \<Rightarrow> error + bool \<times> state" where
  "flat_storage_alloc c s =
     (if unused_memory s < FLAT_STORAGE_INCREMENT_DELTA c then Inr (False, s)
      else
        and_then
          (flat_storage_alloc_loop c
             (unat (FLAT_STORAGE_INCREMENT_DELTA c div LARGE_CHUNK_SZ c))
             (s\<lparr>item_storage_allocated :=
                  item_storage_allocated s + FLAT_STORAGE_INCREMENT_DELTA c\<rparr>))
          (\<lambda>s1. Inr (True, s1)))"

text \<open>
  \<^verbatim>\<open>flat_storage_init\<close>.  The region that \<^verbatim>\<open>mmap\<close> returns is fresh memory, all
  zero; an \<^verbatim>\<open>mmap\<close> that fails ends the program and is not modelled.
\<close>

definition flat_storage_init :: "config \<Rightarrow> size_t \<Rightarrow> state \<Rightarrow> error + state" where
  "flat_storage_init c maxbytes s =
     (if initialized s then Inl AssertionFailure
      else if maxbytes mod LARGE_CHUNK_SZ c \<noteq> 0 then Inl AssertionFailure
      else if maxbytes mod FLAT_STORAGE_INCREMENT_DELTA c \<noteq> 0 then Inl AssertionFailure
      else
        and_then
          (flat_storage_alloc c
             (s\<lparr>unused_memory := maxbytes, uninitialized_start := 0,
                large_free_list := NULL_CHUNKPTR, large_free_list_sz := 0,
                small_free_list := NULL_CHUNKPTR, small_free_list_sz := 0,
                lru_head := NULL_CHUNKPTR, lru_tail := NULL_CHUNKPTR,
                header := (\<lambda>_. zero_header), small := (\<lambda>_. zero_small),
                large := (\<lambda>_. zero_large)\<rparr>))
          (\<lambda>(grew, s1). if large_free_list_sz s1 = 0 then Inl AssertionFailure
                         else Inr (s1\<lparr>initialized := True\<rparr>)))"

subsection \<open>Allocating an item\<close>

text \<open>
  \<^verbatim>\<open>item_size_ok\<close> takes the value length as an \<^verbatim>\<open>int\<close>; \<^verbatim>\<open>do_item_alloc\<close> passes
  its \<^verbatim>\<open>size_t\<close>, which is converted.
\<close>

definition item_size_ok :: "config \<Rightarrow> size_t \<Rightarrow> int \<Rightarrow> int \<Rightarrow> bool" where
  "item_size_ok c nk fl nb = (nk \<le> KEY_MAX_LENGTH c \<and> nb \<le> MAX_ITEM_SIZE c)"

definition size_t_to_int :: "size_t \<Rightarrow> int" where
  "size_t_to_int n = sint (ucast n :: 32 word)"

text \<open>
  \<^verbatim>\<open>do_stamp_on_block\<close> returns the flags of the stamps that fit behind the value;
  \<^verbatim>\<open>sizeof(now)\<close> and \<^verbatim>\<open>sizeof(addr)\<close> are 4.  The bytes it writes are payload and
  not modelled.
\<close>

definition do_stamp_on_block :: "size_t \<Rightarrow> size_t \<Rightarrow> error + item_flag set" where
  "do_stamp_on_block block_offset block_sz =
     (if \<not> block_offset \<le> block_sz then Inl AssertionFailure
      else
        let ts = (4 \<le> block_sz - block_offset);
            offset1 = (if ts then block_offset + 4 else block_offset);
            ip = (4 \<le> block_sz - offset1);
            offset2 = (if ip then offset1 + 4 else offset1)
        in
        if \<not> offset2 \<le> block_sz then Inl AssertionFailure
        else Inr ((if ts then {ITEM_HAS_TIMESTAMP} else {})
                  \<union> (if ip then {ITEM_HAS_IP_ADDRESS} else {})))"

text \<open>\<^verbatim>\<open>if (needed == 1) title->it_flags |= do_stamp_on_block(...)\<close>\<close>

definition stamp_if_last ::
  "bool \<Rightarrow> chunkptr \<Rightarrow> size_t \<Rightarrow> size_t \<Rightarrow> state \<Rightarrow> error + state" where
  "stamp_if_last is_last title write_offset block_sz s =
     (if is_last then
        and_then (do_stamp_on_block write_offset block_sz) (\<lambda>fl.
          Inr (upd_header title (\<lambda>h. h\<lparr>it_flags := it_flags h \<union> fl\<rparr>) s))
      else Inr s)"

text \<open>The header fields that \<^verbatim>\<open>do_item_alloc\<close> writes into the title.\<close>

definition init_title ::
  "chunkptr \<Rightarrow> string \<Rightarrow> size_t \<Rightarrow> int \<Rightarrow> rel_time_t \<Rightarrow> size_t \<Rightarrow> state \<Rightarrow> state" where
  "init_title title k nk fl ex nb s =
     upd_header title
       (\<lambda>h. h\<lparr>h_next := NULL_CHUNKPTR, next := NULL_CHUNKPTR, prev := NULL_CHUNKPTR,
              next_chunk := NULL_CHUNKPTR, refcount := 1, it_flags := {ITEM_VALID},
              nkey := nk, nbytes := nb, exptime := ex, flags := fl,
              key_bytes := take (unat nk) k\<rparr>) s"

text \<open>
  \<^verbatim>\<open>chunkptr_t* prev_next\<close>: where the pointer to the next chunk of the chain is
  written, the \<^verbatim>\<open>next_chunk\<close> of the title or of a body chunk.
\<close>

datatype chain_slot =
  Title_next_chunk chunkptr | Large_body_next_chunk chunkptr | Small_body_next_chunk chunkptr

definition write_chain_slot :: "chain_slot \<Rightarrow> chunkptr \<Rightarrow> state \<Rightarrow> state" where
  "write_chain_slot sl v s =
     (case sl of
        Title_next_chunk p \<Rightarrow> upd_header p (\<lambda>h. h\<lparr>next_chunk := v\<rparr>) s
      | Large_body_next_chunk p \<Rightarrow> upd_large p (\<lambda>l. l\<lparr>lc_body_next_chunk := v\<rparr>) s
      | Small_body_next_chunk p \<Rightarrow> upd_small p (\<lambda>k. k\<lparr>sc_body_next_chunk := v\<rparr>) s)"

text \<open>
  The loops \<^verbatim>\<open>while (needed > 0)\<close> that chain the body chunks; the third argument
  is \<^verbatim>\<open>needed\<close>.  The source writes \<^verbatim>\<open>temp->flags\<close> before it asserts that \<^verbatim>\<open>temp\<close>
  is not null.
\<close>

primrec alloc_large_bodies ::
  "config \<Rightarrow> chunkptr \<Rightarrow> nat \<Rightarrow> chain_slot \<Rightarrow> size_t \<Rightarrow> state
     \<Rightarrow> error + chain_slot \<times> state" where
  "alloc_large_bodies c title 0 prev_next write_offset s = Inr (prev_next, s)"
| "alloc_large_bodies c title (Suc needed) prev_next write_offset s =
     and_then (free_list_pop c LARGE_CHUNK s) (\<lambda>(temp, s1).
       if temp = NULL_CHUNKPTR then Inl NullPointerDereference
       else
         and_then
           (stamp_if_last (needed = 0) title write_offset (LARGE_BODY_CHUNK_DATA_SZ c)
              (write_chain_slot prev_next temp
              (upd_large temp (\<lambda>l. l\<lparr>lc_flags := lc_flags l \<union> {LARGE_CHUNK_USED}\<rparr>) s1)))
           (alloc_large_bodies c title needed (Large_body_next_chunk temp)
              (write_offset - LARGE_BODY_CHUNK_DATA_SZ c)))"

primrec alloc_small_bodies ::
  "config \<Rightarrow> chunkptr \<Rightarrow> nat \<Rightarrow> chunkptr \<Rightarrow> chain_slot \<Rightarrow> size_t \<Rightarrow> state
     \<Rightarrow> error + chain_slot \<times> state" where
  "alloc_small_bodies c title 0 prv prev_next write_offset s = Inr (prev_next, s)"
| "alloc_small_bodies c title (Suc needed) prv prev_next write_offset s =
     and_then (free_list_pop c SMALL_CHUNK s) (\<lambda>(temp, s1).
       if temp = NULL_CHUNKPTR then Inl NullPointerDereference
       else
         and_then
           (stamp_if_last (needed = 0) title write_offset (SMALL_BODY_CHUNK_DATA_SZ c)
              (upd_small temp (\<lambda>k. k\<lparr>sc_body_prev_chunk := prv\<rparr>)
              (write_chain_slot prev_next temp
              (upd_small temp (\<lambda>k. k\<lparr>sc_flags := sc_flags k \<union> {SMALL_CHUNK_USED}\<rparr>) s1))))
           (alloc_small_bodies c title needed temp (Small_body_next_chunk temp)
              (write_offset - SMALL_BODY_CHUNK_DATA_SZ c)))"

text \<open>``now chain up the chunks'', for the two classes.\<close>

definition alloc_large_chain ::
  "config \<Rightarrow> string \<Rightarrow> size_t \<Rightarrow> int \<Rightarrow> rel_time_t \<Rightarrow> size_t \<Rightarrow> size_t \<Rightarrow> state
     \<Rightarrow> error + chunkptr \<times> state" where
  "alloc_large_chain c k nk fl ex nb needed s =
     and_then (free_list_pop c LARGE_CHUNK s) (\<lambda>(temp, s1).
       if temp = NULL_CHUNKPTR then Inl NullPointerDereference
       else
         and_then
           (stamp_if_last (needed = 1) temp (nk + nb) (LARGE_TITLE_CHUNK_DATA_SZ c)
              (init_title temp k nk fl ex nb
              (upd_large temp
                 (\<lambda>l. l\<lparr>lc_flags := lc_flags l \<union> {LARGE_CHUNK_USED, LARGE_CHUNK_TITLE}\<rparr>)
                 s1)))
           (\<lambda>s2.
              and_then
                (alloc_large_bodies c temp (unat (needed - 1)) (Title_next_chunk temp)
                   (nk + nb - LARGE_TITLE_CHUNK_DATA_SZ c)
                   (s2\<lparr>large_title_chunks := large_title_chunks s2 + 1,
                       large_body_chunks := large_body_chunks s2 + (needed - 1)\<rparr>))
                (\<lambda>(prev_next, s3). Inr (temp, write_chain_slot prev_next NULL_CHUNKPTR s3))))"

definition alloc_small_chain ::
  "config \<Rightarrow> string \<Rightarrow> size_t \<Rightarrow> int \<Rightarrow> rel_time_t \<Rightarrow> size_t \<Rightarrow> size_t \<Rightarrow> state
     \<Rightarrow> error + chunkptr \<times> state" where
  "alloc_small_chain c k nk fl ex nb needed s =
     and_then (free_list_pop c SMALL_CHUNK s) (\<lambda>(temp, s1).
       if temp = NULL_CHUNKPTR then Inl NullPointerDereference
       else
         and_then
           (stamp_if_last (needed = 1) temp (nk + nb) (SMALL_TITLE_CHUNK_DATA_SZ c)
              (init_title temp k nk fl ex nb
              (upd_small temp
                 (\<lambda>k. k\<lparr>sc_flags := sc_flags k \<union> {SMALL_CHUNK_USED, SMALL_CHUNK_TITLE}\<rparr>)
                 s1)))
           (\<lambda>s2.
              and_then
                (alloc_small_bodies c temp (unat (needed - 1)) temp (Title_next_chunk temp)
                   (nk + nb - SMALL_TITLE_CHUNK_DATA_SZ c)
                   (s2\<lparr>small_title_chunks := small_title_chunks s2 + 1,
                       small_body_chunks := small_body_chunks s2 + (needed - 1)\<rparr>))
                (\<lambda>(prev_next, s3). Inr (temp, write_chain_slot prev_next NULL_CHUNKPTR s3))))"

text \<open>
  The loops of \<^verbatim>\<open>do_item_alloc\<close> that try the strategies until the free list holds
  \<^verbatim>\<open>needed\<close> chunks.  They run on fuel.  The result \<open>False\<close> is ``all avenues have
  been exhausted'': \<^verbatim>\<open>do_item_alloc\<close> returns null.
\<close>

primrec alloc_large_acquire ::
  "config \<Rightarrow> nat \<Rightarrow> size_t \<Rightarrow> size_t \<Rightarrow> state \<Rightarrow> error + bool \<times> state" where
  "alloc_large_acquire c 0 needed prev_free s = Inl Diverged"
| "alloc_large_acquire c (Suc n) needed prev_free s =
     (if large_free_list_sz s < needed then
        (if prev_free = large_free_list_sz s then Inl AssertionFailure
         else
           and_then (flat_storage_alloc c s) (\<lambda>(grew, s1).
             if grew then alloc_large_acquire c n needed (large_free_list_sz s) s1
             else
               and_then
                 (if needed * of_nat (SMALL_CHUNKS_PER_LARGE_CHUNK c)
                       \<le> large_free_list_sz s1 * of_nat (SMALL_CHUNKS_PER_LARGE_CHUNK c)
                          + small_free_list_sz s1
                  then and_then (coalesce_free_small_chunks c n s1) (\<lambda>(r, s2). Inr s2)
                  else Inr s1)
                 (\<lambda>s2.
                    if large_free_list_sz s \<noteq> large_free_list_sz s2
                      then alloc_large_acquire c n needed (large_free_list_sz s) s2
                    else
                      and_then (flat_storage_lru_evict c n LARGE_CHUNK needed s2)
                        (\<lambda>(evicted, s3).
                           if evicted
                             then alloc_large_acquire c n needed (large_free_list_sz s) s3
                           else Inr (False, s3)))))
      else Inr (True, s))"

primrec alloc_small_acquire ::
  "config \<Rightarrow> nat \<Rightarrow> size_t \<Rightarrow> size_t \<Rightarrow> size_t \<Rightarrow> state \<Rightarrow> error + bool \<times> state" where
  "alloc_small_acquire c 0 needed small_prev_free large_prev_free s = Inl Diverged"
| "alloc_small_acquire c (Suc n) needed small_prev_free large_prev_free s =
     (if small_free_list_sz s < needed then
        (if \<not> (small_prev_free \<noteq> small_free_list_sz s
                \<or> large_prev_free \<noteq> large_free_list_sz s)
           then Inl AssertionFailure
         else if 0 < large_free_list_sz s then
           and_then (free_list_pop c LARGE_CHUNK s) (\<lambda>(temp, s1).
             if temp = NULL_CHUNKPTR then Inl AssertionFailure
             else
               and_then (break_large_chunk c temp s1)
                 (alloc_small_acquire c n needed (small_free_list_sz s)
                    (large_free_list_sz s)))
         else
           and_then (flat_storage_alloc c s) (\<lambda>(grew, s1).
             if grew
               then alloc_small_acquire c n needed (small_free_list_sz s)
                      (large_free_list_sz s) s1
             else
               and_then (flat_storage_lru_evict c n SMALL_CHUNK needed s1)
                 (\<lambda>(evicted, s2).
                    if evicted
                      then alloc_small_acquire c n needed (small_free_list_sz s)
                             (large_free_list_sz s) s2
                    else Inr (False, s2))))
      else Inr (True, s))"

text \<open>
  \<^verbatim>\<open>do_item_alloc\<close> returns the item, or null.  The address of the client only goes
  into the stamp, which is payload.
\<close>

definition do_item_alloc ::
  "config \<Rightarrow> nat \<Rightarrow> string \<Rightarrow> size_t \<Rightarrow> int \<Rightarrow> rel_time_t \<Rightarrow> size_t \<Rightarrow> 32 word \<Rightarrow> state
     \<Rightarrow> error + chunkptr \<times> state" where
  "do_item_alloc c n k nk fl ex nb addr s =
     (if \<not> item_size_ok c nk fl (size_t_to_int nb) then Inr (NULL_CHUNKPTR, s)
      else if is_large_chunk c nk nb then
        and_then
          (alloc_large_acquire c n (chunks_needed c nk nb) (large_free_list_sz s - 1) s)
          (\<lambda>(acquired, s1).
             if \<not> acquired then Inr (NULL_CHUNKPTR, s1)
             else alloc_large_chain c k nk fl ex nb (chunks_needed c nk nb) s1)
      else
        and_then
          (alloc_small_acquire c n (chunks_needed c nk nb) (small_free_list_sz s - 1)
             (large_free_list_sz s) s)
          (\<lambda>(acquired, s1).
             if \<not> acquired then Inr (NULL_CHUNKPTR, s1)
             else alloc_small_chain c k nk fl ex nb (chunks_needed c nk nb) s1))"

subsection \<open>Looking an item up\<close>

text \<open>
  \<^verbatim>\<open>do_item_get_notedeleted\<close> returns the item (or null) and what it writes to
  \<^verbatim>\<open>*delete_locked\<close>.  The first function is its part after the delete-lock test.
\<close>

definition item_get_expiry ::
  "config \<Rightarrow> nat \<Rightarrow> chunkptr \<Rightarrow> string \<Rightarrow> state \<Rightarrow> error + chunkptr \<times> state" where
  "item_get_expiry c n it k s =
     (if it \<noteq> NULL_CHUNKPTR \<and> oldest_live s \<noteq> 0 \<and> oldest_live s \<le> current_time s
         \<and> time (header s it) \<le> oldest_live s
      then and_then (do_item_unlink c n it {UNLINK_IS_EXPIRED} (Some k) s)
             (\<lambda>s1. Inr (NULL_CHUNKPTR, s1))
      else if it \<noteq> NULL_CHUNKPTR \<and> exptime (header s it) \<noteq> 0
              \<and> exptime (header s it) \<le> current_time s
      then and_then (do_item_unlink c n it {UNLINK_IS_EXPIRED} (Some k) s)
             (\<lambda>s1. Inr (NULL_CHUNKPTR, s1))
      else if it \<noteq> NULL_CHUNKPTR
      then Inr (it, upd_header it (\<lambda>h. h\<lparr>refcount := refcount h + 1\<rparr>) s)
      else Inr (NULL_CHUNKPTR, s))"

definition do_item_get_notedeleted ::
  "config \<Rightarrow> nat \<Rightarrow> string \<Rightarrow> size_t \<Rightarrow> state \<Rightarrow> error + chunkptr \<times> bool \<times> state" where
  "do_item_get_notedeleted c n k nk s =
     (let it = assoc_find k nk s;
          delete_locked =
            (it \<noteq> NULL_CHUNKPTR \<and> ITEM_DELETED \<in> it_flags (header s it)
             \<and> \<not> exptime (header s it) \<le> current_time s)
      in and_then (item_get_expiry c n (if delete_locked then NULL_CHUNKPTR else it) k s)
           (\<lambda>(r, s1). Inr (r, delete_locked, s1)))"

definition do_item_get_nocheck :: "string \<Rightarrow> size_t \<Rightarrow> state \<Rightarrow> chunkptr \<times> state" where
  "do_item_get_nocheck k nk s =
     (let it = assoc_find k nk s in
      if it \<noteq> NULL_CHUNKPTR
      then (it, upd_header it (\<lambda>h. h\<lparr>refcount := refcount h + 1\<rparr>) s)
      else (it, s))"

text \<open>
  \<^verbatim>\<open>do_item_flush_expired\<close> runs the same loop twice, once through the small title
  and once through the large title, which are one header.  The loop runs on fuel.
\<close>

primrec item_flush_expired_loop :: "config \<Rightarrow> nat \<Rightarrow> chunkptr \<Rightarrow> state \<Rightarrow> error + state" where
  "item_flush_expired_loop c 0 iter s = Inl Diverged"
| "item_flush_expired_loop c (Suc n) iter s =
     (if iter = NULL_CHUNKPTR then Inr s
      else if oldest_live s \<le> time (header s iter) then
        (if \<not> {ITEM_VALID, ITEM_LINKED} \<subseteq> it_flags (header s iter) then Inl AssertionFailure
         else
           and_then (do_item_unlink c n iter {UNLINK_IS_EXPIRED} None s)
             (item_flush_expired_loop c n (next (header s iter))))
      else Inr s)"

definition do_item_flush_expired :: "config \<Rightarrow> nat \<Rightarrow> state \<Rightarrow> error + state" where
  "do_item_flush_expired c n s =
     (if oldest_live s = 0 then Inr s
      else
        and_then (item_flush_expired_loop c n (lru_head s) s) (\<lambda>s1.
          item_flush_expired_loop c n (lru_head s1) s1))"

subsection \<open>The histogram of item sizes\<close>

text \<open>
  \<^verbatim>\<open>do_item_stats_sizes\<close>.  The two loops walk the LRU from the head along \<open>next\<close>,
  on fuel; the histogram is an array of \<^verbatim>\<open>unsigned int\<close>.  The result is the list of
  the pairs that the source prints as lines \<^verbatim>\<open>"%d %u\r\n"\<close>, one for each bucket that
  is not zero, in order; \<open>None\<close> is the null that it returns when \<^verbatim>\<open>malloc\<close> fails.
\<close>

definition num_buckets :: "config \<Rightarrow> nat" where
  "num_buckets c =
     (unat (LARGE_CHUNK_SZ c) + unat (KEY_MAX_LENGTH c) + nat (MAX_ITEM_SIZE c) + 32 - 1)
       div 32"

definition size_bucket :: "nat \<Rightarrow> nat" where
  "size_bucket ntotal = (if ntotal mod 32 \<noteq> 0 then ntotal div 32 + 1 else ntotal div 32)"

primrec stats_sizes_loop ::
  "config \<Rightarrow> nat \<Rightarrow> chunkptr \<Rightarrow> (nat \<Rightarrow> 32 word) \<Rightarrow> state \<Rightarrow> error + (nat \<Rightarrow> 32 word)" where
  "stats_sizes_loop c 0 iter histogram s = Inl Diverged"
| "stats_sizes_loop c (Suc n) iter histogram s =
     (if iter = NULL_CHUNKPTR then Inr histogram
      else
        stats_sizes_loop c n (next (header s iter))
          (if size_bucket (ITEM_ntotal c (header s iter)) < num_buckets c
           then histogram
                  (size_bucket (ITEM_ntotal c (header s iter)) :=
                     histogram (size_bucket (ITEM_ntotal c (header s iter))) + 1)
           else histogram) s)"

definition do_item_stats_sizes ::
  "config \<Rightarrow> nat \<Rightarrow> bool \<Rightarrow> bool \<Rightarrow> state \<Rightarrow> error + (nat \<times> 32 word) list option" where
  "do_item_stats_sizes c n histogram_allocated buf_allocated s =
     (if \<not> histogram_allocated \<or> \<not> buf_allocated then Inr None
      else
        and_then (stats_sizes_loop c n (lru_head s) (\<lambda>_. 0) s) (\<lambda>h1.
        and_then (stats_sizes_loop c n (lru_head s) h1 s) (\<lambda>h2.
          Inr (Some (map (\<lambda>i. (i * 32, h2 i))
                       (filter (\<lambda>i. h2 i \<noteq> 0) [0 ..< num_buckets c]))))))"

subsection \<open>Well-formed lists in the heap\<close>

text \<open>
  \<open>seg f p xs q\<close>: following the pointer field \<open>f\<close> from \<open>p\<close> visits exactly the
  chunks \<open>xs\<close>, none of them null, and arrives at \<open>q\<close>.
\<close>

primrec seg :: "(chunkptr \<Rightarrow> chunkptr) \<Rightarrow> chunkptr \<Rightarrow> chunkptr list \<Rightarrow> chunkptr \<Rightarrow> bool" where
  "seg f p [] q = (p = q)"
| "seg f p (x # xs) q = (p = x \<and> x \<noteq> NULL_CHUNKPTR \<and> seg f (f x) xs q)"

text \<open>
  The LRU holds the items \<open>xs\<close>, most recent first (invariant 6 of the
  specification): \<open>next\<close> leads from \<^verbatim>\<open>lru_head\<close> through \<open>xs\<close> to null, \<open>prev\<close>
  leads from \<^verbatim>\<open>lru_tail\<close> through \<open>rev xs\<close> to null.
\<close>

definition lru_is :: "state \<Rightarrow> chunkptr list \<Rightarrow> bool" where
  "lru_is s xs =
     (distinct xs
      \<and> seg (\<lambda>x. next (header s x)) (lru_head s) xs NULL_CHUNKPTR
      \<and> seg (\<lambda>x. prev (header s x)) (lru_tail s) (rev xs) NULL_CHUNKPTR)"

text \<open>
  The window of the search, in the words of the specification: the items met from a
  pointer backwards along \<open>prev\<close>, at most \<open>n\<close> of them.
\<close>

fun lru_window :: "nat \<Rightarrow> chunkptr \<Rightarrow> state \<Rightarrow> chunkptr list" where
  "lru_window 0 p s = []"
| "lru_window (Suc n) p s =
     (if p = NULL_CHUNKPTR then [] else p # lru_window n (prev (header s p)) s)"

definition first_unreferenced :: "state \<Rightarrow> chunkptr list \<Rightarrow> chunkptr" where
  "first_unreferenced s xs =
     (case find (\<lambda>p. refcount (header s p) = 0) xs of
        None \<Rightarrow> NULL_CHUNKPTR
      | Some p \<Rightarrow> p)"

text \<open>
  \<open>only_lru_fields_differ s s'\<close>: the state \<open>s'\<close> is \<open>s\<close> but for \<^verbatim>\<open>lru_head\<close>,
  \<^verbatim>\<open>lru_tail\<close> and the fields \<open>next\<close>, \<open>prev\<close> and \<open>time\<close> of item headers.
\<close>

definition only_lru_fields_differ :: "state \<Rightarrow> state \<Rightarrow> bool" where
  "only_lru_fields_differ s s' =
     (s'\<lparr>lru_head := lru_head s, lru_tail := lru_tail s, header := header s\<rparr> = s
      \<and> (\<forall>x. (header s' x)\<lparr>next := next (header s x), prev := prev (header s x),
                           time := time (header s x)\<rparr> = header s x))"

subsection \<open>An instance of the constants, and example states\<close>

text \<open>
  The sizes of the scenarios of the specification (section 8), with the limits of
  memcached for what the specification leaves open.  Modelled from the spec:
  \<^verbatim>\<open>is_large_chunk\<close> ``selects class by whether the item fits in a single small-chunk
  title chain'', \<^verbatim>\<open>chunks_needed\<close> ``derives chunk count from the per-variant payload
  capacities''.
\<close>

definition example_is_large_chunk :: "size_t \<Rightarrow> size_t \<Rightarrow> bool" where
  "example_is_large_chunk nk nb = (96 + 7 * 112 < unat nk + unat nb)"

definition example_chunks_needed :: "size_t \<Rightarrow> size_t \<Rightarrow> size_t" where
  "example_chunks_needed nk nb =
     (let total = unat nk + unat nb in
      if example_is_large_chunk nk nb
      then (if total \<le> 960 then 1 else of_nat (1 + (total - 960 + 999) div 1000))
      else (if total \<le> 96 then 1 else of_nat (1 + (total - 96 + 111) div 112)))"

definition example_config :: config where
  "example_config =
     \<lparr>KEY_MAX_LENGTH = 255, MAX_ITEM_SIZE = 1048576, LRU_SEARCH_DEPTH = 50,
      ITEM_UPDATE_INTERVAL = 60, SMALL_CHUNKS_PER_LARGE_CHUNK = 8, LARGE_CHUNK_SZ = 1024,
      FLAT_STORAGE_INCREMENT_DELTA = 4096, LARGE_TITLE_CHUNK_DATA_SZ = 960,
      LARGE_BODY_CHUNK_DATA_SZ = 1000, SMALL_TITLE_CHUNK_DATA_SZ = 96,
      SMALL_BODY_CHUNK_DATA_SZ = 112, chunks_needed = example_chunks_needed,
      is_large_chunk = example_is_large_chunk,
      ITEM_ntotal = (\<lambda>h. 1024 + unat (nkey h) + unat (nbytes h))\<rparr>"

text \<open>The globals before \<^verbatim>\<open>flat_storage_init\<close>: all zero.\<close>

definition zero_state :: state where
  "zero_state =
     \<lparr>unused_memory = 0, uninitialized_start = 0, large_free_list = NULL_CHUNKPTR,
      large_free_list_sz = 0, small_free_list = NULL_CHUNKPTR, small_free_list_sz = 0,
      lru_head = NULL_CHUNKPTR, lru_tail = NULL_CHUNKPTR, initialized = False,
      large_title_chunks = 0, large_body_chunks = 0, large_broken_chunks = 0,
      small_title_chunks = 0, small_body_chunks = 0, broken_chunk_histogram = (\<lambda>_. 0),
      break_events = 0, unbreak_events = 0, migrates = 0,
      header = (\<lambda>_. zero_header), small = (\<lambda>_. zero_small), large = (\<lambda>_. zero_large),
      assoc_table = (\<lambda>_. None), current_time = 0, oldest_live = 0, detail_enabled = False,
      item_storage_allocated = 0, item_total_size = 0, curr_items = 0, total_items = 0,
      evictions = 0, stats_events = []\<rparr>"

text \<open>
  An item that is referenced but no longer linked (it was unlinked while a reader held
  it), at second 100; its last access was at second 0.
\<close>

definition unlinked_item_state :: state where
  "unlinked_item_state =
     zero_state\<lparr>current_time := 100,
       header := (\<lambda>_. zero_header)
         (Chunk 0 0 := zero_header\<lparr>refcount := 1, it_flags := {ITEM_VALID}\<rparr>)\<rparr>"

text \<open>
  Two linked items, \<open>Chunk 0 0\<close> at the head of the LRU and \<open>Chunk 0 1\<close> at its tail,
  both last accessed at second \<open>t\<close>, with the clock at second \<open>now\<close>.
\<close>

definition two_item_state :: "rel_time_t \<Rightarrow> rel_time_t \<Rightarrow> state" where
  "two_item_state t now =
     zero_state\<lparr>lru_head := Chunk 0 0, lru_tail := Chunk 0 1, current_time := now,
       header := (\<lambda>_. zero_header)
         (Chunk 0 0 := zero_header\<lparr>next := Chunk 0 1, time := t,
                                    it_flags := {ITEM_VALID, ITEM_LINKED}\<rparr>,
          Chunk 0 1 := zero_header\<lparr>prev := Chunk 0 0, time := t,
                                    it_flags := {ITEM_VALID, ITEM_LINKED}\<rparr>)\<rparr>"

text \<open>The state after \<^verbatim>\<open>do_item_update\<close> moved the tail item to the head.\<close>

definition two_item_state_moved :: "rel_time_t \<Rightarrow> rel_time_t \<Rightarrow> state" where
  "two_item_state_moved t now =
     zero_state\<lparr>lru_head := Chunk 0 1, lru_tail := Chunk 0 0, current_time := now,
       header := (\<lambda>_. zero_header)
         (Chunk 0 0 := zero_header\<lparr>prev := Chunk 0 1, time := t,
                                    it_flags := {ITEM_VALID, ITEM_LINKED}\<rparr>,
          Chunk 0 1 := zero_header\<lparr>next := Chunk 0 0, time := now,
                                    it_flags := {ITEM_VALID, ITEM_LINKED}\<rparr>)\<rparr>"

text \<open>
  A large item of one chunk at \<open>Chunk 0 0\<close> (key of 1 byte, value of 900 bytes), with
  a given refcount and given flags; and the state after it is freed.
\<close>

definition large_item_state :: "16 word \<Rightarrow> item_flag set \<Rightarrow> state" where
  "large_item_state rc fl =
     zero_state\<lparr>large_title_chunks := 1,
       header := (\<lambda>_. zero_header)
         (Chunk 0 0 := zero_header\<lparr>nbytes := 900, nkey := 1, refcount := rc, it_flags := fl\<rparr>),
       large := (\<lambda>_. zero_large)
         (Chunk 0 0 := zero_large\<lparr>lc_flags := {LARGE_CHUNK_INITIALIZED, LARGE_CHUNK_USED,
                                                LARGE_CHUNK_TITLE}\<rparr>)\<rparr>"

definition large_item_freed_state :: state where
  "large_item_freed_state =
     zero_state\<lparr>large_free_list := Chunk 0 0, large_free_list_sz := 1,
       header := (\<lambda>_. zero_header)
         (Chunk 0 0 := zero_header\<lparr>nbytes := 900, nkey := 1\<rparr>),
       large := (\<lambda>_. zero_large)
         (Chunk 0 0 := zero_large\<lparr>lc_flags := {LARGE_CHUNK_INITIALIZED, LARGE_CHUNK_FREE}\<rparr>)\<rparr>"

text \<open>
  A linked small item that one reader holds (refcount 1), alone on the LRU and in the
  assoc table; and the state after it is unlinked.
\<close>

definition linked_item_state :: state where
  "linked_item_state =
     zero_state\<lparr>lru_head := Chunk 0 0, lru_tail := Chunk 0 0,
       header := (\<lambda>_. zero_header)
         (Chunk 0 0 := zero_header\<lparr>nbytes := 4, nkey := 1, refcount := 1,
            it_flags := {ITEM_VALID, ITEM_LINKED}, key_bytes := ''k''\<rparr>),
       assoc_table := (\<lambda>_. None)(''k'' \<mapsto> Chunk 0 0),
       item_total_size := 5, curr_items := 1, total_items := 1\<rparr>"

definition linked_item_unlinked_state :: state where
  "linked_item_unlinked_state =
     zero_state\<lparr>
       header := (\<lambda>_. zero_header)
         (Chunk 0 0 := zero_header\<lparr>nbytes := 4, nkey := 1, refcount := 1,
            it_flags := {ITEM_VALID}, key_bytes := ''k''\<rparr>),
       total_items := 1\<rparr>"

text \<open>
  In the words of the specification: the number of the items of a list whose total
  size falls in bucket \<open>i\<close>.
\<close>

definition items_in_bucket :: "config \<Rightarrow> state \<Rightarrow> chunkptr list \<Rightarrow> nat \<Rightarrow> nat" where
  "items_in_bucket c s xs i =
     length (filter (\<lambda>it. size_bucket (ITEM_ntotal c (header s it)) = i) xs)"

text \<open>
  Invariant 12 of the specification (break/unbreak parity), on the counters of
  \<^verbatim>\<open>fsi.stats\<close>, which are unsigned 64-bit integers.
\<close>

definition broken_parity :: "state \<Rightarrow> bool" where
  "broken_parity s = (break_events s - unbreak_events s = large_broken_chunks s)"

text \<open>What a computation returns, when it returns, satisfies \<open>P\<close>.\<close>

definition returns :: "('a \<Rightarrow> bool) \<Rightarrow> error + 'a \<Rightarrow> bool" where
  "returns P m = (case m of Inl e \<Rightarrow> True | Inr x \<Rightarrow> P x)"

text \<open>
  The public operations of the engine, with their arguments, and what the server does
  between them to the globals that the engine reads: the clock, \<^verbatim>\<open>settings.oldest_live\<close>
  and \<^verbatim>\<open>settings.detail_enabled\<close>.
\<close>

datatype operation =
    Alloc string size_t int rel_time_t size_t "32 word"
  | Link chunkptr string
  | Unlink chunkptr "unlink_flag set" "string option"
  | Deref chunkptr
  | Update chunkptr
  | Replace chunkptr chunkptr string
  | Get string size_t
  | Get_nocheck string size_t
  | Flush_expired
  | Set_current_time rel_time_t
  | Set_oldest_live rel_time_t
  | Set_detail_enabled bool

text \<open>One operation, with fuel for its loops; the value it returns is dropped.\<close>

definition step :: "config \<Rightarrow> nat \<Rightarrow> operation \<Rightarrow> state \<Rightarrow> error + state" where
  "step c n op s =
     (case op of
        Alloc k nk fl ex nb addr \<Rightarrow>
          and_then (do_item_alloc c n k nk fl ex nb addr s) (\<lambda>(it, s1). Inr s1)
      | Link it k \<Rightarrow> do_item_link it k s
      | Unlink it fl k \<Rightarrow> do_item_unlink c n it fl k s
      | Deref it \<Rightarrow> do_item_deref c n it s
      | Update it \<Rightarrow> do_item_update c it s
      | Replace it new_it k \<Rightarrow> do_item_replace c n it new_it k s
      | Get k nk \<Rightarrow>
          and_then (do_item_get_notedeleted c n k nk s) (\<lambda>(it, delete_locked, s1). Inr s1)
      | Get_nocheck k nk \<Rightarrow> Inr (snd (do_item_get_nocheck k nk s))
      | Flush_expired \<Rightarrow> do_item_flush_expired c n s
      | Set_current_time t \<Rightarrow> Inr (s\<lparr>current_time := t\<rparr>)
      | Set_oldest_live t \<Rightarrow> Inr (s\<lparr>oldest_live := t\<rparr>)
      | Set_detail_enabled b \<Rightarrow> Inr (s\<lparr>detail_enabled := b\<rparr>))"

primrec run :: "config \<Rightarrow> (nat \<times> operation) list \<Rightarrow> state \<Rightarrow> error + state" where
  "run c [] s = Inr s"
| "run c (op # ops) s = and_then (step c (fst op) (snd op) s) (run c ops)"

text \<open>
  The state after \<^verbatim>\<open>flat_storage_init(4096)\<close> with the example constants: four free
  large chunks.
\<close>

definition initialized_state :: state where
  "initialized_state =
     zero_state\<lparr>uninitialized_start := 4, large_free_list := Chunk 3 0,
       large_free_list_sz := 4, initialized := True, item_storage_allocated := 4096,
       large := (\<lambda>_. zero_large)
         (Chunk 0 0 := zero_large\<lparr>lc_flags := {LARGE_CHUNK_INITIALIZED, LARGE_CHUNK_FREE}\<rparr>,
          Chunk 1 0 := zero_large\<lparr>lc_flags := {LARGE_CHUNK_INITIALIZED, LARGE_CHUNK_FREE},
                                    lc_free_next := Chunk 0 0\<rparr>,
          Chunk 2 0 := zero_large\<lparr>lc_flags := {LARGE_CHUNK_INITIALIZED, LARGE_CHUNK_FREE},
                                    lc_free_next := Chunk 1 0\<rparr>,
          Chunk 3 0 := zero_large\<lparr>lc_flags := {LARGE_CHUNK_INITIALIZED, LARGE_CHUNK_FREE},
                                    lc_free_next := Chunk 2 0\<rparr>)\<rparr>"

text \<open>Reading through a \<^verbatim>\<open>chunkptr_t*\<close>.\<close>

definition read_chain_slot :: "chain_slot \<Rightarrow> state \<Rightarrow> chunkptr" where
  "read_chain_slot sl s =
     (case sl of
        Title_next_chunk p \<Rightarrow> next_chunk (header s p)
      | Large_body_next_chunk p \<Rightarrow> lc_body_next_chunk (large s p)
      | Small_body_next_chunk p \<Rightarrow> sc_body_next_chunk (small s p))"

text \<open>The header fields that the chaining loops of \<^verbatim>\<open>do_item_alloc\<close> do not write.\<close>

definition kept_fields ::
  "item_header \<Rightarrow> chunkptr \<times> chunkptr \<times> chunkptr \<times> rel_time_t \<times> rel_time_t \<times> size_t \<times> size_t
     \<times> 16 word \<times> int \<times> string" where
  "kept_fields h =
     (h_next h, next h, prev h, time h, exptime h, nbytes h, nkey h, refcount h, flags h,
      key_bytes h)"

text \<open>
  A slot that the large chaining loop may write: the \<^verbatim>\<open>next_chunk\<close> of a title, or of
  a large chunk that is not free.
\<close>

definition large_slot_ok :: "chain_slot \<Rightarrow> state \<Rightarrow> bool" where
  "large_slot_ok sl s =
     (case sl of
        Title_next_chunk p \<Rightarrow> True
      | Large_body_next_chunk p \<Rightarrow> LARGE_CHUNK_FREE \<notin> lc_flags (large s p)
      | Small_body_next_chunk p \<Rightarrow> False)"

definition small_slot_ok :: "chain_slot \<Rightarrow> state \<Rightarrow> bool" where
  "small_slot_ok sl s =
     (case sl of
        Title_next_chunk p \<Rightarrow> True
      | Large_body_next_chunk p \<Rightarrow> False
      | Small_body_next_chunk p \<Rightarrow> SMALL_CHUNK_FREE \<notin> sc_flags (small s p))"

text \<open>
  In the words of the specification: the chunks of an item are its title and the body
  chunks \<open>bs\<close>, which \<^verbatim>\<open>next_chunk\<close> leads through from the title to null.
\<close>

definition item_chunk_chain :: "config \<Rightarrow> state \<Rightarrow> chunkptr \<Rightarrow> chunkptr list \<Rightarrow> bool" where
  "item_chunk_chain c s it bs =
     (distinct (it # bs)
      \<and> seg (if is_item_large_chunk c it s
              then (\<lambda>p. lc_body_next_chunk (large s p))
              else (\<lambda>p. sc_body_next_chunk (small s p)))
            (next_chunk (header s it)) bs NULL_CHUNKPTR)"

section \<open>Theorems\<close>

subsection \<open>List segments and the LRU\<close>

lemma seg_append: "seg f p (as @ bs) q = (\<exists>m. seg f p as m \<and> seg f m bs q)"
  by (induction as arbitrary: p) auto

lemma seg_cong: "(\<And>x. x \<in> set xs \<Longrightarrow> f x = g x) \<Longrightarrow> seg f p xs q = seg g p xs q"
  by (induction xs arbitrary: p) auto

lemma seg_not_null: "seg f p xs q \<Longrightarrow> NULL_CHUNKPTR \<notin> set xs"
  by (induction xs arbitrary: p) auto

lemma seg_snoc: "seg f p (xs @ [x]) q = (seg f p xs x \<and> x \<noteq> NULL_CHUNKPTR \<and> f x = q)"
  by (auto simp: seg_append)

lemma seg_null_start: "seg f NULL_CHUNKPTR xs q \<Longrightarrow> xs = []"
  by (cases xs) auto

text \<open>Removing one node from a list segment.\<close>

lemma seg_remove:
  assumes s: "seg f p (as @ it # bs) q"
    and d: "distinct (as @ it # bs)"
    and bs: "\<And>x. x \<in> set bs \<Longrightarrow> f' x = f x"
    and as: "\<And>x. x \<in> set (butlast as) \<Longrightarrow> f' x = f x"
    and l: "as \<noteq> [] \<Longrightarrow> f' (last as) = f it"
  shows "seg f' (if as = [] then f it else p) (as @ bs) q"
proof (cases as rule: rev_cases)
  case Nil
  with s have "seg f (f it) bs q" by simp
  with bs have "seg f' (f it) bs q" using seg_cong [of bs f' f] by blast
  with Nil show ?thesis by simp
next
  case (snoc as' a)
  with s have 1: "seg f p as' a" and 2: "a \<noteq> NULL_CHUNKPTR" and 3: "f a = it"
    and 4: "seg f (f it) bs q"
    by (auto simp: seg_append)
  from as snoc have "seg f' p as' a" using 1 seg_cong [of as' f' f] by auto
  moreover from l snoc have "f' a = f it" by simp
  moreover from bs 4 have "seg f' (f it) bs q" using seg_cong [of bs f' f] by blast
  ultimately show ?thesis using snoc 2 by (auto simp: seg_append)
qed

lemma seg_hd: "seg f p (x # xs) q \<Longrightarrow> p = x"
  by simp

lemma upd_header_simps [simp]:
  "header (upd_header p f s) = (header s)(p := f (header s p))"
  "lru_head (upd_header p f s) = lru_head s"
  "lru_tail (upd_header p f s) = lru_tail s"
  by (simp_all add: upd_header_def)

lemma lru_is_split:
  assumes "lru_is s (as @ it # bs)"
  shows "it \<noteq> NULL_CHUNKPTR"
    and "(it = lru_head s) = (as = [])"
    and "(it = lru_tail s) = (bs = [])"
    and "next (header s it) = (if bs = [] then NULL_CHUNKPTR else hd bs)"
    and "prev (header s it) = (if as = [] then NULL_CHUNKPTR else last as)"
    and "NULL_CHUNKPTR \<notin> set as" and "NULL_CHUNKPTR \<notin> set bs"
proof -
  let ?f = "\<lambda>x. next (header s x)" and ?g = "\<lambda>x. prev (header s x)"
  from assms have d: "distinct (as @ it # bs)"
    and f: "seg ?f (lru_head s) (as @ it # bs) NULL_CHUNKPTR"
    and g: "seg ?g (lru_tail s) (rev bs @ it # rev as) NULL_CHUNKPTR"
    by (simp_all add: lru_is_def)
  from f show "it \<noteq> NULL_CHUNKPTR" by (auto simp: seg_append)
  from f d show "(it = lru_head s) = (as = [])" by (cases as) auto
  from g d show "(it = lru_tail s) = (bs = [])" by (cases bs rule: rev_cases) (auto simp: seg_append)
  from f show "next (header s it) = (if bs = [] then NULL_CHUNKPTR else hd bs)"
    by (cases bs) (auto simp: seg_append)
  from g show "prev (header s it) = (if as = [] then NULL_CHUNKPTR else last as)"
    by (cases as rule: rev_cases) (auto simp: seg_append)
  from f show "NULL_CHUNKPTR \<notin> set as" "NULL_CHUNKPTR \<notin> set bs"
    using seg_not_null [OF f] by auto
qed


lemma item_unlink_q_lru:
  assumes "lru_is s (as @ it # bs)"
  shows "\<exists>s'. item_unlink_q it s = Inr s' \<and> lru_is s' (as @ bs)
           \<and> next (header s' it) = NULL_CHUNKPTR \<and> prev (header s' it) = NULL_CHUNKPTR
           \<and> only_lru_fields_differ s s'"
proof -
  note sp = lru_is_split [OF assms]
  let ?f = "\<lambda>x. next (header s x)" and ?g = "\<lambda>x. prev (header s x)"
  from assms have d: "distinct (as @ it # bs)"
    and f: "seg ?f (lru_head s) (as @ it # bs) NULL_CHUNKPTR"
    and g: "seg ?g (lru_tail s) (rev bs @ it # rev as) NULL_CHUNKPTR"
    by (simp_all add: lru_is_def)
  have hb: "bs \<noteq> [] \<Longrightarrow> hd bs \<noteq> it" "bs \<noteq> [] \<Longrightarrow> hd bs \<noteq> NULL_CHUNKPTR"
    using d sp(7) by (cases bs; auto)+
  have la: "as \<noteq> [] \<Longrightarrow> last as \<noteq> it" "as \<noteq> [] \<Longrightarrow> last as \<noteq> NULL_CHUNKPTR" using d sp(6)
    by (cases as rule: rev_cases; auto)+
  have ab: "as \<noteq> [] \<Longrightarrow> bs \<noteq> [] \<Longrightarrow> last as \<noteq> hd bs" using d
    by (cases as rule: rev_cases; cases bs) auto
  define s' where "s' = 
          (upd_header it (\<lambda>h. h\<lparr>next := NULL_CHUNKPTR\<rparr>)
          (upd_header it (\<lambda>h. h\<lparr>prev := NULL_CHUNKPTR\<rparr>)
          (upd_header_if (prev (header s it) \<noteq> NULL_CHUNKPTR) (prev (header s it)) (\<lambda>h. h\<lparr>next := next (header s it)\<rparr>)
          (upd_header_if (next (header s it) \<noteq> NULL_CHUNKPTR) (next (header s it)) (\<lambda>h. h\<lparr>prev := prev (header s it)\<rparr>)
          (s\<lparr>lru_head := (if it = lru_head s then next (header s it) else lru_head s),
             lru_tail := (if it = lru_tail s then prev (header s it) else lru_tail s)\<rparr>)))))"
  have r: "item_unlink_q it s = Inr s'"
    using sp(1-5) by (simp add: item_unlink_q_def s'_def Let_def)
  have h: "lru_head s' = (if as = [] then ?f it else lru_head s)"
    and t: "lru_tail s' = (if bs = [] then ?g it else lru_tail s)"
    using sp(2,3) by (simp_all add: s'_def upd_header_if_def)
  have n: "next (header s' x) = (if x = it then NULL_CHUNKPTR
             else if as \<noteq> [] \<and> x = last as then ?f it else ?f x)" for x
    using sp(4,5) hb la ab by (auto simp: s'_def upd_header_if_def)
  have p: "prev (header s' x) = (if x = it then NULL_CHUNKPTR
             else if bs \<noteq> [] \<and> x = hd bs then ?g it else ?g x)" for x
    using sp(4,5) hb la ab by (auto simp: s'_def upd_header_if_def)
  have lb: "as \<noteq> [] \<Longrightarrow> last as \<notin> set bs" "as \<noteq> [] \<Longrightarrow> last as \<notin> set (butlast as)"
    using d by (cases as rule: rev_cases; auto)+
  have hh: "bs \<noteq> [] \<Longrightarrow> hd bs \<notin> set as" "bs \<noteq> [] \<Longrightarrow> hd bs \<notin> set (tl bs)"
    using d by (cases bs; auto)+
  have nt: "it \<notin> set (tl bs)" "it \<notin> set (butlast as)"
    using d by (cases bs; auto dest: in_set_butlastD)+
  have 1: "seg (\<lambda>x. next (header s' x)) (if as = [] then ?f it else lru_head s) (as @ bs) NULL_CHUNKPTR"
    by (rule seg_remove [OF f d]) (use d la lb in \<open>auto simp: n dest: in_set_butlastD\<close>)
  have d': "distinct (rev bs @ it # rev as)" using d by auto
  have 2: "seg (\<lambda>x. prev (header s' x)) (if rev bs = [] then ?g it else lru_tail s) (rev bs @ rev as) NULL_CHUNKPTR"
    by (rule seg_remove [OF g d']) (use d hb hh nt in \<open>auto simp: p last_rev butlast_rev\<close>)
  have "lru_is s' (as @ bs)"
    using 1 2 d by (simp add: lru_is_def h t)
  moreover have "only_lru_fields_differ s s'"
    by (simp add: only_lru_fields_differ_def s'_def upd_header_if_def upd_header_def fun_eq_iff)
  ultimately show ?thesis using r n p by simp
qed


lemma lru_is_Nil: "lru_is s [] = (lru_head s = NULL_CHUNKPTR \<and> lru_tail s = NULL_CHUNKPTR)"
  by (auto simp: lru_is_def)

lemma lru_is_ends:
  assumes "lru_is s (y # ys)"
  shows "lru_head s = y" "lru_tail s = last (y # ys)" "lru_tail s \<noteq> NULL_CHUNKPTR"
    "y \<noteq> NULL_CHUNKPTR" "prev (header s y) = NULL_CHUNKPTR"
proof -
  from assms have f: "seg (\<lambda>x. next (header s x)) (lru_head s) (y # ys) NULL_CHUNKPTR"
    and g: "seg (\<lambda>x. prev (header s x)) (lru_tail s) (rev ys @ [y]) NULL_CHUNKPTR"
    by (simp_all add: lru_is_def)
  from f show "lru_head s = y" "y \<noteq> NULL_CHUNKPTR" by simp_all
  from g show "prev (header s y) = NULL_CHUNKPTR" by (simp add: seg_snoc)
  from g show "lru_tail s = last (y # ys)" "lru_tail s \<noteq> NULL_CHUNKPTR"
    by (cases ys rule: rev_cases; auto simp: seg_snoc)+
qed

lemma item_link_q_lru:
  assumes l: "lru_is s ys" and ni: "it \<notin> set ys" and nn: "it \<noteq> NULL_CHUNKPTR"
    and n0: "next (header s it) = NULL_CHUNKPTR" and p0: "prev (header s it) = NULL_CHUNKPTR"
  shows "\<exists>s'. item_link_q it s = Inr s' \<and> lru_is s' (it # ys) \<and> only_lru_fields_differ s s'"
proof -
  define s' where "s' =
        ((upd_header_if (lru_head s \<noteq> NULL_CHUNKPTR) (lru_head s) (\<lambda>h. h\<lparr>prev := it\<rparr>)
         (upd_header_if (lru_head s \<noteq> NULL_CHUNKPTR) it (\<lambda>h. h\<lparr>next := lru_head s\<rparr>) s))
         \<lparr>lru_head := it,
          lru_tail := (if lru_tail s = NULL_CHUNKPTR then it else lru_tail s)\<rparr>)"
  have r: "item_link_q it s = Inr s'"
    using nn n0 p0 by (simp add: item_link_q_def s'_def)
  have o: "only_lru_fields_differ s s'"
    by (simp add: only_lru_fields_differ_def s'_def upd_header_if_def upd_header_def fun_eq_iff)
  from l have d: "distinct ys" by (simp add: lru_is_def)
  have "lru_is s' (it # ys)"
  proof (cases ys)
    case Nil
    with l have "lru_head s = NULL_CHUNKPTR" "lru_tail s = NULL_CHUNKPTR"
      by (simp_all add: lru_is_Nil)
    with Nil nn n0 p0 show ?thesis
      by (simp add: lru_is_def s'_def upd_header_if_def)
  next
    case (Cons y ys')
    note e = lru_is_ends [OF l [unfolded Cons]]
    from l Cons have f: "seg (\<lambda>x. next (header s x)) y (y # ys') NULL_CHUNKPTR"
      and g: "seg (\<lambda>x. prev (header s x)) (lru_tail s) (rev ys') y"
      using e(1) by (simp_all add: lru_is_def seg_snoc)
    have n: "next (header s' x) = (if x = it then y else next (header s x))" for x
      using e(1,4) by (simp add: s'_def upd_header_if_def)
    have p: "prev (header s' x) = (if x = y then it else prev (header s x))" for x
      using e(1,4) by (simp add: s'_def upd_header_if_def)
    have h: "lru_head s' = it" "lru_tail s' = lru_tail s"
      using e(3) by (simp_all add: s'_def upd_header_if_def)
    from ni Cons have iy: "it \<noteq> y" "it \<notin> set ys'" by auto
    from d Cons have yy: "y \<notin> set ys'" by simp
    have 1: "seg (\<lambda>x. next (header s' x)) y (y # ys') NULL_CHUNKPTR"
    proof -
      have "seg (\<lambda>x. next (header s' x)) y (y # ys') NULL_CHUNKPTR
            = seg (\<lambda>x. next (header s x)) y (y # ys') NULL_CHUNKPTR"
        by (rule seg_cong) (use iy in \<open>auto simp: n\<close>)
      with f show ?thesis by simp
    qed
    have 2: "seg (\<lambda>x. prev (header s' x)) (lru_tail s) (rev ys') y"
    proof -
      have "seg (\<lambda>x. prev (header s' x)) (lru_tail s) (rev ys') y
            = seg (\<lambda>x. prev (header s x)) (lru_tail s) (rev ys') y"
        by (rule seg_cong) (use yy in \<open>auto simp: p\<close>)
      with g show ?thesis by simp
    qed
    show ?thesis
      using 1 2 d ni nn e(4) iy p0 Cons
      by (simp add: lru_is_def h seg_append n p)
  qed
  with r o show ?thesis by simp
qed

lemma lru_is_cong:
  assumes "lru_head s' = lru_head s" "lru_tail s' = lru_tail s"
    and "\<And>x. next (header s' x) = next (header s x)"
    and "\<And>x. prev (header s' x) = prev (header s x)"
  shows "lru_is s' xs = lru_is s xs"
  using assms by (simp add: lru_is_def)


lemma lru_window_length: "length (lru_window n p s) \<le> n"
  by (induction n p s rule: lru_window.induct) auto

lemma lru_window_not_null: "NULL_CHUNKPTR \<notin> set (lru_window n p s)"
  by (induction n p s rule: lru_window.induct) auto

lemma get_lru_item_loop_window:
  "get_lru_item_loop n p s = first_unreferenced s (lru_window n p s)"
  by (induction n p s rule: get_lru_item_loop.induct)
     (auto simp: first_unreferenced_def)

text \<open>
  C4.  \<^verbatim>\<open>get_lru_item\<close> looks at the items met from \<^verbatim>\<open>fsi.lru_tail\<close> backwards along
  \<open>prev\<close>, at most \<^verbatim>\<open>LRU_SEARCH_DEPTH\<close> of them (fewer when the list is shorter), and
  returns the first of them whose refcount is 0, or NULL when none of them has
  refcount 0.
\<close>

theorem get_lru_item_scans_window:
  "length (lru_window (LRU_SEARCH_DEPTH c) (lru_tail s) s) \<le> LRU_SEARCH_DEPTH c
   \<and> get_lru_item c s =
       (case find (\<lambda>p. refcount (header s p) = 0)
               (lru_window (LRU_SEARCH_DEPTH c) (lru_tail s) s) of
          None \<Rightarrow> NULL_CHUNKPTR
        | Some p \<Rightarrow> p)"
  using get_lru_item_loop_window [of "LRU_SEARCH_DEPTH c" "lru_tail s" s]
  by (simp add: get_lru_item_def first_unreferenced_def lru_window_length)


subsection \<open>\<^verbatim>\<open>do_item_update\<close>\<close>

lemma only_lru_fields_differ_refl: "only_lru_fields_differ s s"
  by (simp add: only_lru_fields_differ_def)

lemma only_lru_fields_differ_fields:
  assumes "only_lru_fields_differ s s'"
  shows "current_time s' = current_time s"
    and "it_flags (header s' x) = it_flags (header s x)"
    and "refcount (header s' x) = refcount (header s x)"
proof -
  from assms have e: "s'\<lparr>lru_head := lru_head s, lru_tail := lru_tail s, header := header s\<rparr> = s"
    and h: "(header s' x)\<lparr>next := next (header s x), prev := prev (header s x),
                           time := time (header s x)\<rparr> = header s x"
    by (simp_all add: only_lru_fields_differ_def)
  from arg_cong [OF e, of current_time] show "current_time s' = current_time s" by simp
  from arg_cong [OF h, of it_flags] show "it_flags (header s' x) = it_flags (header s x)" by simp
  from arg_cong [OF h, of refcount] show "refcount (header s' x) = refcount (header s x)" by simp
qed

lemma only_lru_fields_differ_trans:
  assumes "only_lru_fields_differ s s1" "only_lru_fields_differ s1 s2"
  shows "only_lru_fields_differ s s2"
proof -
  from assms have e1: "s1\<lparr>lru_head := lru_head s, lru_tail := lru_tail s, header := header s\<rparr> = s"
    and e2: "s2\<lparr>lru_head := lru_head s1, lru_tail := lru_tail s1, header := header s1\<rparr> = s1"
    and h1: "\<And>x. (header s1 x)\<lparr>next := next (header s x), prev := prev (header s x),
                           time := time (header s x)\<rparr> = header s x"
    and h2: "\<And>x. (header s2 x)\<lparr>next := next (header s1 x), prev := prev (header s1 x),
                           time := time (header s1 x)\<rparr> = header s1 x"
    by (simp_all add: only_lru_fields_differ_def)
  have "s2\<lparr>lru_head := lru_head s, lru_tail := lru_tail s, header := header s\<rparr>
        = (s2\<lparr>lru_head := lru_head s1, lru_tail := lru_tail s1, header := header s1\<rparr>)
            \<lparr>lru_head := lru_head s, lru_tail := lru_tail s, header := header s\<rparr>"
    by simp
  also have "\<dots> = s" by (simp only: e2 e1)
  finally have a: "s2\<lparr>lru_head := lru_head s, lru_tail := lru_tail s, header := header s\<rparr> = s" .
  have b: "(header s2 x)\<lparr>next := next (header s x), prev := prev (header s x),
                           time := time (header s x)\<rparr> = header s x" for x
  proof -
    have "(header s2 x)\<lparr>next := next (header s x), prev := prev (header s x),
                           time := time (header s x)\<rparr>
       = ((header s2 x)\<lparr>next := next (header s1 x), prev := prev (header s1 x),
                           time := time (header s1 x)\<rparr>)
            \<lparr>next := next (header s x), prev := prev (header s x), time := time (header s x)\<rparr>"
      by simp
    also have "\<dots> = header s x" by (simp only: h2 h1)
    finally show ?thesis .
  qed
  from a b show ?thesis by (simp add: only_lru_fields_differ_def)
qed

lemma set_time_only_lru_fields_differ:
  "only_lru_fields_differ s (upd_header it (\<lambda>h. h\<lparr>time := t\<rparr>) s)"
  by (simp add: only_lru_fields_differ_def upd_header_def)

lemma do_item_update_linked:
  assumes l: "lru_is s (as @ it # bs)"
    and v: "ITEM_VALID \<in> it_flags (header s it)"
    and k: "ITEM_LINKED \<in> it_flags (header s it)"
    and x: "time (header s it) < current_time s - ITEM_UPDATE_INTERVAL c"
  shows "\<exists>s'. do_item_update c it s = Inr s' \<and> lru_is s' (it # as @ bs)
           \<and> time (header s' it) = current_time s
           \<and> (\<forall>x. x \<noteq> it \<longrightarrow> time (header s' x) = time (header s x))
           \<and> only_lru_fields_differ s s'"
proof -
  from item_unlink_q_lru [OF l] obtain s1 where
    u: "item_unlink_q it s = Inr s1" and l1: "lru_is s1 (as @ bs)"
    and n1: "next (header s1 it) = NULL_CHUNKPTR" and p1: "prev (header s1 it) = NULL_CHUNKPTR"
    and o1: "only_lru_fields_differ s s1" by blast
  define s2 where "s2 = upd_header it (\<lambda>h. h\<lparr>time := current_time s1\<rparr>) s1"
  have o2: "only_lru_fields_differ s1 s2"
    unfolding s2_def by (rule set_time_only_lru_fields_differ)
  have "lru_is s2 (as @ bs) = lru_is s1 (as @ bs)"
    by (rule lru_is_cong) (simp_all add: s2_def)
  with l1 have l2: "lru_is s2 (as @ bs)" by simp
  have n2: "next (header s2 it) = NULL_CHUNKPTR" "prev (header s2 it) = NULL_CHUNKPTR"
    using n1 p1 by (simp_all add: s2_def)
  have t2: "time (header s2 y) = (if y = it then current_time s else time (header s1 y))" for y
    using only_lru_fields_differ_fields(1) [OF o1] by (simp add: s2_def)
  from l have d: "it \<notin> set (as @ bs)" and nn: "it \<noteq> NULL_CHUNKPTR"
    using lru_is_split(1) [OF l] by (auto simp: lru_is_def)
  from item_link_q_lru [OF l2 d nn n2] obtain s3 where
    r: "item_link_q it s2 = Inr s3" and l3: "lru_is s3 (it # as @ bs)"
    and o3: "only_lru_fields_differ s2 s3" by blast
  have o: "only_lru_fields_differ s s3"
    using o1 o2 o3 by (blast intro: only_lru_fields_differ_trans)
  have r': "do_item_update c it s = Inr s3"
    using nn v k x u r by (simp add: do_item_update_def and_then_def s2_def)
  have t1: "time (header s1 y) = time (header s y)" for y
    using u nn lru_is_split(2,3,5) [OF l] lru_is_split(4) [OF l]
    by (auto simp: item_unlink_q_def Let_def upd_header_if_def upd_header_def split: if_splits)
  have t3: "time (header s3 y) = time (header s2 y)" for y
    using r by (auto simp: item_link_q_def upd_header_if_def upd_header_def split: if_splits)
  show ?thesis using r' l3 o t1 t2 t3 by simp
qed


lemma rel_time_no_wrap:
  fixes t now i :: rel_time_t
  assumes "i \<le> now" "t \<le> now"
  shows "(t < now - i) = (i < now - t)"
  using assms by (auto simp: word_less_nat_alt word_le_nat_alt unat_sub)

lemma do_item_update_not_linked:
  assumes "it \<noteq> NULL_CHUNKPTR" "ITEM_LINKED \<notin> it_flags (header s it)"
  shows "do_item_update c it s =
           (if time (header s it) < current_time s - ITEM_UPDATE_INTERVAL c
               \<and> ITEM_VALID \<notin> it_flags (header s it)
            then Inl AssertionFailure else Inr s)"
  using assms by (simp add: do_item_update_def)

lemma do_item_update_not_due:
  assumes "it \<noteq> NULL_CHUNKPTR" "\<not> time (header s it) < current_time s - ITEM_UPDATE_INTERVAL c"
  shows "do_item_update c it s = Inr s"
  using assms by (simp add: do_item_update_def)

lemma two_item_state_lru:
  "lru_is (two_item_state t now) [Chunk 0 0, Chunk 0 1]"
  by (simp add: lru_is_def two_item_state_def zero_state_def zero_header_def)

lemma two_item_state_update:
  "t < now - 60 \<Longrightarrow>
   do_item_update example_config (Chunk 0 1) (two_item_state t now)
     = Inr (two_item_state_moved t now)"
  by (simp add: do_item_update_def item_unlink_q_def item_link_q_def and_then_def
      upd_header_if_def upd_header_def two_item_state_def two_item_state_moved_def
      zero_state_def zero_header_def example_config_def fun_eq_iff Let_def)

text \<open>
  C7 (amended).  Let \<open>ITEM_UPDATE_INTERVAL \<le> current_time\<close> and
  \<open>it.time \<le> current_time\<close>.  For an item that is valid, linked and on a well-formed
  LRU, \<^verbatim>\<open>do_item_update\<close> moves the item to the head of the LRU and sets its time to
  \<^verbatim>\<open>current_time\<close> if and only if \<open>current_time - it.time > ITEM_UPDATE_INTERVAL\<close>;
  when the interval has not passed the state is unchanged.  When the item is moved, the
  order of the other items and their times stay as they were.  An item whose
  \<^verbatim>\<open>ITEM_LINKED\<close> is clear is never moved nor refreshed.
\<close>

theorem do_item_update_moves_linked_item:
  "(lru_is s xs \<and> it \<in> set xs \<and> ITEM_VALID \<in> it_flags (header s it)
      \<and> ITEM_LINKED \<in> it_flags (header s it)
      \<and> ITEM_UPDATE_INTERVAL c \<le> current_time s
      \<and> time (header s it) \<le> current_time s \<longrightarrow>
      (\<exists>s'. do_item_update c it s = Inr s' \<and>
         (if ITEM_UPDATE_INTERVAL c < current_time s - time (header s it)
          then lru_is s' (it # remove1 it xs) \<and> time (header s' it) = current_time s
               \<and> (\<forall>x. x \<noteq> it \<longrightarrow> time (header s' x) = time (header s x))
               \<and> only_lru_fields_differ s s'
          else s' = s)))
   \<and> (it \<noteq> NULL_CHUNKPTR \<and> ITEM_VALID \<in> it_flags (header s it)
      \<and> ITEM_LINKED \<notin> it_flags (header s it) \<longrightarrow> do_item_update c it s = Inr s)"
proof (intro conjI impI)
  assume a: "lru_is s xs \<and> it \<in> set xs \<and> ITEM_VALID \<in> it_flags (header s it)
      \<and> ITEM_LINKED \<in> it_flags (header s it)
      \<and> ITEM_UPDATE_INTERVAL c \<le> current_time s
      \<and> time (header s it) \<le> current_time s"
  then obtain as bs where xs: "xs = as @ it # bs" and ni: "it \<notin> set as"
    by (meson split_list_first)
  from ni have r: "remove1 it xs = as @ bs" by (simp add: xs remove1_append)
  from a xs have l: "lru_is s (as @ it # bs)" by simp
  note nn = lru_is_split(1) [OF l]
  from a have w: "(time (header s it) < current_time s - ITEM_UPDATE_INTERVAL c)
        = (ITEM_UPDATE_INTERVAL c < current_time s - time (header s it))"
    by (simp add: rel_time_no_wrap)
  show "\<exists>s'. do_item_update c it s = Inr s' \<and>
         (if ITEM_UPDATE_INTERVAL c < current_time s - time (header s it)
          then lru_is s' (it # remove1 it xs) \<and> time (header s' it) = current_time s
               \<and> (\<forall>x. x \<noteq> it \<longrightarrow> time (header s' x) = time (header s x))
               \<and> only_lru_fields_differ s s'
          else s' = s)"
  proof (cases "time (header s it) < current_time s - ITEM_UPDATE_INTERVAL c")
    case True
    from do_item_update_linked [OF l _ _ True] a True w show ?thesis
      by (simp add: r)
  next
    case False
    with do_item_update_not_due [OF nn False] w show ?thesis by simp
  qed
next
  assume "it \<noteq> NULL_CHUNKPTR \<and> ITEM_VALID \<in> it_flags (header s it)
      \<and> ITEM_LINKED \<notin> it_flags (header s it)"
  then show "do_item_update c it s = Inr s"
    by (simp add: do_item_update_not_linked)
qed

text \<open>
  Witness for C7: at second 100, the tail of a two-item LRU, last accessed at second
  0, moves to the head; an unlinked item stays as it is.
\<close>

theorem do_item_update_moves_linked_item_witness:
  "lru_is (two_item_state 0 100) [Chunk 0 0, Chunk 0 1]
   \<and> ITEM_VALID \<in> it_flags (header (two_item_state 0 100) (Chunk 0 1))
   \<and> ITEM_LINKED \<in> it_flags (header (two_item_state 0 100) (Chunk 0 1))
   \<and> ITEM_UPDATE_INTERVAL example_config \<le> current_time (two_item_state 0 100)
   \<and> time (header (two_item_state 0 100) (Chunk 0 1)) \<le> current_time (two_item_state 0 100)
   \<and> ITEM_UPDATE_INTERVAL example_config
       < current_time (two_item_state 0 100)
         - time (header (two_item_state 0 100) (Chunk 0 1))
   \<and> do_item_update example_config (Chunk 0 1) (two_item_state 0 100)
       = Inr (two_item_state_moved 0 100)
   \<and> lru_is (two_item_state_moved 0 100) [Chunk 0 1, Chunk 0 0]
   \<and> time (header (two_item_state_moved 0 100) (Chunk 0 1)) = 100
   \<and> do_item_update example_config (Chunk 0 0) unlinked_item_state = Inr unlinked_item_state"
proof -
  have h: "lru_is (two_item_state 0 100) [Chunk 0 0, Chunk 0 1]
      \<and> Chunk 0 1 \<in> set [Chunk 0 0, Chunk 0 1]
      \<and> ITEM_VALID \<in> it_flags (header (two_item_state 0 100) (Chunk 0 1))
      \<and> ITEM_LINKED \<in> it_flags (header (two_item_state 0 100) (Chunk 0 1))"
    by (intro conjI two_item_state_lru) (simp_all add: two_item_state_def)
  have d: "ITEM_UPDATE_INTERVAL example_config \<le> current_time (two_item_state 0 100)
      \<and> time (header (two_item_state 0 100) (Chunk 0 1)) \<le> current_time (two_item_state 0 100)
      \<and> ITEM_UPDATE_INTERVAL example_config
          < current_time (two_item_state 0 100)
            - time (header (two_item_state 0 100) (Chunk 0 1))"
    by (simp add: two_item_state_def zero_header_def example_config_def)
  have u: "do_item_update example_config (Chunk 0 1) (two_item_state 0 100)
       = Inr (two_item_state_moved 0 100)"
    by (rule two_item_state_update) simp
  have k: "Chunk 0 0 \<noteq> NULL_CHUNKPTR
      \<and> ITEM_VALID \<in> it_flags (header unlinked_item_state (Chunk 0 0))
      \<and> ITEM_LINKED \<notin> it_flags (header unlinked_item_state (Chunk 0 0))"
    by (simp add: unlinked_item_state_def)
  from do_item_update_moves_linked_item
         [of "two_item_state 0 100" "[Chunk 0 0, Chunk 0 1]" "Chunk 0 1" example_config]
       h d u
  have 1: "lru_is (two_item_state_moved 0 100) [Chunk 0 1, Chunk 0 0]
      \<and> time (header (two_item_state_moved 0 100) (Chunk 0 1)) = 100"
    by (simp add: two_item_state_def)
  from do_item_update_moves_linked_item
         [of unlinked_item_state "[]" "Chunk 0 0" example_config] k
  have 2: "do_item_update example_config (Chunk 0 0) unlinked_item_state = Inr unlinked_item_state"
    by blast
  from h d u 1 2 show ?thesis by simp
qed

text \<open>
  Counterexample to C7 as stated.  At second 100, an item that is valid but not linked
  and whose last access was at second 0, more than \<^verbatim>\<open>ITEM_UPDATE_INTERVAL\<close> ago, is
  not moved to the head of the LRU and keeps its time.
\<close>

theorem do_item_update_counterexample:
  "do_item_update example_config (Chunk 0 0) unlinked_item_state = Inr unlinked_item_state
   \<and> ITEM_UPDATE_INTERVAL example_config
       < current_time unlinked_item_state - time (header unlinked_item_state (Chunk 0 0))
   \<and> lru_head unlinked_item_state \<noteq> Chunk 0 0
   \<and> time (header unlinked_item_state (Chunk 0 0)) \<noteq> current_time unlinked_item_state"
  by (simp add: do_item_update_not_linked unlinked_item_state_def zero_state_def
      zero_header_def example_config_def)

text \<open>
  C10.  For an item whose \<^verbatim>\<open>ITEM_LINKED\<close> is clear, \<^verbatim>\<open>do_item_update\<close> changes
  nothing, also when the interval has passed (it stops on its assertion when the item
  is not valid either).  So \<^verbatim>\<open>do_item_update\<close> keeps the invariant that every item
  on the LRU has \<^verbatim>\<open>ITEM_LINKED\<close> set: it holds after the call when it held before,
  for a well-formed LRU that holds every linked item.
\<close>

theorem do_item_update_never_links_unlinked:
  "(it \<noteq> NULL_CHUNKPTR \<and> ITEM_LINKED \<notin> it_flags (header s it) \<longrightarrow>
      do_item_update c it s =
        (if time (header s it) < current_time s - ITEM_UPDATE_INTERVAL c
            \<and> ITEM_VALID \<notin> it_flags (header s it)
         then Inl AssertionFailure else Inr s))
   \<and> (lru_is s xs \<and> (\<forall>x\<in>set xs. ITEM_LINKED \<in> it_flags (header s x))
        \<and> (ITEM_LINKED \<in> it_flags (header s it) \<longrightarrow> it \<in> set xs)
        \<and> do_item_update c it s = Inr s' \<longrightarrow>
      (\<exists>ys. lru_is s' ys \<and> set ys = set xs
            \<and> (\<forall>x\<in>set ys. ITEM_LINKED \<in> it_flags (header s' x))))"
proof (intro conjI impI)
  assume "it \<noteq> NULL_CHUNKPTR \<and> ITEM_LINKED \<notin> it_flags (header s it)"
  then show "do_item_update c it s =
        (if time (header s it) < current_time s - ITEM_UPDATE_INTERVAL c
            \<and> ITEM_VALID \<notin> it_flags (header s it)
         then Inl AssertionFailure else Inr s)"
    by (simp add: do_item_update_not_linked)
next
  assume a: "lru_is s xs \<and> (\<forall>x\<in>set xs. ITEM_LINKED \<in> it_flags (header s x))
        \<and> (ITEM_LINKED \<in> it_flags (header s it) \<longrightarrow> it \<in> set xs)
        \<and> do_item_update c it s = Inr s'"
  then have l: "lru_is s xs" and k: "\<forall>x\<in>set xs. ITEM_LINKED \<in> it_flags (header s x)"
    and r: "do_item_update c it s = Inr s'" by simp_all
  from r have nn: "it \<noteq> NULL_CHUNKPTR" by (auto simp: do_item_update_def)
  let ?due = "time (header s it) < current_time s - ITEM_UPDATE_INTERVAL c"
  show "\<exists>ys. lru_is s' ys \<and> set ys = set xs
            \<and> (\<forall>x\<in>set ys. ITEM_LINKED \<in> it_flags (header s' x))"
  proof (cases "?due \<and> ITEM_LINKED \<in> it_flags (header s it)")
    case True
    with a obtain as bs where xs: "xs = as @ it # bs" by (meson split_list)
    from r True have v: "ITEM_VALID \<in> it_flags (header s it)"
      by (auto simp: do_item_update_def nn split: if_splits)
    from True have k': "ITEM_LINKED \<in> it_flags (header s it)" and due: ?due by simp_all
    from do_item_update_linked [OF l [unfolded xs] v k' due] r
    have l': "lru_is s' (it # as @ bs)" and o: "only_lru_fields_differ s s'" by auto
    have "\<forall>x\<in>set (it # as @ bs). ITEM_LINKED \<in> it_flags (header s' x)"
      using k xs by (auto simp: only_lru_fields_differ_fields(2) [OF o])
    with l' xs show ?thesis by (intro exI [of _ "it # as @ bs"]) auto
  next
    case False
    with r nn have "s' = s" by (auto simp: do_item_update_def split: if_splits)
    with l k show ?thesis by auto
  qed
qed

text \<open>Witness for C10: an unlinked item past the interval, and a linked one.\<close>

theorem do_item_update_never_links_unlinked_witness:
  "ITEM_LINKED \<notin> it_flags (header unlinked_item_state (Chunk 0 0))
   \<and> time (header unlinked_item_state (Chunk 0 0))
       < current_time unlinked_item_state - ITEM_UPDATE_INTERVAL example_config
   \<and> do_item_update example_config (Chunk 0 0) unlinked_item_state = Inr unlinked_item_state
   \<and> lru_is (two_item_state 0 100) [Chunk 0 0, Chunk 0 1]
   \<and> ITEM_LINKED \<in> it_flags (header (two_item_state 0 100) (Chunk 0 0))
   \<and> ITEM_LINKED \<in> it_flags (header (two_item_state 0 100) (Chunk 0 1))
   \<and> do_item_update example_config (Chunk 0 1) (two_item_state 0 100)
       = Inr (two_item_state_moved 0 100)
   \<and> (\<exists>ys. lru_is (two_item_state_moved 0 100) ys \<and> set ys = {Chunk 0 0, Chunk 0 1}
         \<and> ITEM_LINKED \<in> it_flags (header (two_item_state_moved 0 100) (Chunk 0 0))
         \<and> ITEM_LINKED \<in> it_flags (header (two_item_state_moved 0 100) (Chunk 0 1)))"
proof -
  have a: "ITEM_LINKED \<notin> it_flags (header unlinked_item_state (Chunk 0 0))"
    and v: "ITEM_VALID \<in> it_flags (header unlinked_item_state (Chunk 0 0))"
    and b: "time (header unlinked_item_state (Chunk 0 0))
       < current_time unlinked_item_state - ITEM_UPDATE_INTERVAL example_config"
    by (simp_all add: unlinked_item_state_def zero_state_def zero_header_def example_config_def)
  have k: "ITEM_LINKED \<in> it_flags (header (two_item_state 0 100) (Chunk 0 0))"
    "ITEM_LINKED \<in> it_flags (header (two_item_state 0 100) (Chunk 0 1))"
    by (simp_all add: two_item_state_def)
  have u: "do_item_update example_config (Chunk 0 1) (two_item_state 0 100)
       = Inr (two_item_state_moved 0 100)"
    by (rule two_item_state_update) simp
  note t = do_item_update_never_links_unlinked
  from t [of "Chunk 0 0" unlinked_item_state example_config "[]" undefined] a v
  have 1: "do_item_update example_config (Chunk 0 0) unlinked_item_state = Inr unlinked_item_state"
    by simp
  from t [of "Chunk 0 1" "two_item_state 0 100" example_config "[Chunk 0 0, Chunk 0 1]"
            "two_item_state_moved 0 100"] two_item_state_lru [of 0 100] k u
  have 2: "\<exists>ys. lru_is (two_item_state_moved 0 100) ys \<and> set ys = {Chunk 0 0, Chunk 0 1}
         \<and> (\<forall>x\<in>set ys. ITEM_LINKED \<in> it_flags (header (two_item_state_moved 0 100) x))"
    by simp
  from a b 1 two_item_state_lru [of 0 100] k u 2 show ?thesis by auto
qed

subsection \<open>Frames: what the free lists leave alone\<close>

lemma and_then_Inr:
  "and_then m f = Inr y \<Longrightarrow> \<exists>x. m = Inr x \<and> f x = Inr y"
  by (cases m) (auto simp: and_then_def)

lemma and_then_simps [simp]:
  "and_then (Inr x) f = f x" "and_then (Inl e) f = Inl e"
  by (simp_all add: and_then_def)

lemma for_each_keeps:
  assumes "\<And>x s s'. f x s = Inr s' \<Longrightarrow> P s' = P s"
    and "for_each f xs s = Inr s'"
  shows "P s' = P s"
  using assms(2)
proof (induction xs arbitrary: s)
  case Nil
  then show ?case by simp
next
  case (Cons x xs)
  from and_then_Inr [OF Cons.prems [simplified]] obtain s1 where
    1: "f x s = Inr s1" and 2: "for_each f xs s1 = Inr s'"
    by blast
  from Cons.IH [OF 2] assms(1) [OF 1] show ?case by simp
qed

lemma upd_small_header [simp]: "header (upd_small p f s) = header s"
  by (simp add: upd_small_def)

lemma upd_small_if_header [simp]: "header (upd_small_if b p f s) = header s"
  by (simp add: upd_small_if_def)

lemma upd_large_header [simp]: "header (upd_large p f s) = header s"
  by (simp add: upd_large_def)

lemma hist_add_header [simp]: "header (hist_add k d s) = header s"
  by (simp add: hist_add_def)

lemma write_slot_header: "write_slot sl v s = Inr s' \<Longrightarrow> header s' = header s"
  by (clarsimp simp: write_slot_def split: slot.splits if_splits)

lemma free_list_push_large_header:
  "free_list_push_large chunk s = Inr s' \<Longrightarrow> header s' = header s"
  by (clarsimp simp: free_list_push_large_def split: if_splits)

lemma and_then_InrE:
  assumes "and_then m f = Inr y"
  obtains x where "m = Inr x" "f x = Inr y"
  using assms by (cases m) (auto simp: and_then_def)

lemma splice_out_header:
  assumes "splice_out chunk s = Inr s'"
  shows "header s' = header s"
proof -
  from assms obtain s1 where "write_slot (sc_free_prev_next (small s chunk))
            (sc_free_next (small s chunk)) s = Inr s1"
    and "header s' = header s1"
    by (clarsimp simp: splice_out_def Let_def split: if_splits elim!: and_then_InrE)
  then show ?thesis by (simp add: write_slot_header)
qed

lemma unbreak_small_chunk_header:
  assumes "unbreak_small_chunk x s = Inr s'"
  shows "header s' = header s"
proof (cases "SMALL_CHUNK_FREE \<in> sc_flags (small s x)")
  case True
  with assms obtain s1 where "splice_out x s = Inr s1" and "header s' = header s1"
    by (clarsimp simp: unbreak_small_chunk_def split: if_splits elim!: and_then_InrE)
  then show ?thesis by (simp add: splice_out_header)
next
  case False
  with assms show ?thesis by (clarsimp simp: unbreak_small_chunk_def split: if_splits)
qed

lemma unbreak_check_small_chunk_same:
  "unbreak_check_small_chunk x s = Inr s' \<Longrightarrow> s' = s"
  by (clarsimp simp: unbreak_check_small_chunk_def split: if_splits)

lemma unbreak_large_chunk_cases:
  assumes "unbreak_large_chunk c lc m s = Inr s'"
  obtains (skip) "s' = s"
  | (merge) s0 s1 s2 where
      "m \<and> s0 = s \<or> \<not> m \<and> for_each unbreak_check_small_chunk (small_chunks_of c lc) s = Inr s0"
      "for_each unbreak_small_chunk (small_chunks_of c lc) s0 = Inr s1"
      "free_list_push_large lc
              (upd_large lc (\<lambda>l. l\<lparr>lc_flags := {LARGE_CHUNK_INITIALIZED}\<rparr>) s1) = Inr s2"
      "s' = (hist_add 0 (- 1) s2)
                 \<lparr>large_broken_chunks := large_broken_chunks s2 - 1,
                  unbreak_events := unbreak_events s2 + 1\<rparr>"
proof (cases "\<not> m \<and> small_chunks_allocated (large s lc) \<noteq> 0")
  case True
  with assms have "s' = s" by (clarsimp simp: unbreak_large_chunk_def split: if_splits)
  then show ?thesis by (rule skip)
next
  case False
  with assms have a: "and_then (if m then Inr s
                  else for_each unbreak_check_small_chunk (small_chunks_of c lc) s) (\<lambda>s0.
        and_then (for_each unbreak_small_chunk (small_chunks_of c lc) s0) (\<lambda>s1.
        and_then (free_list_push_large lc
                    (upd_large lc (\<lambda>l. l\<lparr>lc_flags := {LARGE_CHUNK_INITIALIZED}\<rparr>) s1)) (\<lambda>s2.
          Inr ((hist_add 0 (- 1) s2)
                 \<lparr>large_broken_chunks := large_broken_chunks s2 - 1,
                  unbreak_events := unbreak_events s2 + 1\<rparr>)))) = Inr s'"
    by (clarsimp simp: unbreak_large_chunk_def split: if_splits)
  from and_then_Inr [OF a] obtain s0 where 0: "(if m then Inr s
                  else for_each unbreak_check_small_chunk (small_chunks_of c lc) s) = Inr s0"
    and b: "and_then (for_each unbreak_small_chunk (small_chunks_of c lc) s0) (\<lambda>s1.
        and_then (free_list_push_large lc
                    (upd_large lc (\<lambda>l. l\<lparr>lc_flags := {LARGE_CHUNK_INITIALIZED}\<rparr>) s1)) (\<lambda>s2.
          Inr ((hist_add 0 (- 1) s2)
                 \<lparr>large_broken_chunks := large_broken_chunks s2 - 1,
                  unbreak_events := unbreak_events s2 + 1\<rparr>))) = Inr s'"
    by blast
  from and_then_Inr [OF b] obtain s1 where 1: "for_each unbreak_small_chunk (small_chunks_of c lc) s0 = Inr s1"
    and d: "and_then (free_list_push_large lc
                    (upd_large lc (\<lambda>l. l\<lparr>lc_flags := {LARGE_CHUNK_INITIALIZED}\<rparr>) s1)) (\<lambda>s2.
          Inr ((hist_add 0 (- 1) s2)
                 \<lparr>large_broken_chunks := large_broken_chunks s2 - 1,
                  unbreak_events := unbreak_events s2 + 1\<rparr>)) = Inr s'"
    by blast
  from and_then_Inr [OF d] obtain s2 where 2: "free_list_push_large lc
                    (upd_large lc (\<lambda>l. l\<lparr>lc_flags := {LARGE_CHUNK_INITIALIZED}\<rparr>) s1) = Inr s2"
    and 3: "Inr ((hist_add 0 (- 1) s2)
                 \<lparr>large_broken_chunks := large_broken_chunks s2 - 1,
                  unbreak_events := unbreak_events s2 + 1\<rparr>) = (Inr s' :: error + state)"
    by blast
  from 0 have z0: "m \<and> s0 = s \<or> \<not> m \<and> for_each unbreak_check_small_chunk (small_chunks_of c lc) s = Inr s0"
    by (cases m) auto
  from 3 have z3: "s' = (hist_add 0 (- 1) s2)
                 \<lparr>large_broken_chunks := large_broken_chunks s2 - 1,
                  unbreak_events := unbreak_events s2 + 1\<rparr>" by simp
  from z0 1 2 z3 show ?thesis by (rule merge)
qed

lemma for_each_check_same:
  "for_each unbreak_check_small_chunk xs s = Inr s' \<Longrightarrow> s' = s"
proof (induction xs arbitrary: s)
  case Nil
  then show ?case by simp
next
  case (Cons x xs)
  from and_then_Inr [OF Cons.prems [simplified]] obtain s1 where
    "unbreak_check_small_chunk x s = Inr s1" "for_each unbreak_check_small_chunk xs s1 = Inr s'"
    by blast
  with Cons.IH [of s1] unbreak_check_small_chunk_same [of x s s1] show ?case by simp
qed

lemma unbreak_large_chunk_header:
  assumes "unbreak_large_chunk c lc m s = Inr s'"
  shows "header s' = header s"
  using assms
proof (cases rule: unbreak_large_chunk_cases)
  case skip
  then show ?thesis by simp
next
  case (merge s0 s1 s2)
  from merge(1) have "s0 = s" using for_each_check_same by blast
  moreover have "header s1 = header s0"
    by (rule for_each_keeps [OF _ merge(2)]) (rule unbreak_small_chunk_header)
  moreover have "header s2 = header s1"
    using free_list_push_large_header [OF merge(3)] by simp
  ultimately show ?thesis using merge(4) by simp
qed

lemma free_list_push_small_header:
  "free_list_push_small chunk s = Inr s' \<Longrightarrow> header s' = header s"
  by (clarsimp simp: free_list_push_small_def Let_def split: if_splits)

lemma free_list_push_header:
  assumes "free_list_push c chunk ty tm s = Inr s'"
  shows "header s' = header s"
proof (cases ty)
  case LARGE_CHUNK
  with assms show ?thesis
    by (clarsimp simp: free_list_push_def free_list_push_large_header split: if_splits)
next
  case SMALL_CHUNK
  with assms obtain s1 where 1: "free_list_push_small chunk s = Inr s1"
    and 2: "(if tm then unbreak_large_chunk c (get_parent_chunk chunk) False s1 else Inr s1) = Inr s'"
    by (clarsimp simp: free_list_push_def split: if_splits elim!: and_then_InrE)
  from 2 have "header s' = header s1"
    by (cases tm) (simp_all add: unbreak_large_chunk_header)
  with free_list_push_small_header [OF 1] show ?thesis by simp
qed

lemma item_unlink_q_fields:
  assumes "item_unlink_q it s = Inr s'"
  shows "it_flags (header s' x) = it_flags (header s x)"
    and "refcount (header s' x) = refcount (header s x)"
  using assms
  by (clarsimp simp: item_unlink_q_def Let_def upd_header_if_def upd_header_def
      split: if_splits)+

lemma unlink_account_fields:
  "it_flags (header (unlink_account it fl k s) x)
     = (if x = it then it_flags (header s it) - {ITEM_LINKED} else it_flags (header s x))"
  "refcount (header (unlink_account it fl k s) x) = refcount (header s x)"
  by (simp_all add: unlink_account_def Let_def assoc_delete_def upd_header_def)

lemma item_free_large_bodies_header:
  "item_free_large_bodies c n p k s = Inr (k', s') \<Longrightarrow> header s' = header s"
proof (induction n arbitrary: p k s)
  case 0
  then show ?case by simp
next
  case (Suc n)
  show ?case
  proof (cases "p = NULL_CHUNKPTR")
    case True
    with Suc.prems show ?thesis by simp
  next
    case False
    with Suc.prems have a: "and_then
          (free_list_push c p LARGE_CHUNK False
             (upd_large p (\<lambda>l. l\<lparr>lc_flags := lc_flags l - {LARGE_CHUNK_USED}\<rparr>) s))
          (item_free_large_bodies c n (lc_body_next_chunk (large s p)) (k + 1)) = Inr (k', s')"
      by (simp split: if_splits)
    from and_then_Inr [OF a] obtain s1 where
      1: "free_list_push c p LARGE_CHUNK False
             (upd_large p (\<lambda>l. l\<lparr>lc_flags := lc_flags l - {LARGE_CHUNK_USED}\<rparr>) s) = Inr s1"
      and 2: "item_free_large_bodies c n (lc_body_next_chunk (large s p)) (k + 1) s1 = Inr (k', s')"
      by blast
    from Suc.IH [OF 2] free_list_push_header [OF 1] show ?thesis by simp
  qed
qed

lemma item_free_small_bodies_header:
  "item_free_small_bodies c n p k s = Inr (k', s') \<Longrightarrow> header s' = header s"
proof (induction n arbitrary: p k s)
  case 0
  then show ?case by simp
next
  case (Suc n)
  show ?case
  proof (cases "p = NULL_CHUNKPTR")
    case True
    with Suc.prems show ?thesis by simp
  next
    case False
    with Suc.prems have a: "and_then
          (free_list_push c p SMALL_CHUNK True
             (upd_small p (\<lambda>k. k\<lparr>sc_flags := sc_flags k - {SMALL_CHUNK_USED}\<rparr>) s))
          (item_free_small_bodies c n (sc_body_next_chunk (small s p)) (k + 1)) = Inr (k', s')"
      by (simp split: if_splits)
    from and_then_Inr [OF a] obtain s1 where
      1: "free_list_push c p SMALL_CHUNK True
             (upd_small p (\<lambda>k. k\<lparr>sc_flags := sc_flags k - {SMALL_CHUNK_USED}\<rparr>) s) = Inr s1"
      and 2: "item_free_small_bodies c n (sc_body_next_chunk (small s p)) (k + 1) s1 = Inr (k', s')"
      by blast
    from Suc.IH [OF 2] free_list_push_header [OF 1] show ?thesis by simp
  qed
qed

lemma item_free_large_title_flags:
  assumes "item_free_large_title c it s = Inr s'"
  shows "header s' = (header s)(it := (header s it)\<lparr>it_flags := {}\<rparr>)"
proof -
  from assms have a: "and_then
          (free_list_push c it LARGE_CHUNK False
             (upd_header it (\<lambda>h. h\<lparr>it_flags := {}\<rparr>)
             (upd_large it
                (\<lambda>l. l\<lparr>lc_flags := lc_flags l - {LARGE_CHUNK_USED, LARGE_CHUNK_TITLE}\<rparr>) s)))
          (\<lambda>s1. Inr (s1\<lparr>large_title_chunks := large_title_chunks s1 - 1\<rparr>)) = Inr s'"
    by (simp add: item_free_large_title_def split: if_splits)
  from and_then_Inr [OF a] obtain s1 where
    1: "free_list_push c it LARGE_CHUNK False
             (upd_header it (\<lambda>h. h\<lparr>it_flags := {}\<rparr>)
             (upd_large it
                (\<lambda>l. l\<lparr>lc_flags := lc_flags l - {LARGE_CHUNK_USED, LARGE_CHUNK_TITLE}\<rparr>) s)) = Inr s1"
    and 2: "s' = s1\<lparr>large_title_chunks := large_title_chunks s1 - 1\<rparr>"
    by auto
  from free_list_push_header [OF 1] 2 show ?thesis by simp
qed

lemma item_free_small_title_flags:
  assumes "item_free_small_title c it s = Inr s'"
  shows "header s' = (header s)(it := (header s it)\<lparr>it_flags := {}\<rparr>)"
proof -
  from assms have a: "and_then
          (free_list_push c it SMALL_CHUNK True
             (upd_header it (\<lambda>h. h\<lparr>it_flags := {}\<rparr>)
             (upd_small it
                (\<lambda>k. k\<lparr>sc_flags := sc_flags k - {SMALL_CHUNK_USED, SMALL_CHUNK_TITLE}\<rparr>) s)))
          (\<lambda>s1. Inr (s1\<lparr>small_title_chunks := small_title_chunks s1 - 1\<rparr>)) = Inr s'"
    by (simp add: item_free_small_title_def split: if_splits)
  from and_then_Inr [OF a] obtain s1 where
    1: "free_list_push c it SMALL_CHUNK True
             (upd_header it (\<lambda>h. h\<lparr>it_flags := {}\<rparr>)
             (upd_small it
                (\<lambda>k. k\<lparr>sc_flags := sc_flags k - {SMALL_CHUNK_USED, SMALL_CHUNK_TITLE}\<rparr>) s)) = Inr s1"
    and 2: "s' = s1\<lparr>small_title_chunks := small_title_chunks s1 - 1\<rparr>"
    by auto
  from free_list_push_header [OF 1] 2 show ?thesis by simp
qed

text \<open>A freed item: its header is the old one with \<open>it_flags\<close> cleared.\<close>

lemma item_free_header:
  assumes "item_free c n it s = Inr s'"
  shows "header s' = (header s)(it := (header s it)\<lparr>it_flags := {}\<rparr>)"
proof (cases "is_item_large_chunk c it s")
  case True
  with assms have a: "and_then (item_free_large_bodies c n (next_chunk (header s it)) 0 s)
            (\<lambda>(chunks_freed, s1).
               and_then
                 (item_free_large_title c it
                    (s1\<lparr>large_body_chunks := large_body_chunks s1 - chunks_freed\<rparr>))
                 (\<lambda>s2. if chunks_freed + 1 \<noteq> chunks_in_item c it s
                        then Inl AssertionFailure else Inr s2)) = Inr s'"
    by (simp add: item_free_def Let_def split: if_splits)
  from and_then_Inr [OF a] obtain k s1 where
    1: "item_free_large_bodies c n (next_chunk (header s it)) 0 s = Inr (k, s1)"
    and b: "and_then
                 (item_free_large_title c it
                    (s1\<lparr>large_body_chunks := large_body_chunks s1 - k\<rparr>))
                 (\<lambda>s2. if k + 1 \<noteq> chunks_in_item c it s
                        then Inl AssertionFailure else Inr s2) = Inr s'"
    by auto
  from and_then_Inr [OF b] have
    2: "item_free_large_title c it
                    (s1\<lparr>large_body_chunks := large_body_chunks s1 - k\<rparr>) = Inr s'"
    by (auto split: if_splits)
  from item_free_large_title_flags [OF 2] item_free_large_bodies_header [OF 1]
  show ?thesis by simp
next
  case False
  with assms have a: "and_then (item_free_small_bodies c n (next_chunk (header s it)) 0 s)
            (\<lambda>(chunks_freed, s1).
               and_then
                 (item_free_small_title c it
                    (s1\<lparr>small_body_chunks := small_body_chunks s1 - chunks_freed\<rparr>))
                 (\<lambda>s2. if chunks_freed + 1 \<noteq> chunks_in_item c it s
                        then Inl AssertionFailure else Inr s2)) = Inr s'"
    by (simp add: item_free_def Let_def split: if_splits)
  from and_then_Inr [OF a] obtain k s1 where
    1: "item_free_small_bodies c n (next_chunk (header s it)) 0 s = Inr (k, s1)"
    and b: "and_then
                 (item_free_small_title c it
                    (s1\<lparr>small_body_chunks := small_body_chunks s1 - k\<rparr>))
                 (\<lambda>s2. if k + 1 \<noteq> chunks_in_item c it s
                        then Inl AssertionFailure else Inr s2) = Inr s'"
    by auto
  from and_then_Inr [OF b] have
    2: "item_free_small_title c it
                    (s1\<lparr>small_body_chunks := small_body_chunks s1 - k\<rparr>) = Inr s'"
    by (auto split: if_splits)
  from item_free_small_title_flags [OF 2] item_free_small_bodies_header [OF 1]
  show ?thesis by simp
qed

subsection \<open>\<^verbatim>\<open>do_item_unlink\<close> and \<^verbatim>\<open>do_item_deref\<close>\<close>

lemma do_item_unlink_not_linked:
  assumes "it \<noteq> NULL_CHUNKPTR" "ITEM_VALID \<in> it_flags (header s it)"
    "ITEM_LINKED \<notin> it_flags (header s it)"
  shows "do_item_unlink c n it fl k s = Inr s"
  using assms by (simp add: do_item_unlink_def)

lemma do_item_unlink_result_flags:
  assumes r: "do_item_unlink c n it fl k s = Inr s1" and rc: "refcount (header s it) \<noteq> 0"
  shows "it \<noteq> NULL_CHUNKPTR \<and> ITEM_VALID \<in> it_flags (header s1 it)
    \<and> ITEM_LINKED \<notin> it_flags (header s1 it)"
proof -
  from r have nn: "it \<noteq> NULL_CHUNKPTR"
    by (cases "it = NULL_CHUNKPTR") (simp_all add: do_item_unlink_def)
  from r nn have v: "ITEM_VALID \<in> it_flags (header s it)"
    by (cases "ITEM_VALID \<in> it_flags (header s it)") (simp_all add: do_item_unlink_def)
  show ?thesis
  proof (cases "ITEM_LINKED \<in> it_flags (header s it)")
    case False
    with r nn v have "s1 = s" by (simp add: do_item_unlink_def)
    with v False nn show ?thesis by simp
  next
    case True
    let ?a = "unlink_account it fl (case k of None \<Rightarrow> item_key_copy it s | Some k' \<Rightarrow> k') s"
    from r nn v True have a: "and_then (item_unlink_q it ?a)
          (\<lambda>s1. if refcount (header s1 it) = 0 then item_free c n it s1 else Inr s1) = Inr s1"
      by (simp add: do_item_unlink_def)
    from and_then_Inr [OF a] obtain s2 where
      1: "item_unlink_q it ?a = Inr s2"
      and 2: "(if refcount (header s2 it) = 0 then item_free c n it s2 else Inr s2) = Inr s1"
      by blast
    from item_unlink_q_fields [OF 1] rc
    have f: "it_flags (header s2 it) = it_flags (header s it) - {ITEM_LINKED}"
      and "refcount (header s2 it) \<noteq> 0"
      by (simp_all add: unlink_account_fields)
    with 2 have "s1 = s2" by simp
    with f v nn show ?thesis by simp
  qed
qed

text \<open>
  C5.  \<^verbatim>\<open>do_item_unlink\<close> is idempotent.  Called on a valid item whose
  \<^verbatim>\<open>ITEM_LINKED\<close> is clear, it returns the state as it is: the item, the LRU, the
  assoc table and every counter are unchanged.  And after a call that returned, on an
  item that is still referenced (so that the call did not free it), \<^verbatim>\<open>ITEM_LINKED\<close>
  is clear and a second call, with any flags and key, changes nothing.
\<close>

theorem do_item_unlink_idempotent:
  "(it \<noteq> NULL_CHUNKPTR \<and> ITEM_VALID \<in> it_flags (header s it)
      \<and> ITEM_LINKED \<notin> it_flags (header s it) \<longrightarrow>
      do_item_unlink c n it fl k s = Inr s)
   \<and> (do_item_unlink c n it fl k s = Inr s1 \<and> refcount (header s it) \<noteq> 0 \<longrightarrow>
        ITEM_LINKED \<notin> it_flags (header s1 it)
        \<and> do_item_unlink c m it fl' k' s1 = Inr s1)"
  using do_item_unlink_not_linked [of it s c n fl k]
    do_item_unlink_result_flags [of c n it fl k s s1]
    do_item_unlink_not_linked [of it s1 c m fl' k']
  by blast

lemma linked_item_state_unlink:
  "do_item_unlink example_config n (Chunk 0 0) {} None linked_item_state
     = Inr linked_item_unlinked_state"
  by (simp add: do_item_unlink_def unlink_account_def unlink_kind_def item_key_copy_def
      assoc_delete_def item_unlink_q_def upd_header_if_def upd_header_def Let_def
      linked_item_state_def linked_item_unlinked_state_def zero_state_def zero_header_def
      fun_eq_iff insert_Diff_if)

text \<open>Witness for C5: a linked item held by one reader is unlinked twice.\<close>

theorem do_item_unlink_idempotent_witness:
  "do_item_unlink example_config 0 (Chunk 0 0) {} None linked_item_state
     = Inr linked_item_unlinked_state
   \<and> refcount (header linked_item_state (Chunk 0 0)) \<noteq> 0
   \<and> ITEM_LINKED \<in> it_flags (header linked_item_state (Chunk 0 0))
   \<and> ITEM_VALID \<in> it_flags (header linked_item_unlinked_state (Chunk 0 0))
   \<and> ITEM_LINKED \<notin> it_flags (header linked_item_unlinked_state (Chunk 0 0))
   \<and> do_item_unlink example_config 0 (Chunk 0 0) {UNLINK_MAYBE_EVICT} (Some ''k'')
         linked_item_unlinked_state
       = Inr linked_item_unlinked_state"
proof -
  have a: "do_item_unlink example_config 0 (Chunk 0 0) {} None linked_item_state
     = Inr linked_item_unlinked_state"
    by (rule linked_item_state_unlink)
  have b: "refcount (header linked_item_state (Chunk 0 0)) \<noteq> 0"
    "ITEM_LINKED \<in> it_flags (header linked_item_state (Chunk 0 0))"
    by (simp_all add: linked_item_state_def)
  have v: "ITEM_VALID \<in> it_flags (header linked_item_unlinked_state (Chunk 0 0))"
    by (simp add: linked_item_unlinked_state_def)
  from do_item_unlink_idempotent
         [of "Chunk 0 0" linked_item_state example_config 0 "{}" None
             linked_item_unlinked_state 0 "{UNLINK_MAYBE_EVICT}" "Some ''k''"] a b
  have "ITEM_LINKED \<notin> it_flags (header linked_item_unlinked_state (Chunk 0 0))
      \<and> do_item_unlink example_config 0 (Chunk 0 0) {UNLINK_MAYBE_EVICT} (Some ''k'')
         linked_item_unlinked_state = Inr linked_item_unlinked_state"
    by blast
  with a b v show ?thesis by simp
qed

lemma unat_pred: "(w :: 'a::len word) \<noteq> 0 \<Longrightarrow> unat (w - 1) = unat w - 1"
  by (simp add: unat_minus_one)

text \<open>
  C9.  \<^verbatim>\<open>do_item_deref\<close> on a valid item never wraps the refcount: the new count
  is the old one less one, and 0 stays 0.  It stops on its assertion when the item is
  delete-locked and the count reaches 0; otherwise it frees the item (calls
  \<^verbatim>\<open>item_free\<close>, after which the item's flags are cleared) exactly when the new
  count is 0 and \<^verbatim>\<open>ITEM_LINKED\<close> is clear, and else returns the state with only
  the refcount changed.
\<close>

theorem do_item_deref_no_underflow:
  "it \<noteq> NULL_CHUNKPTR \<and> ITEM_VALID \<in> it_flags (header s it) \<longrightarrow>
     unat (if refcount (header s it) = 0 then 0 else refcount (header s it) - 1)
       = unat (refcount (header s it)) - 1
     \<and> do_item_deref c n it s =
         (if ITEM_DELETED \<in> it_flags (header s it) \<and> refcount (header s it) \<le> 1
            then Inl AssertionFailure
          else if refcount (header s it) \<le> 1 \<and> ITEM_LINKED \<notin> it_flags (header s it)
            then item_free c n it (upd_header it (\<lambda>h. h\<lparr>refcount := 0\<rparr>) s)
          else Inr (upd_header it
                      (\<lambda>h. h\<lparr>refcount := (if refcount h = 0 then 0 else refcount h - 1)\<rparr>) s))
     \<and> (\<forall>s0 s'. item_free c n it s0 = Inr s' \<longrightarrow> it_flags (header s' it) = {})"
proof (intro impI conjI allI)
  show "unat (if refcount (header s it) = 0 then 0 else refcount (header s it) - 1)
       = unat (refcount (header s it)) - 1"
    by (simp add: unat_pred)
next
  assume a: "it \<noteq> NULL_CHUNKPTR \<and> ITEM_VALID \<in> it_flags (header s it)"
  have le1: "(refcount (header s it) \<le> 1)
             = (refcount (header s it) = 0 \<or> refcount (header s it) = 1)"
    by (simp add: word_le_nat_alt word_unat_eq_iff) arith
  have z: "(refcount (header s it) - 1 = 0) = (refcount (header s it) = 1)"
    by auto
  show "do_item_deref c n it s =
         (if ITEM_DELETED \<in> it_flags (header s it) \<and> refcount (header s it) \<le> 1
            then Inl AssertionFailure
          else if refcount (header s it) \<le> 1 \<and> ITEM_LINKED \<notin> it_flags (header s it)
            then item_free c n it (upd_header it (\<lambda>h. h\<lparr>refcount := 0\<rparr>) s)
          else Inr (upd_header it
                      (\<lambda>h. h\<lparr>refcount := (if refcount h = 0 then 0 else refcount h - 1)\<rparr>) s))"
    using a by (cases "refcount (header s it) = 0"; cases "refcount (header s it) = 1")
       (simp_all add: do_item_deref_def Let_def le1 z upd_header_def)
next
  fix s0 s'
  assume "item_free c n it s0 = Inr s'"
  from item_free_header [OF this] show "it_flags (header s' it) = {}" by simp
qed

lemma large_item_free:
  "item_free example_config (Suc 0) (Chunk 0 0)
     (upd_header (Chunk 0 0) (\<lambda>h. h\<lparr>refcount := 0\<rparr>) (large_item_state 1 {ITEM_VALID}))
   = Inr large_item_freed_state"
  by (simp add: item_free_def item_free_large_title_def is_item_large_chunk_def
      chunks_in_item_def free_list_push_def free_list_push_large_def upd_large_def
      upd_header_def Let_def large_item_state_def large_item_freed_state_def
      zero_state_def zero_header_def zero_large_def example_config_def
      example_is_large_chunk_def example_chunks_needed_def fun_eq_iff insert_Diff_if)

lemma large_item_state_fields:
  "refcount (header (large_item_state rc fl) (Chunk 0 0)) = rc"
  "it_flags (header (large_item_state rc fl) (Chunk 0 0)) = fl"
  by (simp_all add: large_item_state_def)

lemma large_item_state_deref:
  "do_item_deref example_config 0 (Chunk 0 0) (large_item_state 0 {ITEM_VALID, ITEM_LINKED})
       = Inr (large_item_state 0 {ITEM_VALID, ITEM_LINKED})"
  "do_item_deref example_config 0 (Chunk 0 0) (large_item_state 2 {ITEM_VALID})
       = Inr (large_item_state 1 {ITEM_VALID})"
  by (simp_all add: do_item_deref_def Let_def large_item_state_def upd_header_def
      zero_state_def fun_eq_iff)

text \<open>
  Witness for C9: the last reference to an unlinked item frees it; a linked item with
  count 0 keeps count 0; a count of 2 becomes 1.
\<close>

theorem do_item_deref_no_underflow_witness:
  "ITEM_VALID \<in> it_flags (header (large_item_state 1 {ITEM_VALID}) (Chunk 0 0))
   \<and> do_item_deref example_config (Suc 0) (Chunk 0 0) (large_item_state 1 {ITEM_VALID})
       = Inr large_item_freed_state
   \<and> it_flags (header large_item_freed_state (Chunk 0 0)) = {}
   \<and> do_item_deref example_config 0 (Chunk 0 0) (large_item_state 0 {ITEM_VALID, ITEM_LINKED})
       = Inr (large_item_state 0 {ITEM_VALID, ITEM_LINKED})
   \<and> do_item_deref example_config 0 (Chunk 0 0) (large_item_state 2 {ITEM_VALID})
       = Inr (large_item_state 1 {ITEM_VALID})"
proof -
  have v: "Chunk 0 0 \<noteq> NULL_CHUNKPTR
      \<and> ITEM_VALID \<in> it_flags (header (large_item_state 1 {ITEM_VALID}) (Chunk 0 0))"
    by (simp add: large_item_state_fields)
  from do_item_deref_no_underflow
         [of "Chunk 0 0" "large_item_state 1 {ITEM_VALID}" example_config "Suc 0"] v
  have 1: "do_item_deref example_config (Suc 0) (Chunk 0 0) (large_item_state 1 {ITEM_VALID})
       = item_free example_config (Suc 0) (Chunk 0 0)
           (upd_header (Chunk 0 0) (\<lambda>h. h\<lparr>refcount := 0\<rparr>) (large_item_state 1 {ITEM_VALID}))"
    and f: "\<forall>s0 s'. item_free example_config (Suc 0) (Chunk 0 0) s0 = Inr s' \<longrightarrow>
              it_flags (header s' (Chunk 0 0)) = {}"
    by (simp_all add: large_item_state_fields)
  from f large_item_free
  have 2: "it_flags (header large_item_freed_state (Chunk 0 0)) = {}" by blast
  from v 1 2 large_item_free large_item_state_deref show ?thesis by simp
qed

subsection \<open>\<^verbatim>\<open>do_item_stats_sizes\<close>\<close>

lemma stats_sizes_loop_counts:
  "seg (\<lambda>x. next (header s x)) p xs NULL_CHUNKPTR \<Longrightarrow> length xs < n \<Longrightarrow>
   stats_sizes_loop c n p h s
     = Inr (\<lambda>i. if i < num_buckets c then h i + of_nat (items_in_bucket c s xs i) else h i)"
proof (induction xs arbitrary: p n h)
  case Nil
  then obtain m where "n = Suc m" by (cases n) auto
  with Nil show ?case by (simp add: items_in_bucket_def fun_eq_iff)
next
  case (Cons x xs)
  then obtain m where n: "n = Suc m" by (cases n) auto
  from Cons.prems have p: "p = x" "x \<noteq> NULL_CHUNKPTR"
    and sg: "seg (\<lambda>x. next (header s x)) (next (header s x)) xs NULL_CHUNKPTR"
    by simp_all
  from Cons.prems n have len: "length xs < m" by simp
  show ?case
    unfolding n p
    by (simp add: p Cons.IH [OF sg len] items_in_bucket_def fun_eq_iff)
qed

lemma histogram_lines_cong:
  assumes "\<And>i. i < n \<Longrightarrow> f i = g i"
  shows "map (\<lambda>i. (i * 32, f i)) (filter (\<lambda>i. f i \<noteq> (0 :: 32 word)) [0 ..< n])
       = map (\<lambda>i. (i * (32 :: nat), g i)) (filter (\<lambda>i. g i \<noteq> 0) [0 ..< n])"
proof -
  have 1: "filter (\<lambda>i. f i \<noteq> 0) [0 ..< n] = filter (\<lambda>i. g i \<noteq> 0) [0 ..< n]"
    by (rule filter_cong) (auto simp: assms)
  show ?thesis unfolding 1 by (rule map_cong) (auto simp: assms)
qed

lemma filter_upt_eq:
  "filter (\<lambda>i. i = k) [0 ..< n] = (if k < n then [k] else [])"
  by (induction n) auto

lemma double_no_wrap:
  "k < 2 ^ 31 \<Longrightarrow> unat (2 * of_nat k :: 32 word) = 2 * k"
  by (simp add: unat_word_ariths unat_of_nat)

lemma items_in_bucket_le: "items_in_bucket c s xs i \<le> length xs"
  by (simp add: items_in_bucket_def)

text \<open>
  Claim C6.  On a well-formed LRU holding the items \<open>xs\<close> (and with fuel for the
  walk), \<^verbatim>\<open>do_item_stats_sizes\<close> reports, for each of its buckets that is not zero,
  twice the number of the items of the LRU whose total size falls in the bucket: the
  two loops walk the same list.  The counters are of type \<^verbatim>\<open>unsigned int\<close>; below
  \<open>2 ^ 31\<close> items the double does not wrap.
\<close>

theorem do_item_stats_sizes_doubles:
  "lru_is s xs \<and> length xs < n \<longrightarrow>
     do_item_stats_sizes c n True True s
       = Inr (Some (map (\<lambda>i. (i * 32, 2 * of_nat (items_in_bucket c s xs i)))
                     (filter (\<lambda>i. 2 * of_nat (items_in_bucket c s xs i) \<noteq> (0 :: 32 word))
                        [0 ..< num_buckets c])))
     \<and> (length xs < 2 ^ 31 \<longrightarrow>
          (\<forall>i. unat (2 * of_nat (items_in_bucket c s xs i) :: 32 word)
                 = 2 * items_in_bucket c s xs i))"
proof (intro impI conjI allI)
  assume a: "lru_is s xs \<and> length xs < n"
  then have sg: "seg (\<lambda>x. next (header s x)) (lru_head s) xs NULL_CHUNKPTR"
    and len: "length xs < n"
    by (simp_all add: lru_is_def)
  have "do_item_stats_sizes c n True True s
       = Inr (Some (map (\<lambda>i. (i * 32, if i < num_buckets c then 2 * of_nat (items_in_bucket c s xs i) else 0))
                     (filter (\<lambda>i. (if i < num_buckets c then 2 * of_nat (items_in_bucket c s xs i) else 0) \<noteq> (0 :: 32 word))
                        [0 ..< num_buckets c])))"
    by (simp add: do_item_stats_sizes_def stats_sizes_loop_counts [OF sg len] cong: if_cong)
  also have "\<dots> = Inr (Some (map (\<lambda>i. (i * 32, 2 * of_nat (items_in_bucket c s xs i)))
                     (filter (\<lambda>i. 2 * of_nat (items_in_bucket c s xs i) \<noteq> (0 :: 32 word))
                        [0 ..< num_buckets c])))"
    by (simp only: sum.inject option.inject) (rule histogram_lines_cong, simp)
  finally show "do_item_stats_sizes c n True True s
       = Inr (Some (map (\<lambda>i. (i * 32, 2 * of_nat (items_in_bucket c s xs i)))
                     (filter (\<lambda>i. 2 * of_nat (items_in_bucket c s xs i) \<noteq> (0 :: 32 word))
                        [0 ..< num_buckets c])))" .
next
  fix i
  assume "lru_is s xs \<and> length xs < n" "length xs < 2 ^ 31"
  with items_in_bucket_le [of c s xs i] have "items_in_bucket c s xs i < 2 ^ 31" by simp
  then show "unat (2 * of_nat (items_in_bucket c s xs i) :: 32 word)
                 = 2 * items_in_bucket c s xs i"
    by (rule double_no_wrap)
qed

lemma two_item_state_buckets:
  "items_in_bucket example_config (two_item_state t now) [Chunk 0 0, Chunk 0 1] i
     = (if i = 32 then 2 else 0)"
  by (simp add: items_in_bucket_def example_config_def two_item_state_def zero_state_def
      zero_header_def size_bucket_def)

lemma example_num_buckets: "num_buckets example_config = 32808"
  by (simp add: num_buckets_def example_config_def)

theorem do_item_stats_sizes_doubles_witness:
  "lru_is (two_item_state 5 100) [Chunk 0 0, Chunk 0 1]
   \<and> length [Chunk 0 0, Chunk 0 1] < (3 :: nat)
   \<and> do_item_stats_sizes example_config 3 True True (two_item_state 5 100)
       = Inr (Some [(1024, 4)])"
proof -
  have f: "filter (\<lambda>i. i = 32) [0 ..< num_buckets example_config] = [32 :: nat]"
    by (simp only: filter_upt_eq example_num_buckets) simp
  have l: "lru_is (two_item_state 5 100) [Chunk 0 0, Chunk 0 1]"
    by (rule two_item_state_lru)
  have "do_item_stats_sizes example_config 3 True True (two_item_state 5 100)
       = Inr (Some (map (\<lambda>i. (i * 32, 2 * of_nat (if i = 32 then 2 else 0)))
                     (filter (\<lambda>i. 2 * of_nat (if i = 32 then 2 else 0) \<noteq> (0 :: 32 word))
                        [0 ..< num_buckets example_config])))"
    using do_item_stats_sizes_doubles [of "two_item_state 5 100" "[Chunk 0 0, Chunk 0 1]" 3
      example_config] l
    by (simp only: two_item_state_buckets) simp
  also have "(\<lambda>i. 2 * of_nat (if i = 32 then 2 else 0) \<noteq> (0 :: 32 word)) = (\<lambda>i :: nat. i = 32)"
    by (simp add: fun_eq_iff)
  finally show ?thesis using l by (simp add: f)
qed

subsection \<open>Runs of the public operations\<close>

subsection \<open>Break/unbreak parity\<close>

lemma returns_simps [simp]:
  "returns P (Inr x) = P x" "returns P (Inl e)"
  by (simp_all add: returns_def)

lemma returnsD: "returns P m \<Longrightarrow> m = Inr x \<Longrightarrow> P x"
  by (simp add: returns_def)

lemma returns_bind:
  "returns Q m \<Longrightarrow> (\<And>x. Q x \<Longrightarrow> returns P (f x)) \<Longrightarrow> returns P (and_then m f)"
  by (cases m) (simp_all add: returns_def)

lemma returns_any: "(\<And>x. returns P (f x)) \<Longrightarrow> returns P (and_then m f)"
  by (cases m) (simp_all add: returns_def)

lemma returns_if:
  "(b \<Longrightarrow> returns P x) \<Longrightarrow> (\<not> b \<Longrightarrow> returns P y) \<Longrightarrow> returns P (if b then x else y)"
  by simp

lemma returns_any_bool:
  "(\<And>x. returns P (f x)) \<Longrightarrow> returns P (and_then (m :: error + bool) f)"
  by (rule returns_any)

lemma returns_any_chunkptr:
  "(\<And>x. returns P (f x)) \<Longrightarrow> returns P (and_then (m :: error + chunkptr) f)"
  by (rule returns_any)

lemma returns_any_flags:
  "(\<And>x. returns P (f x)) \<Longrightarrow> returns P (and_then (m :: error + item_flag set) f)"
  by (rule returns_any)

lemma parity_bind:
  "returns broken_parity m \<Longrightarrow> (\<And>s1. broken_parity s1 \<Longrightarrow> returns P (f s1))
   \<Longrightarrow> returns P (and_then m f)"
  by (rule returns_bind)

lemma parity_bind_pair:
  "returns (\<lambda>r. broken_parity (snd r)) m
   \<Longrightarrow> (\<And>r s1. broken_parity s1 \<Longrightarrow> returns P (f (r, s1)))
   \<Longrightarrow> returns P (and_then m f)"
  by (rule returns_bind [where Q = "\<lambda>r. broken_parity (snd r)"]) auto

lemma parity_bind_case_prod:
  "returns (\<lambda>r. broken_parity (snd r)) m
   \<Longrightarrow> (\<And>r s1. broken_parity s1 \<Longrightarrow> returns P (g r s1))
   \<Longrightarrow> returns P (and_then m (case_prod g))"
  by (rule parity_bind_pair) simp_all

lemmas parity_intros =
  returns_if returns_any_bool returns_any_chunkptr returns_any_flags parity_bind
  parity_bind_case_prod parity_bind_pair

lemma broken_parity_fields [simp]:
  "broken_parity (unused_memory_update f1 s) = broken_parity s"
  "broken_parity (uninitialized_start_update f2 s) = broken_parity s"
  "broken_parity (large_free_list_update f3 s) = broken_parity s"
  "broken_parity (large_free_list_sz_update f4 s) = broken_parity s"
  "broken_parity (small_free_list_update f5 s) = broken_parity s"
  "broken_parity (small_free_list_sz_update f6 s) = broken_parity s"
  "broken_parity (lru_head_update f7 s) = broken_parity s"
  "broken_parity (lru_tail_update f8 s) = broken_parity s"
  "broken_parity (initialized_update f9 s) = broken_parity s"
  "broken_parity (large_title_chunks_update g1 s) = broken_parity s"
  "broken_parity (large_body_chunks_update g2 s) = broken_parity s"
  "broken_parity (small_title_chunks_update g3 s) = broken_parity s"
  "broken_parity (small_body_chunks_update g4 s) = broken_parity s"
  "broken_parity (broken_chunk_histogram_update g5 s) = broken_parity s"
  "broken_parity (migrates_update g6 s) = broken_parity s"
  "broken_parity (header_update g7 s) = broken_parity s"
  "broken_parity (small_update g8 s) = broken_parity s"
  "broken_parity (large_update g9 s) = broken_parity s"
  "broken_parity (assoc_table_update h1 s) = broken_parity s"
  "broken_parity (current_time_update h2 s) = broken_parity s"
  "broken_parity (oldest_live_update h3 s) = broken_parity s"
  "broken_parity (detail_enabled_update h4 s) = broken_parity s"
  "broken_parity (item_storage_allocated_update h5 s) = broken_parity s"
  "broken_parity (item_total_size_update h6 s) = broken_parity s"
  "broken_parity (curr_items_update h7 s) = broken_parity s"
  "broken_parity (total_items_update h8 s) = broken_parity s"
  "broken_parity (evictions_update h9 s) = broken_parity s"
  "broken_parity (stats_events_update k1 s) = broken_parity s"
  by (simp_all add: broken_parity_def)

lemma broken_parity_upd [simp]:
  "broken_parity (upd_header p f s) = broken_parity s"
  "broken_parity (upd_header_if b p f s) = broken_parity s"
  "broken_parity (upd_small q g s) = broken_parity s"
  "broken_parity (upd_small_if b q g s) = broken_parity s"
  "broken_parity (upd_large r h s) = broken_parity s"
  "broken_parity (hist_add k d s) = broken_parity s"
  "broken_parity (assoc_insert it key s) = broken_parity s"
  "broken_parity (assoc_delete key nk s) = broken_parity s"
  "broken_parity (assoc_update old new s) = broken_parity s"
  "broken_parity (init_title it key nk fl ex nb s) = broken_parity s"
  "broken_parity (write_chain_slot sl v s) = broken_parity s"
  "broken_parity (unlink_account it ufl key s) = broken_parity s"
  by (simp_all add: upd_header_def upd_header_if_def upd_small_def upd_small_if_def
      upd_large_def hist_add_def assoc_insert_def assoc_delete_def assoc_update_def
      init_title_def write_chain_slot_def unlink_account_def Let_def
      split: chain_slot.splits)

lemma for_each_parity:
  assumes "\<And>x s. broken_parity s \<Longrightarrow> returns broken_parity (f x s)"
  shows "broken_parity s \<Longrightarrow> returns broken_parity (for_each f xs s)"
proof (induction xs arbitrary: s)
  case Nil
  then show ?case by simp
next
  case (Cons x xs)
  show ?case
    by (simp, rule parity_bind, rule assms, rule Cons.prems, rule Cons.IH)
qed

lemma write_slot_parity:
  "broken_parity s \<Longrightarrow> returns broken_parity (write_slot sl v s)"
  by (simp add: write_slot_def split: slot.splits)

lemma free_list_push_large_parity:
  "broken_parity s \<Longrightarrow> returns broken_parity (free_list_push_large chunk s)"
  by (simp add: free_list_push_large_def)

lemma splice_out_parity:
  "broken_parity s \<Longrightarrow> returns broken_parity (splice_out chunk s)"
  unfolding splice_out_def Let_def
  by (intro parity_intros write_slot_parity) simp_all

lemma unbreak_small_chunk_parity:
  "broken_parity s \<Longrightarrow> returns broken_parity (unbreak_small_chunk x s)"
  unfolding unbreak_small_chunk_def
  by (intro parity_intros splice_out_parity) simp_all

lemma unbreak_check_small_chunk_parity:
  "broken_parity s \<Longrightarrow> returns broken_parity (unbreak_check_small_chunk x s)"
  by (simp add: unbreak_check_small_chunk_def)

text \<open>Line 389 and line 391 of the source: the two counters move together.\<close>

lemma unbreak_counters:
  "broken_parity s2 \<Longrightarrow>
   broken_parity ((hist_add 0 (- 1) s2)
                    \<lparr>large_broken_chunks := large_broken_chunks s2 - 1,
                     unbreak_events := unbreak_events s2 + 1\<rparr>)"
  by (simp add: broken_parity_def hist_add_def)

lemma unbreak_large_chunk_parity:
  "broken_parity s \<Longrightarrow> returns broken_parity (unbreak_large_chunk c lc m s)"
  unfolding unbreak_large_chunk_def
  by (intro parity_intros for_each_parity unbreak_check_small_chunk_parity
      unbreak_small_chunk_parity free_list_push_large_parity)
    (simp_all add: unbreak_counters)

lemma free_list_push_small_parity:
  "broken_parity s \<Longrightarrow> returns broken_parity (free_list_push_small chunk s)"
  by (simp add: free_list_push_small_def Let_def)

lemma free_list_push_parity:
  "broken_parity s \<Longrightarrow> returns broken_parity (free_list_push c chunk ty tm s)"
  unfolding free_list_push_def
  by (cases ty; simp only: chunk_type_t.case)
    ((intro parity_intros free_list_push_small_parity unbreak_large_chunk_parity
      free_list_push_large_parity; simp)+)

lemma free_list_pop_parity:
  "broken_parity s \<Longrightarrow> returns (\<lambda>r. broken_parity (snd r)) (free_list_pop c ty s)"
  by (simp add: free_list_pop_def free_list_pop_small_def free_list_pop_large_def Let_def
      split: chunk_type_t.splits)

lemma break_small_chunk_parity:
  "broken_parity s \<Longrightarrow> returns broken_parity (break_small_chunk c x s)"
  by (simp add: break_small_chunk_def free_list_push_parity)

text \<open>Line 327 and line 328 of the source.\<close>

lemma break_counters:
  "broken_parity s1 \<Longrightarrow>
   broken_parity ((upd_large chunk f s1)
                    \<lparr>large_broken_chunks := large_broken_chunks s1 + 1,
                     break_events := break_events s1 + 1\<rparr>)"
  by (simp add: broken_parity_def upd_large_def)

lemma break_large_chunk_parity:
  "broken_parity s \<Longrightarrow> returns broken_parity (break_large_chunk c chunk s)"
  unfolding break_large_chunk_def
  by (intro parity_intros for_each_parity break_small_chunk_parity)
    (simp_all add: break_counters)

lemma coalesce_remove_free_parity:
  "broken_parity s \<Longrightarrow> returns broken_parity (coalesce_remove_free iter s)"
  unfolding coalesce_remove_free_def
  by (intro parity_intros splice_out_parity) simp_all

lemma migrate_title_next_parity:
  "broken_parity s \<Longrightarrow> returns broken_parity (migrate_title_next old new s)"
  by (simp add: migrate_title_next_def Let_def)

lemma migrate_title_prev_parity:
  "broken_parity s \<Longrightarrow> returns broken_parity (migrate_title_prev old new s)"
  by (simp add: migrate_title_prev_def Let_def)

lemma migrate_next_chunk_parity:
  "broken_parity s \<Longrightarrow> returns broken_parity (migrate_next_chunk old new nxt s)"
  by (simp add: migrate_next_chunk_def)

lemma migrate_title_parity:
  "broken_parity s \<Longrightarrow> returns broken_parity (migrate_title old new s)"
  unfolding migrate_title_def
  by (intro parity_intros migrate_title_next_parity migrate_title_prev_parity
      migrate_next_chunk_parity) simp_all

lemma migrate_body_parity:
  "broken_parity s \<Longrightarrow> returns broken_parity (migrate_body old new s)"
  unfolding migrate_body_def Let_def
  by (intro parity_intros migrate_next_chunk_parity) simp_all

lemma migrate_either_parity:
  "broken_parity s \<Longrightarrow>
   returns broken_parity ((if b then migrate_title else migrate_body) old new s)"
  by (cases b) (simp_all add: migrate_title_parity migrate_body_parity)

lemma coalesce_migrate_parity:
  "broken_parity s \<Longrightarrow> returns broken_parity (coalesce_migrate c lc iter s)"
  unfolding coalesce_migrate_def
  by (intro parity_intros free_list_pop_parity migrate_either_parity) simp_all

lemma coalesce_donor_parity:
  "broken_parity s \<Longrightarrow> returns broken_parity (coalesce_donor c lc s)"
  unfolding coalesce_donor_def Let_def
  by (intro parity_intros for_each_parity coalesce_remove_free_parity
      coalesce_migrate_parity unbreak_large_chunk_parity) simp_all

lemma coalesce_free_small_chunks_loop_parity:
  "broken_parity s \<Longrightarrow>
   returns (\<lambda>r. broken_parity (snd r)) (coalesce_free_small_chunks_loop c n retval s)"
proof (induction n arbitrary: retval s)
  case 0
  then show ?case by simp
next
  case (Suc n)
  show ?case
    unfolding coalesce_free_small_chunks_loop.simps
    by (intro parity_intros coalesce_donor_parity Suc.IH) (simp_all add: Suc.prems)
qed

lemma coalesce_free_small_chunks_parity:
  "broken_parity s \<Longrightarrow>
   returns (\<lambda>r. broken_parity (snd r)) (coalesce_free_small_chunks c n s)"
  by (simp add: coalesce_free_small_chunks_def coalesce_free_small_chunks_loop_parity)

lemma item_free_large_bodies_parity:
  "broken_parity s \<Longrightarrow>
   returns (\<lambda>r. broken_parity (snd r)) (item_free_large_bodies c n p k s)"
proof (induction n arbitrary: p k s)
  case 0
  then show ?case by simp
next
  case (Suc n)
  show ?case
    unfolding item_free_large_bodies.simps
    by (intro parity_intros free_list_push_parity Suc.IH) (simp_all add: Suc.prems)
qed

lemma item_free_small_bodies_parity:
  "broken_parity s \<Longrightarrow>
   returns (\<lambda>r. broken_parity (snd r)) (item_free_small_bodies c n p k s)"
proof (induction n arbitrary: p k s)
  case 0
  then show ?case by simp
next
  case (Suc n)
  show ?case
    unfolding item_free_small_bodies.simps
    by (intro parity_intros free_list_push_parity Suc.IH) (simp_all add: Suc.prems)
qed

lemma item_free_large_title_parity:
  "broken_parity s \<Longrightarrow> returns broken_parity (item_free_large_title c it s)"
  unfolding item_free_large_title_def
  by (intro parity_intros free_list_push_parity) simp_all

lemma item_free_small_title_parity:
  "broken_parity s \<Longrightarrow> returns broken_parity (item_free_small_title c it s)"
  unfolding item_free_small_title_def
  by (intro parity_intros free_list_push_parity) simp_all

lemma item_free_parity:
  "broken_parity s \<Longrightarrow> returns broken_parity (item_free c n it s)"
  unfolding item_free_def Let_def
  by (intro parity_intros item_free_large_bodies_parity item_free_small_bodies_parity
      item_free_large_title_parity item_free_small_title_parity) simp_all

lemma item_link_q_parity:
  "broken_parity s \<Longrightarrow> returns broken_parity (item_link_q it s)"
  by (simp add: item_link_q_def)

lemma item_unlink_q_parity:
  "broken_parity s \<Longrightarrow> returns broken_parity (item_unlink_q it s)"
  by (simp add: item_unlink_q_def Let_def)

lemma do_item_link_parity:
  "broken_parity s \<Longrightarrow> returns broken_parity (do_item_link it k s)"
  unfolding do_item_link_def
  by (intro parity_intros item_link_q_parity) simp_all

lemma do_item_unlink_parity:
  "broken_parity s \<Longrightarrow> returns broken_parity (do_item_unlink c n it fl k s)"
  unfolding do_item_unlink_def
  by (intro parity_intros item_unlink_q_parity item_free_parity) simp_all

lemma do_item_deref_parity:
  "broken_parity s \<Longrightarrow> returns broken_parity (do_item_deref c n it s)"
  unfolding do_item_deref_def Let_def
  by (intro parity_intros item_free_parity) simp_all

lemma do_item_update_parity:
  "broken_parity s \<Longrightarrow> returns broken_parity (do_item_update c it s)"
  unfolding do_item_update_def
  by (intro parity_intros item_unlink_q_parity item_link_q_parity) simp_all

lemma do_item_replace_parity:
  "broken_parity s \<Longrightarrow> returns broken_parity (do_item_replace c n it new_it k s)"
  unfolding do_item_replace_def
  by (intro parity_intros do_item_unlink_parity do_item_link_parity) simp_all

lemma flat_storage_lru_evict_parity:
  "broken_parity s \<Longrightarrow>
   returns (\<lambda>r. broken_parity (snd r)) (flat_storage_lru_evict c n ty nchunks s)"
proof (induction n arbitrary: s ty)
  case 0
  then show ?case by simp
next
  case (Suc n)
  show ?case
    unfolding flat_storage_lru_evict.simps
    by (cases ty; simp only: chunk_type_t.case)
      ((intro parity_intros do_item_unlink_parity coalesce_free_small_chunks_parity Suc.IH;
        simp add: Suc.prems)+)
qed

lemma flat_storage_alloc_loop_parity:
  "broken_parity s \<Longrightarrow> returns broken_parity (flat_storage_alloc_loop c k s)"
proof (induction k arbitrary: s)
  case 0
  then show ?case by simp
next
  case (Suc k)
  show ?case
    unfolding flat_storage_alloc_loop.simps
    by (intro parity_intros free_list_push_parity Suc.IH) (simp_all add: Suc.prems)
qed

lemma flat_storage_alloc_parity:
  "broken_parity s \<Longrightarrow> returns (\<lambda>r. broken_parity (snd r)) (flat_storage_alloc c s)"
  unfolding flat_storage_alloc_def
  by (intro parity_intros flat_storage_alloc_loop_parity) simp_all

lemma zero_state_parity: "broken_parity zero_state"
  by (simp add: broken_parity_def zero_state_def)

lemma flat_storage_init_parity:
  "broken_parity s \<Longrightarrow> returns broken_parity (flat_storage_init c maxbytes s)"
  unfolding flat_storage_init_def
  by (intro parity_intros flat_storage_alloc_parity) simp_all

lemma stamp_if_last_parity:
  "broken_parity s \<Longrightarrow> returns broken_parity (stamp_if_last b title off sz s)"
  unfolding stamp_if_last_def
  by (intro parity_intros) simp_all

lemma alloc_large_bodies_parity:
  "broken_parity s \<Longrightarrow>
   returns (\<lambda>r. broken_parity (snd r)) (alloc_large_bodies c title k prev_next off s)"
proof (induction k arbitrary: prev_next off s)
  case 0
  then show ?case by simp
next
  case (Suc k)
  show ?case
    unfolding alloc_large_bodies.simps
    by (intro parity_intros free_list_pop_parity stamp_if_last_parity Suc.IH)
      (simp_all add: Suc.prems)
qed

lemma alloc_small_bodies_parity:
  "broken_parity s \<Longrightarrow>
   returns (\<lambda>r. broken_parity (snd r)) (alloc_small_bodies c title k prv prev_next off s)"
proof (induction k arbitrary: prv prev_next off s)
  case 0
  then show ?case by simp
next
  case (Suc k)
  show ?case
    unfolding alloc_small_bodies.simps
    by (intro parity_intros free_list_pop_parity stamp_if_last_parity Suc.IH)
      (simp_all add: Suc.prems)
qed

lemma alloc_large_chain_parity:
  "broken_parity s \<Longrightarrow>
   returns (\<lambda>r. broken_parity (snd r)) (alloc_large_chain c k nk fl ex nb needed s)"
  unfolding alloc_large_chain_def
  by (intro parity_intros free_list_pop_parity stamp_if_last_parity
      alloc_large_bodies_parity) simp_all

lemma alloc_small_chain_parity:
  "broken_parity s \<Longrightarrow>
   returns (\<lambda>r. broken_parity (snd r)) (alloc_small_chain c k nk fl ex nb needed s)"
  unfolding alloc_small_chain_def
  by (intro parity_intros free_list_pop_parity stamp_if_last_parity
      alloc_small_bodies_parity) simp_all

lemma alloc_large_acquire_parity:
  "broken_parity s \<Longrightarrow>
   returns (\<lambda>r. broken_parity (snd r)) (alloc_large_acquire c n needed prev_free s)"
proof (induction n arbitrary: prev_free s)
  case 0
  then show ?case by simp
next
  case (Suc n)
  show ?case
    unfolding alloc_large_acquire.simps
    by (intro parity_intros flat_storage_alloc_parity coalesce_free_small_chunks_parity
        flat_storage_lru_evict_parity Suc.IH)
      (simp_all add: Suc.prems)
qed

lemma alloc_small_acquire_parity:
  "broken_parity s \<Longrightarrow>
   returns (\<lambda>r. broken_parity (snd r))
     (alloc_small_acquire c n needed small_prev_free large_prev_free s)"
proof (induction n arbitrary: small_prev_free large_prev_free s)
  case 0
  then show ?case by simp
next
  case (Suc n)
  show ?case
    unfolding alloc_small_acquire.simps
    by (intro parity_intros flat_storage_alloc_parity free_list_pop_parity
        break_large_chunk_parity flat_storage_lru_evict_parity Suc.IH)
      (simp_all add: Suc.prems)
qed

lemma do_item_alloc_parity:
  "broken_parity s \<Longrightarrow>
   returns (\<lambda>r. broken_parity (snd r)) (do_item_alloc c n k nk fl ex nb addr s)"
  unfolding do_item_alloc_def
  by (intro parity_intros alloc_large_acquire_parity alloc_small_acquire_parity
      alloc_large_chain_parity alloc_small_chain_parity) simp_all

lemma item_get_expiry_parity:
  "broken_parity s \<Longrightarrow>
   returns (\<lambda>r. broken_parity (snd r)) (item_get_expiry c n it k s)"
  unfolding item_get_expiry_def
  by (intro parity_intros do_item_unlink_parity) simp_all

lemma do_item_get_notedeleted_parity:
  "broken_parity s \<Longrightarrow>
   returns (\<lambda>r. broken_parity (snd (snd r))) (do_item_get_notedeleted c n k nk s)"
  unfolding do_item_get_notedeleted_def Let_def
  by (intro parity_intros item_get_expiry_parity) simp_all

lemma do_item_get_nocheck_parity:
  "broken_parity s \<Longrightarrow> broken_parity (snd (do_item_get_nocheck k nk s))"
  by (simp add: do_item_get_nocheck_def Let_def)

lemma item_flush_expired_loop_parity:
  "broken_parity s \<Longrightarrow> returns broken_parity (item_flush_expired_loop c n iter s)"
proof (induction n arbitrary: iter s)
  case 0
  then show ?case by simp
next
  case (Suc n)
  show ?case
    unfolding item_flush_expired_loop.simps
    by (intro parity_intros do_item_unlink_parity Suc.IH) (simp_all add: Suc.prems)
qed

lemma do_item_flush_expired_parity:
  "broken_parity s \<Longrightarrow> returns broken_parity (do_item_flush_expired c n s)"
  unfolding do_item_flush_expired_def
  by (intro parity_intros item_flush_expired_loop_parity) simp_all

lemma returns_snd_bind:
  "returns (\<lambda>r. broken_parity (snd r)) m
   \<Longrightarrow> returns broken_parity (and_then m (\<lambda>(it, s1). Inr s1))"
  by (rule parity_bind_case_prod) simp_all

lemma returns_snd_snd_bind:
  "returns (\<lambda>r. broken_parity (snd (snd r))) m
   \<Longrightarrow> returns broken_parity (and_then m (\<lambda>(it, dl, s1). Inr s1))"
  by (rule returns_bind [where Q = "\<lambda>r. broken_parity (snd (snd r))"]) auto

lemma step_parity:
  "broken_parity s \<Longrightarrow> returns broken_parity (step c n op s)"
  by (cases op)
    (simp_all add: step_def do_item_link_parity do_item_unlink_parity do_item_deref_parity
      do_item_update_parity do_item_replace_parity do_item_flush_expired_parity
      do_item_get_nocheck_parity returns_snd_bind do_item_alloc_parity
      returns_snd_snd_bind do_item_get_notedeleted_parity)

lemma run_parity:
  "broken_parity s \<Longrightarrow> returns broken_parity (run c ops s)"
proof (induction ops arbitrary: s)
  case Nil
  then show ?case by simp
next
  case (Cons op ops)
  show ?case
    by (simp, rule parity_bind, rule step_parity, rule Cons.prems, rule Cons.IH)
qed

text \<open>
  Claim C3.  The globals of the program start as zero.  In every state that a run of
  the public operations reaches from \<^verbatim>\<open>flat_storage_init\<close>, the difference of
  \<^verbatim>\<open>break_events\<close> and \<^verbatim>\<open>unbreak_events\<close> is \<^verbatim>\<open>large_broken_chunks\<close>:
  \<^verbatim>\<open>break_large_chunk\<close> and \<^verbatim>\<open>unbreak_large_chunk\<close> are the only functions that write
  the three counters, and each moves two of them together.
\<close>

theorem break_unbreak_parity:
  "flat_storage_init c maxbytes zero_state = Inr s0 \<and> run c ops s0 = Inr s
   \<longrightarrow> break_events s - unbreak_events s = large_broken_chunks s"
proof
  assume a: "flat_storage_init c maxbytes zero_state = Inr s0 \<and> run c ops s0 = Inr s"
  from a have i: "flat_storage_init c maxbytes zero_state = Inr s0"
    and r: "run c ops s0 = Inr s"
    by simp_all
  have "broken_parity s0"
    by (rule returnsD [OF flat_storage_init_parity [OF zero_state_parity] i])
  then have "broken_parity s"
    by (rule returnsD [OF run_parity r])
  then show "break_events s - unbreak_events s = large_broken_chunks s"
    by (simp add: broken_parity_def)
qed

subsection \<open>A run: an allocation breaks a large chunk, the release merges it again\<close>

lemma flat_storage_alloc_loop_numeral:
  "flat_storage_alloc_loop c (numeral k) s =
     and_then
       (free_list_push c (Chunk (uninitialized_start s) 0) LARGE_CHUNK False
          (upd_large (Chunk (uninitialized_start s) 0)
             (\<lambda>l. l\<lparr>lc_flags := {LARGE_CHUNK_INITIALIZED}\<rparr>)
             (s\<lparr>uninitialized_start := uninitialized_start s + 1\<rparr>)))
       (\<lambda>s1. flat_storage_alloc_loop c (pred_numeral k)
               (s1\<lparr>unused_memory := unused_memory s1 - LARGE_CHUNK_SZ c\<rparr>))"
  by (simp only: numeral_eq_Suc flat_storage_alloc_loop.simps)

lemma and_then_weak_cong: "m = m' \<Longrightarrow> and_then m f = and_then m' f"
  by simp

lemma nat_4_eq: "(4 :: nat) = Suc (Suc (Suc (Suc 0)))"
  by simp

lemma example_init:
  "flat_storage_init example_config 4096 zero_state = Inr initialized_state"
  by (simp add: flat_storage_init_def flat_storage_alloc_def example_config_def 
      flat_storage_alloc_loop_numeral initialized_state_def
      free_list_push_def free_list_push_large_def upd_large_def
      zero_state_def zero_large_def cong: and_then_weak_cong)
    (simp add: numeral_2_eq_2 numeral_3_eq_3 nat_4_eq)

lemma upt_8: "[0 ..< 8] = [0, 1, 2, 3, 4, 5, 6, 7 :: nat]"
  by code_simp

lemmas eval_defs = upt_8 step_def do_item_alloc_def item_size_ok_def size_t_to_int_def
  example_config_def example_is_large_chunk_def example_chunks_needed_def
  free_list_pop_def free_list_pop_large_def free_list_pop_small_def break_large_chunk_def
  break_small_chunk_def small_chunks_of_def free_list_push_def free_list_push_small_def
  free_list_push_large_def
  hist_add_def upd_header_def upd_small_def upd_small_if_def upd_large_def Let_def
  alloc_small_chain_def stamp_if_last_def do_stamp_on_block_def init_title_def
  write_chain_slot_def do_item_deref_def item_free_def is_item_large_chunk_def
  chunks_in_item_def item_free_small_title_def unbreak_large_chunk_def
  unbreak_check_small_chunk_def unbreak_small_chunk_def splice_out_def read_slot_def
  write_slot_def initialized_state_def zero_state_def zero_header_def zero_small_def
  zero_large_def insert_Diff_if set_eq_subset

lemma example_run:
  "\<exists>s. run example_config
          [(Suc (Suc 0), Alloc ''k'' 1 0 0 10 0), (Suc (Suc 0), Deref (Chunk 3 0))]
          initialized_state = Inr s
        \<and> break_events s = 1 \<and> unbreak_events s = 1 \<and> large_broken_chunks s = 0"
  by (simp add: eval_defs cong: and_then_weak_cong)

theorem break_unbreak_parity_witness:
  "flat_storage_init example_config 4096 zero_state = Inr initialized_state
   \<and> (\<exists>s. run example_config
              [(Suc (Suc 0), Alloc ''k'' 1 0 0 10 0), (Suc (Suc 0), Deref (Chunk 3 0))]
              initialized_state = Inr s
            \<and> break_events s = 1 \<and> unbreak_events s = 1 \<and> large_broken_chunks s = 0
            \<and> break_events s - unbreak_events s = large_broken_chunks s)"
proof -
  from example_run obtain s where
    r: "run example_config
          [(Suc (Suc 0), Alloc ''k'' 1 0 0 10 0), (Suc (Suc 0), Deref (Chunk 3 0))]
          initialized_state = Inr s"
    and k: "break_events s = 1" "unbreak_events s = 1" "large_broken_chunks s = 0"
    by blast
  from break_unbreak_parity [of example_config 4096 initialized_state _ s] example_init r
  have "break_events s - unbreak_events s = large_broken_chunks s"
    by blast
  with r k example_init show ?thesis
    by blast
qed

subsection \<open>The chain that \<^verbatim>\<open>do_item_alloc\<close> builds\<close>

lemma upd_projections [simp]:
  "large (upd_large p f s) = (large s)(p := f (large s p))"
  "small (upd_large p f s) = small s"
  "small (upd_small q g s) = (small s)(q := g (small s q))"
  "large (upd_small q g s) = large s"
  "header (upd_header x h s) = (header s)(x := h (header s x))"
  "large (upd_header x h s) = large s"
  "small (upd_header x h s) = small s"
  by (simp_all add: upd_large_def upd_small_def upd_header_def)

lemma upd_globals [simp]:
  "large_free_list (upd_large p f s) = large_free_list s"
  "large_free_list_sz (upd_large p f s) = large_free_list_sz s"
  "small_free_list (upd_large p f s) = small_free_list s"
  "small_free_list_sz (upd_large p f s) = small_free_list_sz s"
  "large_free_list (upd_small q g s) = large_free_list s"
  "large_free_list_sz (upd_small q g s) = large_free_list_sz s"
  "small_free_list (upd_small q g s) = small_free_list s"
  "small_free_list_sz (upd_small q g s) = small_free_list_sz s"
  "large_free_list (upd_header x h s) = large_free_list s"
  "large_free_list_sz (upd_header x h s) = large_free_list_sz s"
  "small_free_list (upd_header x h s) = small_free_list s"
  "small_free_list_sz (upd_header x h s) = small_free_list_sz s"
  by (simp_all add: upd_large_def upd_small_def upd_header_def)

lemma free_list_pop_large_effect:
  assumes "free_list_pop c LARGE_CHUNK s = Inr (temp, s1)" "temp \<noteq> NULL_CHUNKPTR"
  shows "lc_flags (large s temp) = {LARGE_CHUNK_INITIALIZED, LARGE_CHUNK_FREE}"
    and "large s1 = (large s)(temp := (large s temp)\<lparr>lc_flags := {LARGE_CHUNK_INITIALIZED}\<rparr>)"
    and "header s1 = header s" and "small s1 = small s"
    and "temp = large_free_list s" and "large_free_list_sz s \<noteq> 0"
    and "large_free_list s1 = lc_free_next (large s temp)"
    and "large_free_list_sz s1 = large_free_list_sz s - 1"
  using assms
  by (clarsimp simp: free_list_pop_def free_list_pop_large_def Let_def insert_Diff_if
      split: if_splits)+

lemma stamp_if_last_effect:
  assumes "stamp_if_last b title off sz s = Inr s'"
  obtains F where "s' = upd_header title (\<lambda>h. h\<lparr>it_flags := it_flags h \<union> F\<rparr>) s"
proof (cases b)
  case True
  with assms obtain fl where "s' = upd_header title (\<lambda>h. h\<lparr>it_flags := it_flags h \<union> fl\<rparr>) s"
    by (clarsimp simp: stamp_if_last_def elim!: and_then_InrE)
  then show ?thesis by (rule that)
next
  case False
  with assms have "s' = upd_header title (\<lambda>h. h\<lparr>it_flags := it_flags h \<union> {}\<rparr>) s"
    by (simp add: stamp_if_last_def upd_header_def)
  then show ?thesis by (rule that)
qed

lemma alloc_large_step_effect:
  assumes pop: "free_list_pop c LARGE_CHUNK s = Inr (temp, s1)" and t: "temp \<noteq> NULL_CHUNKPTR"
    and st: "stamp_if_last b title off sz
               (write_chain_slot pn temp
               (upd_large temp (\<lambda>l. l\<lparr>lc_flags := lc_flags l \<union> {LARGE_CHUNK_USED}\<rparr>) s1))
             = Inr s4"
    and ok: "large_slot_ok pn s"
  shows "lc_flags (large s temp) = {LARGE_CHUNK_INITIALIZED, LARGE_CHUNK_FREE}"
    and "\<And>p. lc_flags (large s4 p)
           = (if p = temp then {LARGE_CHUNK_INITIALIZED, LARGE_CHUNK_USED} else lc_flags (large s p))"
    and "\<And>p. lc_body_next_chunk (large s4 p)
           = (if pn = Large_body_next_chunk p then temp else lc_body_next_chunk (large s p))"
    and "\<And>p. lc_free_next (large s4 p) = lc_free_next (large s p)"
    and "\<And>x. kept_fields (header s4 x) = kept_fields (header s x)"
    and "\<And>x. it_flags (header s x) \<subseteq> it_flags (header s4 x)"
    and "\<And>x. next_chunk (header s4 x)
           = (if pn = Title_next_chunk x then temp else next_chunk (header s x))"
    and "large_free_list s4 = lc_free_next (large s temp)"
    and "large_free_list_sz s4 = large_free_list_sz s - 1"
proof -
  note e = free_list_pop_large_effect [OF pop t]
  from st obtain F where s4: "s4 = upd_header title (\<lambda>h. h\<lparr>it_flags := it_flags h \<union> F\<rparr>)
               (write_chain_slot pn temp
               (upd_large temp (\<lambda>l. l\<lparr>lc_flags := lc_flags l \<union> {LARGE_CHUNK_USED}\<rparr>) s1))"
    by (rule stamp_if_last_effect)
  show "lc_flags (large s temp) = {LARGE_CHUNK_INITIALIZED, LARGE_CHUNK_FREE}" by (rule e(1))
  show "\<And>p. lc_flags (large s4 p)
           = (if p = temp then {LARGE_CHUNK_INITIALIZED, LARGE_CHUNK_USED} else lc_flags (large s p))"
    using ok by (cases pn) (auto simp: s4 write_chain_slot_def e large_slot_ok_def)
  show "\<And>p. lc_body_next_chunk (large s4 p)
           = (if pn = Large_body_next_chunk p then temp else lc_body_next_chunk (large s p))"
    using ok by (cases pn) (auto simp: s4 write_chain_slot_def e large_slot_ok_def)
  show "\<And>p. lc_free_next (large s4 p) = lc_free_next (large s p)"
    using ok by (cases pn) (auto simp: s4 write_chain_slot_def e large_slot_ok_def)
  show "\<And>x. kept_fields (header s4 x) = kept_fields (header s x)"
    using ok by (cases pn) (auto simp: s4 write_chain_slot_def e large_slot_ok_def kept_fields_def)
  show "\<And>x. it_flags (header s x) \<subseteq> it_flags (header s4 x)"
    using ok by (cases pn) (auto simp: s4 write_chain_slot_def e large_slot_ok_def)
  show "\<And>x. next_chunk (header s4 x)
           = (if pn = Title_next_chunk x then temp else next_chunk (header s x))"
    using ok by (cases pn) (auto simp: s4 write_chain_slot_def e large_slot_ok_def)
  show "large_free_list s4 = lc_free_next (large s temp)"
    using ok by (cases pn) (auto simp: s4 write_chain_slot_def e large_slot_ok_def)
  show "large_free_list_sz s4 = large_free_list_sz s - 1"
    using ok by (cases pn) (auto simp: s4 write_chain_slot_def e large_slot_ok_def)
qed

lemma alloc_large_bodies_Suc:
  assumes "alloc_large_bodies c title (Suc k) pn off s = Inr (pn', s')"
  obtains temp s1 s4 where
    "free_list_pop c LARGE_CHUNK s = Inr (temp, s1)" "temp \<noteq> NULL_CHUNKPTR"
    "stamp_if_last (k = 0) title off (LARGE_BODY_CHUNK_DATA_SZ c)
       (write_chain_slot pn temp
       (upd_large temp (\<lambda>l. l\<lparr>lc_flags := lc_flags l \<union> {LARGE_CHUNK_USED}\<rparr>) s1)) = Inr s4"
    "alloc_large_bodies c title k (Large_body_next_chunk temp)
       (off - LARGE_BODY_CHUNK_DATA_SZ c) s4 = Inr (pn', s')"
proof -
  from assms have a: "and_then (free_list_pop c LARGE_CHUNK s) (\<lambda>(temp, s1).
       if temp = NULL_CHUNKPTR then Inl NullPointerDereference
       else
         and_then
           (stamp_if_last (k = 0) title off (LARGE_BODY_CHUNK_DATA_SZ c)
              (write_chain_slot pn temp
              (upd_large temp (\<lambda>l. l\<lparr>lc_flags := lc_flags l \<union> {LARGE_CHUNK_USED}\<rparr>) s1)))
           (alloc_large_bodies c title k (Large_body_next_chunk temp)
              (off - LARGE_BODY_CHUNK_DATA_SZ c))) = Inr (pn', s')"
    by simp
  from and_then_Inr [OF a] obtain temp s1 where
    1: "free_list_pop c LARGE_CHUNK s = Inr (temp, s1)"
    and b: "(if temp = NULL_CHUNKPTR then Inl NullPointerDereference
       else
         and_then
           (stamp_if_last (k = 0) title off (LARGE_BODY_CHUNK_DATA_SZ c)
              (write_chain_slot pn temp
              (upd_large temp (\<lambda>l. l\<lparr>lc_flags := lc_flags l \<union> {LARGE_CHUNK_USED}\<rparr>) s1)))
           (alloc_large_bodies c title k (Large_body_next_chunk temp)
              (off - LARGE_BODY_CHUNK_DATA_SZ c))) = Inr (pn', s')"
    by (cases "free_list_pop c LARGE_CHUNK s") auto
  from b have 2: "temp \<noteq> NULL_CHUNKPTR" by (cases "temp = NULL_CHUNKPTR") simp_all
  with b have d: "and_then
           (stamp_if_last (k = 0) title off (LARGE_BODY_CHUNK_DATA_SZ c)
              (write_chain_slot pn temp
              (upd_large temp (\<lambda>l. l\<lparr>lc_flags := lc_flags l \<union> {LARGE_CHUNK_USED}\<rparr>) s1)))
           (alloc_large_bodies c title k (Large_body_next_chunk temp)
              (off - LARGE_BODY_CHUNK_DATA_SZ c)) = Inr (pn', s')"
    by simp
  from and_then_Inr [OF d] obtain s4 where
    3: "stamp_if_last (k = 0) title off (LARGE_BODY_CHUNK_DATA_SZ c)
       (write_chain_slot pn temp
       (upd_large temp (\<lambda>l. l\<lparr>lc_flags := lc_flags l \<union> {LARGE_CHUNK_USED}\<rparr>) s1)) = Inr s4"
    and 4: "alloc_large_bodies c title k (Large_body_next_chunk temp)
       (off - LARGE_BODY_CHUNK_DATA_SZ c) s4 = Inr (pn', s')"
    by blast
  from 1 2 3 4 show ?thesis by (rule that)
qed

lemma write_null_slot:
  "read_chain_slot pn (write_chain_slot pn NULL_CHUNKPTR s) = NULL_CHUNKPTR"
  "pn \<noteq> Large_body_next_chunk p \<Longrightarrow>
     lc_body_next_chunk (large (write_chain_slot pn NULL_CHUNKPTR s) p)
       = lc_body_next_chunk (large s p)"
  "pn \<noteq> Small_body_next_chunk p \<Longrightarrow>
     sc_body_next_chunk (small (write_chain_slot pn NULL_CHUNKPTR s) p)
       = sc_body_next_chunk (small s p)"
  "kept_fields (header (write_chain_slot pn NULL_CHUNKPTR s) x) = kept_fields (header s x)"
  "it_flags (header (write_chain_slot pn NULL_CHUNKPTR s) x) = it_flags (header s x)"
  "pn \<noteq> Title_next_chunk x \<Longrightarrow>
     next_chunk (header (write_chain_slot pn NULL_CHUNKPTR s) x) = next_chunk (header s x)"
  "lc_flags (large (write_chain_slot pn NULL_CHUNKPTR s) p) = lc_flags (large s p)"
  "sc_flags (small (write_chain_slot pn NULL_CHUNKPTR s) p) = sc_flags (small s p)"
  by (cases pn; auto simp: read_chain_slot_def write_chain_slot_def kept_fields_def)+

lemma alloc_large_bodies_chain:
  "alloc_large_bodies c title k pn off s = Inr (pn', s') \<Longrightarrow> large_slot_ok pn s \<Longrightarrow>
   \<exists>bs. length bs = k \<and> distinct bs
     \<and> (\<forall>b\<in>set bs. lc_flags (large s b) = {LARGE_CHUNK_INITIALIZED, LARGE_CHUNK_FREE})
     \<and> seg (\<lambda>p. lc_body_next_chunk (large (write_chain_slot pn' NULL_CHUNKPTR s') p))
           (read_chain_slot pn (write_chain_slot pn' NULL_CHUNKPTR s')) bs NULL_CHUNKPTR
     \<and> (\<forall>p. p \<notin> set bs \<longrightarrow> pn \<noteq> Large_body_next_chunk p \<longrightarrow>
            lc_body_next_chunk (large (write_chain_slot pn' NULL_CHUNKPTR s') p)
              = lc_body_next_chunk (large s p))
     \<and> (\<forall>x. kept_fields (header (write_chain_slot pn' NULL_CHUNKPTR s') x)
              = kept_fields (header s x))
     \<and> (\<forall>x. it_flags (header s x)
              \<subseteq> it_flags (header (write_chain_slot pn' NULL_CHUNKPTR s') x))
     \<and> (\<forall>x. pn \<noteq> Title_next_chunk x \<longrightarrow>
            next_chunk (header (write_chain_slot pn' NULL_CHUNKPTR s') x)
              = next_chunk (header s x))"
proof (induction k arbitrary: pn off s)
  case 0
  then have "pn' = pn" "s' = s" by simp_all
  then show ?case
    by (intro exI [of _ "[]"]) (simp add: write_null_slot)
next
  case (Suc k)
  let ?W = "write_chain_slot pn' NULL_CHUNKPTR s'"
  from Suc.prems(1) obtain temp s1 s4 where
    pop: "free_list_pop c LARGE_CHUNK s = Inr (temp, s1)" and t: "temp \<noteq> NULL_CHUNKPTR"
    and st: "stamp_if_last (k = 0) title off (LARGE_BODY_CHUNK_DATA_SZ c)
       (write_chain_slot pn temp
       (upd_large temp (\<lambda>l. l\<lparr>lc_flags := lc_flags l \<union> {LARGE_CHUNK_USED}\<rparr>) s1)) = Inr s4"
    and rec: "alloc_large_bodies c title k (Large_body_next_chunk temp)
       (off - LARGE_BODY_CHUNK_DATA_SZ c) s4 = Inr (pn', s')"
    by (rule alloc_large_bodies_Suc)
  note e = alloc_large_step_effect [OF pop t st Suc.prems(2)]
  have ok4: "large_slot_ok (Large_body_next_chunk temp) s4"
    by (simp add: large_slot_ok_def e(2))
  from Suc.IH [OF rec ok4] obtain bs where
    len: "length bs = k" and dist: "distinct bs"
    and fl: "\<forall>b\<in>set bs. lc_flags (large s4 b) = {LARGE_CHUNK_INITIALIZED, LARGE_CHUNK_FREE}"
    and sg: "seg (\<lambda>p. lc_body_next_chunk (large ?W p))
           (read_chain_slot (Large_body_next_chunk temp) ?W) bs NULL_CHUNKPTR"
    and fr: "\<forall>p. p \<notin> set bs \<longrightarrow> Large_body_next_chunk temp \<noteq> Large_body_next_chunk p \<longrightarrow>
            lc_body_next_chunk (large ?W p) = lc_body_next_chunk (large s4 p)"
    and kf: "\<forall>x. kept_fields (header ?W x) = kept_fields (header s4 x)"
    and itf: "\<forall>x. it_flags (header s4 x) \<subseteq> it_flags (header ?W x)"
    and nc: "\<forall>x. Large_body_next_chunk temp \<noteq> Title_next_chunk x \<longrightarrow>
            next_chunk (header ?W x) = next_chunk (header s4 x)"
    by blast
  have tn: "temp \<notin> set bs"
  proof
    assume "temp \<in> set bs"
    with fl have "lc_flags (large s4 temp) = {LARGE_CHUNK_INITIALIZED, LARGE_CHUNK_FREE}"
      by blast
    with e(2) [of temp] show False by auto
  qed
  have fl0: "\<forall>b\<in>set (temp # bs).
      lc_flags (large s b) = {LARGE_CHUNK_INITIALIZED, LARGE_CHUNK_FREE}"
  proof
    fix b assume b: "b \<in> set (temp # bs)"
    show "lc_flags (large s b) = {LARGE_CHUNK_INITIALIZED, LARGE_CHUNK_FREE}"
    proof (cases "b = temp")
      case True
      then show ?thesis by (simp add: e(1))
    next
      case False
      with b fl have "lc_flags (large s4 b) = {LARGE_CHUNK_INITIALIZED, LARGE_CHUNK_FREE}"
        by simp
      with False show ?thesis by (simp add: e(2))
    qed
  qed
  have rd: "read_chain_slot pn ?W = temp"
  proof (cases pn)
    case (Title_next_chunk x)
    with nc e(7) [of x] show ?thesis by (simp add: read_chain_slot_def)
  next
    case (Large_body_next_chunk p)
    with Suc.prems(2) have nf: "LARGE_CHUNK_FREE \<notin> lc_flags (large s p)"
      by (simp add: large_slot_ok_def)
    with e(1) have pt: "p \<noteq> temp" by auto
    have "p \<notin> set bs"
    proof
      assume "p \<in> set bs"
      with fl have "lc_flags (large s4 p) = {LARGE_CHUNK_INITIALIZED, LARGE_CHUNK_FREE}"
        by blast
      with pt e(2) [of p] nf show False by auto
    qed
    with fr pt have "lc_body_next_chunk (large ?W p) = lc_body_next_chunk (large s4 p)"
      by simp
    with Large_body_next_chunk e(3) [of p] show ?thesis by (simp add: read_chain_slot_def)
  next
    case (Small_body_next_chunk p)
    with Suc.prems(2) show ?thesis by (simp add: large_slot_ok_def)
  qed
  have sg0: "seg (\<lambda>p. lc_body_next_chunk (large ?W p)) (read_chain_slot pn ?W) (temp # bs)
      NULL_CHUNKPTR"
    using sg rd t by (simp add: read_chain_slot_def)
  have fr0: "\<forall>p. p \<notin> set (temp # bs) \<longrightarrow> pn \<noteq> Large_body_next_chunk p \<longrightarrow>
            lc_body_next_chunk (large ?W p) = lc_body_next_chunk (large s p)"
    using fr e(3) by auto
  have kf0: "\<forall>x. kept_fields (header ?W x) = kept_fields (header s x)"
    using kf e(5) by simp
  have itf0: "\<forall>x. it_flags (header s x) \<subseteq> it_flags (header ?W x)"
    using itf e(6) by (meson subset_trans)
  have nc0: "\<forall>x. pn \<noteq> Title_next_chunk x \<longrightarrow> next_chunk (header ?W x) = next_chunk (header s x)"
    using nc e(7) by auto
  from len dist tn fl0 sg0 fr0 kf0 itf0 nc0 show ?case
    by (intro exI [of _ "temp # bs"]) simp
qed

lemma init_title_projections [simp]:
  "header (init_title t k nk fl ex nb s) x
     = (if x = t
        then (header s t)\<lparr>h_next := NULL_CHUNKPTR, next := NULL_CHUNKPTR, prev := NULL_CHUNKPTR,
               next_chunk := NULL_CHUNKPTR, refcount := 1, it_flags := {ITEM_VALID},
               nkey := nk, nbytes := nb, exptime := ex, flags := fl,
               key_bytes := take (unat nk) k\<rparr>
        else header s x)"
  "large (init_title t k nk fl ex nb s) = large s"
  "small (init_title t k nk fl ex nb s) = small s"
  by (simp_all add: init_title_def)

lemma alloc_large_chain_post:
  assumes "alloc_large_chain c k nk fl ex nb needed s = Inr (it, s')"
  shows "it \<noteq> NULL_CHUNKPTR \<and> refcount (header s' it) = 1
     \<and> ITEM_VALID \<in> it_flags (header s' it)
     \<and> nkey (header s' it) = nk \<and> nbytes (header s' it) = nb
     \<and> exptime (header s' it) = ex \<and> flags (header s' it) = fl
     \<and> next (header s' it) = NULL_CHUNKPTR \<and> prev (header s' it) = NULL_CHUNKPTR
     \<and> h_next (header s' it) = NULL_CHUNKPTR
     \<and> (\<exists>bs. length bs = unat (needed - 1) \<and> distinct (it # bs)
            \<and> seg (\<lambda>p. lc_body_next_chunk (large s' p)) (next_chunk (header s' it)) bs
                 NULL_CHUNKPTR)"
proof -
  from and_then_Inr [OF assms [unfolded alloc_large_chain_def]] obtain temp s1 where
    pop: "free_list_pop c LARGE_CHUNK s = Inr (temp, s1)"
    and b: "(if temp = NULL_CHUNKPTR then Inl NullPointerDereference
       else
         and_then
           (stamp_if_last (needed = 1) temp (nk + nb) (LARGE_TITLE_CHUNK_DATA_SZ c)
              (init_title temp k nk fl ex nb
              (upd_large temp
                 (\<lambda>l. l\<lparr>lc_flags := lc_flags l \<union> {LARGE_CHUNK_USED, LARGE_CHUNK_TITLE}\<rparr>)
                 s1)))
           (\<lambda>s2.
              and_then
                (alloc_large_bodies c temp (unat (needed - 1)) (Title_next_chunk temp)
                   (nk + nb - LARGE_TITLE_CHUNK_DATA_SZ c)
                   (s2\<lparr>large_title_chunks := large_title_chunks s2 + 1,
                       large_body_chunks := large_body_chunks s2 + (needed - 1)\<rparr>))
                (\<lambda>(prev_next, s3). Inr (temp, write_chain_slot prev_next NULL_CHUNKPTR s3))))
      = Inr (it, s')"
    by (cases "free_list_pop c LARGE_CHUNK s") auto
  from b have t: "temp \<noteq> NULL_CHUNKPTR" by (cases "temp = NULL_CHUNKPTR") simp_all
  with b have d: "and_then
           (stamp_if_last (needed = 1) temp (nk + nb) (LARGE_TITLE_CHUNK_DATA_SZ c)
              (init_title temp k nk fl ex nb
              (upd_large temp
                 (\<lambda>l. l\<lparr>lc_flags := lc_flags l \<union> {LARGE_CHUNK_USED, LARGE_CHUNK_TITLE}\<rparr>)
                 s1)))
           (\<lambda>s2.
              and_then
                (alloc_large_bodies c temp (unat (needed - 1)) (Title_next_chunk temp)
                   (nk + nb - LARGE_TITLE_CHUNK_DATA_SZ c)
                   (s2\<lparr>large_title_chunks := large_title_chunks s2 + 1,
                       large_body_chunks := large_body_chunks s2 + (needed - 1)\<rparr>))
                (\<lambda>(prev_next, s3). Inr (temp, write_chain_slot prev_next NULL_CHUNKPTR s3)))
      = Inr (it, s')"
    by simp
  from and_then_Inr [OF d] obtain s2 where
    st: "stamp_if_last (needed = 1) temp (nk + nb) (LARGE_TITLE_CHUNK_DATA_SZ c)
              (init_title temp k nk fl ex nb
              (upd_large temp
                 (\<lambda>l. l\<lparr>lc_flags := lc_flags l \<union> {LARGE_CHUNK_USED, LARGE_CHUNK_TITLE}\<rparr>)
                 s1)) = Inr s2"
    and f: "and_then
                (alloc_large_bodies c temp (unat (needed - 1)) (Title_next_chunk temp)
                   (nk + nb - LARGE_TITLE_CHUNK_DATA_SZ c)
                   (s2\<lparr>large_title_chunks := large_title_chunks s2 + 1,
                       large_body_chunks := large_body_chunks s2 + (needed - 1)\<rparr>))
                (\<lambda>(prev_next, s3). Inr (temp, write_chain_slot prev_next NULL_CHUNKPTR s3))
      = Inr (it, s')"
    by blast
  let ?s2 = "s2\<lparr>large_title_chunks := large_title_chunks s2 + 1,
                large_body_chunks := large_body_chunks s2 + (needed - 1)\<rparr>"
  from and_then_Inr [OF f] obtain pn' s3 where
    bd: "alloc_large_bodies c temp (unat (needed - 1)) (Title_next_chunk temp)
                   (nk + nb - LARGE_TITLE_CHUNK_DATA_SZ c) ?s2 = Inr (pn', s3)"
    and r: "it = temp" "s' = write_chain_slot pn' NULL_CHUNKPTR s3"
    by (cases "alloc_large_bodies c temp (unat (needed - 1)) (Title_next_chunk temp)
                   (nk + nb - LARGE_TITLE_CHUNK_DATA_SZ c) ?s2") auto
  note e = free_list_pop_large_effect [OF pop t]
  from st obtain F where s2: "s2 = upd_header temp (\<lambda>h. h\<lparr>it_flags := it_flags h \<union> F\<rparr>)
              (init_title temp k nk fl ex nb
              (upd_large temp
                 (\<lambda>l. l\<lparr>lc_flags := lc_flags l \<union> {LARGE_CHUNK_USED, LARGE_CHUNK_TITLE}\<rparr>)
                 s1))"
    by (rule stamp_if_last_effect)
  have h2: "kept_fields (header ?s2 temp)
      = (NULL_CHUNKPTR, NULL_CHUNKPTR, NULL_CHUNKPTR, time (header s temp), ex, nb, nk, 1, fl,
         take (unat nk) k)"
    "ITEM_VALID \<in> it_flags (header ?s2 temp)"
    by (simp_all add: s2 kept_fields_def e)
  have l2: "lc_flags (large ?s2 temp)
      = {LARGE_CHUNK_USED, LARGE_CHUNK_TITLE, LARGE_CHUNK_INITIALIZED}"
    by (simp add: s2 e)
  have ok: "large_slot_ok (Title_next_chunk temp) ?s2" by (simp add: large_slot_ok_def)
  from alloc_large_bodies_chain [OF bd ok] r(2) obtain bs where
    len: "length bs = unat (needed - 1)" and dist: "distinct bs"
    and flb: "\<forall>b\<in>set bs.
        lc_flags (large ?s2 b) = {LARGE_CHUNK_INITIALIZED, LARGE_CHUNK_FREE}"
    and sg: "seg (\<lambda>p. lc_body_next_chunk (large s' p))
           (read_chain_slot (Title_next_chunk temp) s') bs NULL_CHUNKPTR"
    and kf: "\<forall>x. kept_fields (header s' x) = kept_fields (header ?s2 x)"
    and itf: "\<forall>x. it_flags (header ?s2 x) \<subseteq> it_flags (header s' x)"
    by blast
  have tn: "temp \<notin> set bs"
  proof
    assume "temp \<in> set bs"
    with flb have "lc_flags (large ?s2 temp) = {LARGE_CHUNK_INITIALIZED, LARGE_CHUNK_FREE}"
      by blast
    with l2 show False by auto
  qed
  from kf h2(1) have k: "kept_fields (header s' temp)
      = (NULL_CHUNKPTR, NULL_CHUNKPTR, NULL_CHUNKPTR, time (header s temp), ex, nb, nk, 1, fl,
         take (unat nk) k)"
    by simp
  from itf h2(2) have v: "ITEM_VALID \<in> it_flags (header s' temp)" by blast
  from sg have sg': "seg (\<lambda>p. lc_body_next_chunk (large s' p)) (next_chunk (header s' temp)) bs
      NULL_CHUNKPTR"
    by (simp add: read_chain_slot_def)
  from k have "refcount (header s' temp) = 1" "nkey (header s' temp) = nk"
    "nbytes (header s' temp) = nb" "exptime (header s' temp) = ex"
    "flags (header s' temp) = fl" "next (header s' temp) = NULL_CHUNKPTR"
    "prev (header s' temp) = NULL_CHUNKPTR" "h_next (header s' temp) = NULL_CHUNKPTR"
    by (simp_all add: kept_fields_def)
  with t v len dist tn sg' show ?thesis
    unfolding r(1) by (intro conjI exI [of _ bs]) simp_all
qed

lemma free_list_pop_small_effect:
  assumes "free_list_pop c SMALL_CHUNK s = Inr (temp, s1)" "temp \<noteq> NULL_CHUNKPTR"
  shows "sc_flags (small s temp) = {SMALL_CHUNK_INITIALIZED, SMALL_CHUNK_FREE}"
    and "\<And>p. sc_flags (small s1 p)
           = (if p = temp then {SMALL_CHUNK_INITIALIZED} else sc_flags (small s p))"
    and "\<And>p. sc_body_next_chunk (small s1 p) = sc_body_next_chunk (small s p)"
    and "\<And>p. sc_free_next (small s1 p) = sc_free_next (small s p)"
    and "header s1 = header s"
    and "temp = small_free_list s" and "small_free_list_sz s \<noteq> 0"
    and "small_free_list s1 = sc_free_next (small s temp)"
    and "small_free_list_sz s1 = small_free_list_sz s - 1"
    and "large s1 = (large s)(get_parent_chunk temp :=
           (large s (get_parent_chunk temp))\<lparr>small_chunks_allocated :=
              small_chunks_allocated (large s (get_parent_chunk temp)) + 1\<rparr>)"
  using assms
  by (clarsimp simp: free_list_pop_def free_list_pop_small_def Let_def insert_Diff_if
      hist_add_def upd_small_if_def upd_small_def upd_large_def split: if_splits)+

lemma alloc_small_step_effect:
  assumes pop: "free_list_pop c SMALL_CHUNK s = Inr (temp, s1)" and t: "temp \<noteq> NULL_CHUNKPTR"
    and st: "stamp_if_last b title off sz
               (upd_small temp (\<lambda>k. k\<lparr>sc_body_prev_chunk := prv\<rparr>)
               (write_chain_slot pn temp
               (upd_small temp (\<lambda>k. k\<lparr>sc_flags := sc_flags k \<union> {SMALL_CHUNK_USED}\<rparr>) s1)))
             = Inr s4"
    and ok: "small_slot_ok pn s"
  shows "sc_flags (small s temp) = {SMALL_CHUNK_INITIALIZED, SMALL_CHUNK_FREE}"
    and "\<And>p. sc_flags (small s4 p)
           = (if p = temp then {SMALL_CHUNK_INITIALIZED, SMALL_CHUNK_USED} else sc_flags (small s p))"
    and "\<And>p. sc_body_next_chunk (small s4 p)
           = (if pn = Small_body_next_chunk p then temp else sc_body_next_chunk (small s p))"
    and "\<And>p. sc_free_next (small s4 p) = sc_free_next (small s p)"
    and "\<And>x. kept_fields (header s4 x) = kept_fields (header s x)"
    and "\<And>x. it_flags (header s x) \<subseteq> it_flags (header s4 x)"
    and "\<And>x. next_chunk (header s4 x)
           = (if pn = Title_next_chunk x then temp else next_chunk (header s x))"
    and "small_free_list s4 = sc_free_next (small s temp)"
    and "small_free_list_sz s4 = small_free_list_sz s - 1"
    and "large s4 = (large s)(get_parent_chunk temp :=
           (large s (get_parent_chunk temp))\<lparr>small_chunks_allocated :=
              small_chunks_allocated (large s (get_parent_chunk temp)) + 1\<rparr>)"
proof -
  note e = free_list_pop_small_effect [OF pop t]
  from st obtain F where s4: "s4 = upd_header title (\<lambda>h. h\<lparr>it_flags := it_flags h \<union> F\<rparr>)
               (upd_small temp (\<lambda>k. k\<lparr>sc_body_prev_chunk := prv\<rparr>)
               (write_chain_slot pn temp
               (upd_small temp (\<lambda>k. k\<lparr>sc_flags := sc_flags k \<union> {SMALL_CHUNK_USED}\<rparr>) s1)))"
    by (rule stamp_if_last_effect)
  show "sc_flags (small s temp) = {SMALL_CHUNK_INITIALIZED, SMALL_CHUNK_FREE}" by (rule e(1))
  show "\<And>p. sc_flags (small s4 p)
           = (if p = temp then {SMALL_CHUNK_INITIALIZED, SMALL_CHUNK_USED} else sc_flags (small s p))"
    using ok by (cases pn) (auto simp: s4 write_chain_slot_def e small_slot_ok_def)
  show "\<And>p. sc_body_next_chunk (small s4 p)
           = (if pn = Small_body_next_chunk p then temp else sc_body_next_chunk (small s p))"
    using ok by (cases pn) (auto simp: s4 write_chain_slot_def e small_slot_ok_def)
  show "\<And>p. sc_free_next (small s4 p) = sc_free_next (small s p)"
    using ok by (cases pn) (auto simp: s4 write_chain_slot_def e small_slot_ok_def)
  show "\<And>x. kept_fields (header s4 x) = kept_fields (header s x)"
    using ok by (cases pn) (auto simp: s4 write_chain_slot_def e small_slot_ok_def kept_fields_def)
  show "\<And>x. it_flags (header s x) \<subseteq> it_flags (header s4 x)"
    using ok by (cases pn) (auto simp: s4 write_chain_slot_def e small_slot_ok_def)
  show "\<And>x. next_chunk (header s4 x)
           = (if pn = Title_next_chunk x then temp else next_chunk (header s x))"
    using ok by (cases pn) (auto simp: s4 write_chain_slot_def e small_slot_ok_def)
  show "small_free_list s4 = sc_free_next (small s temp)"
    using ok by (cases pn) (auto simp: s4 write_chain_slot_def e small_slot_ok_def)
  show "small_free_list_sz s4 = small_free_list_sz s - 1"
    using ok by (cases pn) (auto simp: s4 write_chain_slot_def e small_slot_ok_def)
  show "large s4 = (large s)(get_parent_chunk temp :=
           (large s (get_parent_chunk temp))\<lparr>small_chunks_allocated :=
              small_chunks_allocated (large s (get_parent_chunk temp)) + 1\<rparr>)"
    using ok by (cases pn) (auto simp: s4 write_chain_slot_def e small_slot_ok_def)
qed

lemma alloc_small_bodies_Suc:
  assumes "alloc_small_bodies c title (Suc k) prv pn off s = Inr (pn', s')"
  obtains temp s1 s4 where
    "free_list_pop c SMALL_CHUNK s = Inr (temp, s1)" "temp \<noteq> NULL_CHUNKPTR"
    "stamp_if_last (k = 0) title off (SMALL_BODY_CHUNK_DATA_SZ c)
       (upd_small temp (\<lambda>k. k\<lparr>sc_body_prev_chunk := prv\<rparr>)
       (write_chain_slot pn temp
       (upd_small temp (\<lambda>k. k\<lparr>sc_flags := sc_flags k \<union> {SMALL_CHUNK_USED}\<rparr>) s1))) = Inr s4"
    "alloc_small_bodies c title k temp (Small_body_next_chunk temp)
       (off - SMALL_BODY_CHUNK_DATA_SZ c) s4 = Inr (pn', s')"
proof -
  from assms have a: "and_then (free_list_pop c SMALL_CHUNK s) (\<lambda>(temp, s1).
       if temp = NULL_CHUNKPTR then Inl NullPointerDereference
       else
         and_then
           (stamp_if_last (k = 0) title off (SMALL_BODY_CHUNK_DATA_SZ c)
              (upd_small temp (\<lambda>k. k\<lparr>sc_body_prev_chunk := prv\<rparr>)
              (write_chain_slot pn temp
              (upd_small temp (\<lambda>k. k\<lparr>sc_flags := sc_flags k \<union> {SMALL_CHUNK_USED}\<rparr>) s1))))
           (alloc_small_bodies c title k temp (Small_body_next_chunk temp)
              (off - SMALL_BODY_CHUNK_DATA_SZ c))) = Inr (pn', s')"
    by simp
  from and_then_Inr [OF a] obtain temp s1 where
    1: "free_list_pop c SMALL_CHUNK s = Inr (temp, s1)"
    and b: "(if temp = NULL_CHUNKPTR then Inl NullPointerDereference
       else
         and_then
           (stamp_if_last (k = 0) title off (SMALL_BODY_CHUNK_DATA_SZ c)
              (upd_small temp (\<lambda>k. k\<lparr>sc_body_prev_chunk := prv\<rparr>)
              (write_chain_slot pn temp
              (upd_small temp (\<lambda>k. k\<lparr>sc_flags := sc_flags k \<union> {SMALL_CHUNK_USED}\<rparr>) s1))))
           (alloc_small_bodies c title k temp (Small_body_next_chunk temp)
              (off - SMALL_BODY_CHUNK_DATA_SZ c))) = Inr (pn', s')"
    by (cases "free_list_pop c SMALL_CHUNK s") auto
  from b have 2: "temp \<noteq> NULL_CHUNKPTR" by (cases "temp = NULL_CHUNKPTR") simp_all
  with b have d: "and_then
           (stamp_if_last (k = 0) title off (SMALL_BODY_CHUNK_DATA_SZ c)
              (upd_small temp (\<lambda>k. k\<lparr>sc_body_prev_chunk := prv\<rparr>)
              (write_chain_slot pn temp
              (upd_small temp (\<lambda>k. k\<lparr>sc_flags := sc_flags k \<union> {SMALL_CHUNK_USED}\<rparr>) s1))))
           (alloc_small_bodies c title k temp (Small_body_next_chunk temp)
              (off - SMALL_BODY_CHUNK_DATA_SZ c)) = Inr (pn', s')"
    by simp
  from and_then_Inr [OF d] obtain s4 where
    3: "stamp_if_last (k = 0) title off (SMALL_BODY_CHUNK_DATA_SZ c)
       (upd_small temp (\<lambda>k. k\<lparr>sc_body_prev_chunk := prv\<rparr>)
       (write_chain_slot pn temp
       (upd_small temp (\<lambda>k. k\<lparr>sc_flags := sc_flags k \<union> {SMALL_CHUNK_USED}\<rparr>) s1))) = Inr s4"
    and 4: "alloc_small_bodies c title k temp (Small_body_next_chunk temp)
       (off - SMALL_BODY_CHUNK_DATA_SZ c) s4 = Inr (pn', s')"
    by blast
  from 1 2 3 4 show ?thesis by (rule that)
qed

lemma alloc_small_bodies_chain:
  "alloc_small_bodies c title k prv pn off s = Inr (pn', s') \<Longrightarrow> small_slot_ok pn s \<Longrightarrow>
   \<exists>bs. length bs = k \<and> distinct bs
     \<and> (\<forall>b\<in>set bs. sc_flags (small s b) = {SMALL_CHUNK_INITIALIZED, SMALL_CHUNK_FREE})
     \<and> seg (\<lambda>p. sc_body_next_chunk (small (write_chain_slot pn' NULL_CHUNKPTR s') p))
           (read_chain_slot pn (write_chain_slot pn' NULL_CHUNKPTR s')) bs NULL_CHUNKPTR
     \<and> (\<forall>p. p \<notin> set bs \<longrightarrow> pn \<noteq> Small_body_next_chunk p \<longrightarrow>
            sc_body_next_chunk (small (write_chain_slot pn' NULL_CHUNKPTR s') p)
              = sc_body_next_chunk (small s p))
     \<and> (\<forall>x. kept_fields (header (write_chain_slot pn' NULL_CHUNKPTR s') x)
              = kept_fields (header s x))
     \<and> (\<forall>x. it_flags (header s x)
              \<subseteq> it_flags (header (write_chain_slot pn' NULL_CHUNKPTR s') x))
     \<and> (\<forall>x. pn \<noteq> Title_next_chunk x \<longrightarrow>
            next_chunk (header (write_chain_slot pn' NULL_CHUNKPTR s') x)
              = next_chunk (header s x))"
proof (induction k arbitrary: prv pn off s)
  case 0
  then have "pn' = pn" "s' = s" by simp_all
  then show ?case
    by (intro exI [of _ "[]"]) (simp add: write_null_slot)
next
  case (Suc k)
  let ?W = "write_chain_slot pn' NULL_CHUNKPTR s'"
  from Suc.prems(1) obtain temp s1 s4 where
    pop: "free_list_pop c SMALL_CHUNK s = Inr (temp, s1)" and t: "temp \<noteq> NULL_CHUNKPTR"
    and st: "stamp_if_last (k = 0) title off (SMALL_BODY_CHUNK_DATA_SZ c)
       (upd_small temp (\<lambda>k. k\<lparr>sc_body_prev_chunk := prv\<rparr>)
       (write_chain_slot pn temp
       (upd_small temp (\<lambda>k. k\<lparr>sc_flags := sc_flags k \<union> {SMALL_CHUNK_USED}\<rparr>) s1))) = Inr s4"
    and rec: "alloc_small_bodies c title k temp (Small_body_next_chunk temp)
       (off - SMALL_BODY_CHUNK_DATA_SZ c) s4 = Inr (pn', s')"
    by (rule alloc_small_bodies_Suc)
  note e = alloc_small_step_effect [OF pop t st Suc.prems(2)]
  have ok4: "small_slot_ok (Small_body_next_chunk temp) s4"
    by (simp add: small_slot_ok_def e(2))
  from Suc.IH [OF rec ok4] obtain bs where
    len: "length bs = k" and dist: "distinct bs"
    and fl: "\<forall>b\<in>set bs. sc_flags (small s4 b) = {SMALL_CHUNK_INITIALIZED, SMALL_CHUNK_FREE}"
    and sg: "seg (\<lambda>p. sc_body_next_chunk (small ?W p))
           (read_chain_slot (Small_body_next_chunk temp) ?W) bs NULL_CHUNKPTR"
    and fr: "\<forall>p. p \<notin> set bs \<longrightarrow> Small_body_next_chunk temp \<noteq> Small_body_next_chunk p \<longrightarrow>
            sc_body_next_chunk (small ?W p) = sc_body_next_chunk (small s4 p)"
    and kf: "\<forall>x. kept_fields (header ?W x) = kept_fields (header s4 x)"
    and itf: "\<forall>x. it_flags (header s4 x) \<subseteq> it_flags (header ?W x)"
    and nc: "\<forall>x. Small_body_next_chunk temp \<noteq> Title_next_chunk x \<longrightarrow>
            next_chunk (header ?W x) = next_chunk (header s4 x)"
    by blast
  have tn: "temp \<notin> set bs"
  proof
    assume "temp \<in> set bs"
    with fl have "sc_flags (small s4 temp) = {SMALL_CHUNK_INITIALIZED, SMALL_CHUNK_FREE}"
      by blast
    with e(2) [of temp] show False by auto
  qed
  have fl0: "\<forall>b\<in>set (temp # bs).
      sc_flags (small s b) = {SMALL_CHUNK_INITIALIZED, SMALL_CHUNK_FREE}"
  proof
    fix b assume b: "b \<in> set (temp # bs)"
    show "sc_flags (small s b) = {SMALL_CHUNK_INITIALIZED, SMALL_CHUNK_FREE}"
    proof (cases "b = temp")
      case True
      then show ?thesis by (simp add: e(1))
    next
      case False
      with b fl have "sc_flags (small s4 b) = {SMALL_CHUNK_INITIALIZED, SMALL_CHUNK_FREE}"
        by simp
      with False show ?thesis by (simp add: e(2))
    qed
  qed
  have rd: "read_chain_slot pn ?W = temp"
  proof (cases pn)
    case (Title_next_chunk x)
    with nc e(7) [of x] show ?thesis by (simp add: read_chain_slot_def)
  next
    case (Small_body_next_chunk p)
    with Suc.prems(2) have nf: "SMALL_CHUNK_FREE \<notin> sc_flags (small s p)"
      by (simp add: small_slot_ok_def)
    with e(1) have pt: "p \<noteq> temp" by auto
    have "p \<notin> set bs"
    proof
      assume "p \<in> set bs"
      with fl have "sc_flags (small s4 p) = {SMALL_CHUNK_INITIALIZED, SMALL_CHUNK_FREE}"
        by blast
      with pt e(2) [of p] nf show False by auto
    qed
    with fr pt have "sc_body_next_chunk (small ?W p) = sc_body_next_chunk (small s4 p)"
      by simp
    with Small_body_next_chunk e(3) [of p] show ?thesis by (simp add: read_chain_slot_def)
  next
    case (Large_body_next_chunk p)
    with Suc.prems(2) show ?thesis by (simp add: small_slot_ok_def)
  qed
  have sg0: "seg (\<lambda>p. sc_body_next_chunk (small ?W p)) (read_chain_slot pn ?W) (temp # bs)
      NULL_CHUNKPTR"
    using sg rd t by (simp add: read_chain_slot_def)
  have fr0: "\<forall>p. p \<notin> set (temp # bs) \<longrightarrow> pn \<noteq> Small_body_next_chunk p \<longrightarrow>
            sc_body_next_chunk (small ?W p) = sc_body_next_chunk (small s p)"
    using fr e(3) by auto
  have kf0: "\<forall>x. kept_fields (header ?W x) = kept_fields (header s x)"
    using kf e(5) by simp
  have itf0: "\<forall>x. it_flags (header s x) \<subseteq> it_flags (header ?W x)"
    using itf e(6) by (meson subset_trans)
  have nc0: "\<forall>x. pn \<noteq> Title_next_chunk x \<longrightarrow> next_chunk (header ?W x) = next_chunk (header s x)"
    using nc e(7) by auto
  from len dist tn fl0 sg0 fr0 kf0 itf0 nc0 show ?case
    by (intro exI [of _ "temp # bs"]) simp
qed

lemma alloc_small_chain_post:
  assumes "alloc_small_chain c k nk fl ex nb needed s = Inr (it, s')"
  shows "it \<noteq> NULL_CHUNKPTR \<and> refcount (header s' it) = 1
     \<and> ITEM_VALID \<in> it_flags (header s' it)
     \<and> nkey (header s' it) = nk \<and> nbytes (header s' it) = nb
     \<and> exptime (header s' it) = ex \<and> flags (header s' it) = fl
     \<and> next (header s' it) = NULL_CHUNKPTR \<and> prev (header s' it) = NULL_CHUNKPTR
     \<and> h_next (header s' it) = NULL_CHUNKPTR
     \<and> (\<exists>bs. length bs = unat (needed - 1) \<and> distinct (it # bs)
            \<and> seg (\<lambda>p. sc_body_next_chunk (small s' p)) (next_chunk (header s' it)) bs
                 NULL_CHUNKPTR)"
proof -
  from and_then_Inr [OF assms [unfolded alloc_small_chain_def]] obtain temp s1 where
    pop: "free_list_pop c SMALL_CHUNK s = Inr (temp, s1)"
    and b: "(if temp = NULL_CHUNKPTR then Inl NullPointerDereference
       else
         and_then
           (stamp_if_last (needed = 1) temp (nk + nb) (SMALL_TITLE_CHUNK_DATA_SZ c)
              (init_title temp k nk fl ex nb
              (upd_small temp
                 (\<lambda>k. k\<lparr>sc_flags := sc_flags k \<union> {SMALL_CHUNK_USED, SMALL_CHUNK_TITLE}\<rparr>)
                 s1)))
           (\<lambda>s2.
              and_then
                (alloc_small_bodies c temp (unat (needed - 1)) temp (Title_next_chunk temp)
                   (nk + nb - SMALL_TITLE_CHUNK_DATA_SZ c)
                   (s2\<lparr>small_title_chunks := small_title_chunks s2 + 1,
                       small_body_chunks := small_body_chunks s2 + (needed - 1)\<rparr>))
                (\<lambda>(prev_next, s3). Inr (temp, write_chain_slot prev_next NULL_CHUNKPTR s3))))
      = Inr (it, s')"
    by (cases "free_list_pop c SMALL_CHUNK s") auto
  from b have t: "temp \<noteq> NULL_CHUNKPTR" by (cases "temp = NULL_CHUNKPTR") simp_all
  with b have d: "and_then
           (stamp_if_last (needed = 1) temp (nk + nb) (SMALL_TITLE_CHUNK_DATA_SZ c)
              (init_title temp k nk fl ex nb
              (upd_small temp
                 (\<lambda>k. k\<lparr>sc_flags := sc_flags k \<union> {SMALL_CHUNK_USED, SMALL_CHUNK_TITLE}\<rparr>)
                 s1)))
           (\<lambda>s2.
              and_then
                (alloc_small_bodies c temp (unat (needed - 1)) temp (Title_next_chunk temp)
                   (nk + nb - SMALL_TITLE_CHUNK_DATA_SZ c)
                   (s2\<lparr>small_title_chunks := small_title_chunks s2 + 1,
                       small_body_chunks := small_body_chunks s2 + (needed - 1)\<rparr>))
                (\<lambda>(prev_next, s3). Inr (temp, write_chain_slot prev_next NULL_CHUNKPTR s3)))
      = Inr (it, s')"
    by simp
  from and_then_Inr [OF d] obtain s2 where
    st: "stamp_if_last (needed = 1) temp (nk + nb) (SMALL_TITLE_CHUNK_DATA_SZ c)
              (init_title temp k nk fl ex nb
              (upd_small temp
                 (\<lambda>k. k\<lparr>sc_flags := sc_flags k \<union> {SMALL_CHUNK_USED, SMALL_CHUNK_TITLE}\<rparr>)
                 s1)) = Inr s2"
    and f: "and_then
                (alloc_small_bodies c temp (unat (needed - 1)) temp (Title_next_chunk temp)
                   (nk + nb - SMALL_TITLE_CHUNK_DATA_SZ c)
                   (s2\<lparr>small_title_chunks := small_title_chunks s2 + 1,
                       small_body_chunks := small_body_chunks s2 + (needed - 1)\<rparr>))
                (\<lambda>(prev_next, s3). Inr (temp, write_chain_slot prev_next NULL_CHUNKPTR s3))
      = Inr (it, s')"
    by blast
  let ?s2 = "s2\<lparr>small_title_chunks := small_title_chunks s2 + 1,
                small_body_chunks := small_body_chunks s2 + (needed - 1)\<rparr>"
  from and_then_Inr [OF f] obtain pn' s3 where
    bd: "alloc_small_bodies c temp (unat (needed - 1)) temp (Title_next_chunk temp)
                   (nk + nb - SMALL_TITLE_CHUNK_DATA_SZ c) ?s2 = Inr (pn', s3)"
    and r: "it = temp" "s' = write_chain_slot pn' NULL_CHUNKPTR s3"
    by (cases "alloc_small_bodies c temp (unat (needed - 1)) temp (Title_next_chunk temp)
                   (nk + nb - SMALL_TITLE_CHUNK_DATA_SZ c) ?s2") auto
  note e = free_list_pop_small_effect [OF pop t]
  from st obtain F where s2: "s2 = upd_header temp (\<lambda>h. h\<lparr>it_flags := it_flags h \<union> F\<rparr>)
              (init_title temp k nk fl ex nb
              (upd_small temp
                 (\<lambda>k. k\<lparr>sc_flags := sc_flags k \<union> {SMALL_CHUNK_USED, SMALL_CHUNK_TITLE}\<rparr>)
                 s1))"
    by (rule stamp_if_last_effect)
  have h2: "kept_fields (header ?s2 temp)
      = (NULL_CHUNKPTR, NULL_CHUNKPTR, NULL_CHUNKPTR, time (header s temp), ex, nb, nk, 1, fl,
         take (unat nk) k)"
    "ITEM_VALID \<in> it_flags (header ?s2 temp)"
    by (simp_all add: s2 kept_fields_def e)
  have l2: "sc_flags (small ?s2 temp)
      = {SMALL_CHUNK_USED, SMALL_CHUNK_TITLE, SMALL_CHUNK_INITIALIZED}"
    by (simp add: s2 e)
  have ok: "small_slot_ok (Title_next_chunk temp) ?s2" by (simp add: small_slot_ok_def)
  from alloc_small_bodies_chain [OF bd ok] r(2) obtain bs where
    len: "length bs = unat (needed - 1)" and dist: "distinct bs"
    and flb: "\<forall>b\<in>set bs.
        sc_flags (small ?s2 b) = {SMALL_CHUNK_INITIALIZED, SMALL_CHUNK_FREE}"
    and sg: "seg (\<lambda>p. sc_body_next_chunk (small s' p))
           (read_chain_slot (Title_next_chunk temp) s') bs NULL_CHUNKPTR"
    and kf: "\<forall>x. kept_fields (header s' x) = kept_fields (header ?s2 x)"
    and itf: "\<forall>x. it_flags (header ?s2 x) \<subseteq> it_flags (header s' x)"
    by blast
  have tn: "temp \<notin> set bs"
  proof
    assume "temp \<in> set bs"
    with flb have "sc_flags (small ?s2 temp) = {SMALL_CHUNK_INITIALIZED, SMALL_CHUNK_FREE}"
      by blast
    with l2 show False by auto
  qed
  from kf h2(1) have k: "kept_fields (header s' temp)
      = (NULL_CHUNKPTR, NULL_CHUNKPTR, NULL_CHUNKPTR, time (header s temp), ex, nb, nk, 1, fl,
         take (unat nk) k)"
    by simp
  from itf h2(2) have v: "ITEM_VALID \<in> it_flags (header s' temp)" by blast
  from sg have sg': "seg (\<lambda>p. sc_body_next_chunk (small s' p)) (next_chunk (header s' temp)) bs
      NULL_CHUNKPTR"
    by (simp add: read_chain_slot_def)
  from k have "refcount (header s' temp) = 1" "nkey (header s' temp) = nk"
    "nbytes (header s' temp) = nb" "exptime (header s' temp) = ex"
    "flags (header s' temp) = fl" "next (header s' temp) = NULL_CHUNKPTR"
    "prev (header s' temp) = NULL_CHUNKPTR" "h_next (header s' temp) = NULL_CHUNKPTR"
    by (simp_all add: kept_fields_def)
  with t v len dist tn sg' show ?thesis
    unfolding r(1) by (intro conjI exI [of _ bs]) simp_all
qed

lemma unat_pred_Suc: "x \<noteq> 0 \<Longrightarrow> Suc (unat (x - 1)) = unat (x :: size_t)"
proof -
  assume "x \<noteq> 0"
  then have "unat x \<noteq> 0" by (simp add: unat_eq_zero)
  moreover from \<open>x \<noteq> 0\<close> have "unat (x - 1) = unat x - 1" by (rule unat_minus_one)
  ultimately show ?thesis by simp
qed

text \<open>
  Claim C2.  Whenever \<^verbatim>\<open>do_item_alloc\<close> returns an item that is not null, the item has
  refcount 1, \<^verbatim>\<open>ITEM_VALID\<close> in its flags, the lengths, the expiry time and the client
  flags of the arguments, null LRU links and a null \<^verbatim>\<open>h_next\<close>; and \<^verbatim>\<open>next_chunk\<close> leads
  from the title through body chunks to null, \<^verbatim>\<open>chunks_needed(nkey, nbytes)\<close> distinct
  chunks in all.  (\<^verbatim>\<open>chunks_needed\<close> is a function of the missing header; an item needs
  at least one chunk.)
\<close>

theorem do_item_alloc_returns_item:
  "do_item_alloc c n k nk fl ex nb addr s = Inr (it, s') \<and> it \<noteq> NULL_CHUNKPTR
     \<and> chunks_needed c nk nb \<noteq> 0 \<longrightarrow>
   refcount (header s' it) = 1 \<and> ITEM_VALID \<in> it_flags (header s' it)
     \<and> nkey (header s' it) = nk \<and> nbytes (header s' it) = nb
     \<and> exptime (header s' it) = ex \<and> flags (header s' it) = fl
     \<and> next (header s' it) = NULL_CHUNKPTR \<and> prev (header s' it) = NULL_CHUNKPTR
     \<and> h_next (header s' it) = NULL_CHUNKPTR
     \<and> (\<exists>bs. item_chunk_chain c s' it bs
            \<and> length (it # bs) = unat (chunks_needed c nk nb))"
proof
  assume a: "do_item_alloc c n k nk fl ex nb addr s = Inr (it, s') \<and> it \<noteq> NULL_CHUNKPTR
     \<and> chunks_needed c nk nb \<noteq> 0"
  then have r: "do_item_alloc c n k nk fl ex nb addr s = Inr (it, s')"
    and nn: "it \<noteq> NULL_CHUNKPTR" and cn: "chunks_needed c nk nb \<noteq> 0"
    by simp_all
  from r nn have ok: "item_size_ok c nk fl (size_t_to_int nb)"
    by (cases "item_size_ok c nk fl (size_t_to_int nb)") (simp_all add: do_item_alloc_def)
  let ?post = "\<lambda>f. it \<noteq> NULL_CHUNKPTR \<and> refcount (header s' it) = 1
     \<and> ITEM_VALID \<in> it_flags (header s' it)
     \<and> nkey (header s' it) = nk \<and> nbytes (header s' it) = nb
     \<and> exptime (header s' it) = ex \<and> flags (header s' it) = fl
     \<and> next (header s' it) = NULL_CHUNKPTR \<and> prev (header s' it) = NULL_CHUNKPTR
     \<and> h_next (header s' it) = NULL_CHUNKPTR
     \<and> (\<exists>bs. length bs = unat (chunks_needed c nk nb - 1) \<and> distinct (it # bs)
            \<and> seg f (next_chunk (header s' it)) bs NULL_CHUNKPTR)"
  have p: "?post (if is_large_chunk c nk nb then (\<lambda>p. lc_body_next_chunk (large s' p))
                  else (\<lambda>p. sc_body_next_chunk (small s' p)))"
  proof (cases "is_large_chunk c nk nb")
    case True
    with r ok have "and_then
          (alloc_large_acquire c n (chunks_needed c nk nb) (large_free_list_sz s - 1) s)
          (\<lambda>(acquired, s1).
             if \<not> acquired then Inr (NULL_CHUNKPTR, s1)
             else alloc_large_chain c k nk fl ex nb (chunks_needed c nk nb) s1) = Inr (it, s')"
      by (simp add: do_item_alloc_def)
    from and_then_Inr [OF this] obtain acquired s1 where
      "(if \<not> acquired then Inr (NULL_CHUNKPTR, s1)
        else alloc_large_chain c k nk fl ex nb (chunks_needed c nk nb) s1) = Inr (it, s')"
      by (cases "alloc_large_acquire c n (chunks_needed c nk nb) (large_free_list_sz s - 1) s")
        auto
    with nn have "alloc_large_chain c k nk fl ex nb (chunks_needed c nk nb) s1 = Inr (it, s')"
      by (cases acquired) auto
    from alloc_large_chain_post [OF this] True show ?thesis by simp
  next
    case False
    with r ok have "and_then
          (alloc_small_acquire c n (chunks_needed c nk nb) (small_free_list_sz s - 1)
             (large_free_list_sz s) s)
          (\<lambda>(acquired, s1).
             if \<not> acquired then Inr (NULL_CHUNKPTR, s1)
             else alloc_small_chain c k nk fl ex nb (chunks_needed c nk nb) s1) = Inr (it, s')"
      by (simp add: do_item_alloc_def)
    from and_then_Inr [OF this] obtain acquired s1 where
      "(if \<not> acquired then Inr (NULL_CHUNKPTR, s1)
        else alloc_small_chain c k nk fl ex nb (chunks_needed c nk nb) s1) = Inr (it, s')"
      by (cases "alloc_small_acquire c n (chunks_needed c nk nb) (small_free_list_sz s - 1)
             (large_free_list_sz s) s") auto
    with nn have "alloc_small_chain c k nk fl ex nb (chunks_needed c nk nb) s1 = Inr (it, s')"
      by (cases acquired) auto
    from alloc_small_chain_post [OF this] False show ?thesis by simp
  qed
  then obtain bs where len: "length bs = unat (chunks_needed c nk nb - 1)"
    and dist: "distinct (it # bs)"
    and sg: "seg (if is_large_chunk c nk nb then (\<lambda>p. lc_body_next_chunk (large s' p))
                  else (\<lambda>p. sc_body_next_chunk (small s' p)))
               (next_chunk (header s' it)) bs NULL_CHUNKPTR"
    by blast
  from p have nkb: "nkey (header s' it) = nk" "nbytes (header s' it) = nb" by simp_all
  from dist sg nkb have ch: "item_chunk_chain c s' it bs"
    by (simp add: item_chunk_chain_def is_item_large_chunk_def)
  from len cn have l: "length (it # bs) = unat (chunks_needed c nk nb)"
    by (simp add: unat_pred_Suc)
  from p ch l show "refcount (header s' it) = 1 \<and> ITEM_VALID \<in> it_flags (header s' it)
     \<and> nkey (header s' it) = nk \<and> nbytes (header s' it) = nb
     \<and> exptime (header s' it) = ex \<and> flags (header s' it) = fl
     \<and> next (header s' it) = NULL_CHUNKPTR \<and> prev (header s' it) = NULL_CHUNKPTR
     \<and> h_next (header s' it) = NULL_CHUNKPTR
     \<and> (\<exists>bs. item_chunk_chain c s' it bs
            \<and> length (it # bs) = unat (chunks_needed c nk nb))"
    by blast
qed

lemma example_alloc_large:
  "\<exists>s'. do_item_alloc example_config (Suc 0) ''k'' 1 7 30 1500 0 initialized_state
          = Inr (Chunk 3 0, s')
        \<and> next_chunk (header s' (Chunk 3 0)) = Chunk 2 0
        \<and> lc_body_next_chunk (large s' (Chunk 2 0)) = NULL_CHUNKPTR"
  by (simp add: eval_defs alloc_large_chain_def cong: and_then_weak_cong)

lemma example_chunks_needed_2: "chunks_needed example_config 1 1500 = 2"
  by (simp add: example_config_def example_chunks_needed_def example_is_large_chunk_def)

theorem do_item_alloc_returns_item_witness:
  "\<exists>s'. do_item_alloc example_config (Suc 0) ''k'' 1 7 30 1500 0 initialized_state
          = Inr (Chunk 3 0, s')
     \<and> Chunk 3 0 \<noteq> NULL_CHUNKPTR \<and> chunks_needed example_config 1 1500 \<noteq> 0
     \<and> refcount (header s' (Chunk 3 0)) = 1 \<and> ITEM_VALID \<in> it_flags (header s' (Chunk 3 0))
     \<and> nkey (header s' (Chunk 3 0)) = 1 \<and> nbytes (header s' (Chunk 3 0)) = 1500
     \<and> exptime (header s' (Chunk 3 0)) = 30 \<and> flags (header s' (Chunk 3 0)) = 7
     \<and> next (header s' (Chunk 3 0)) = NULL_CHUNKPTR
     \<and> prev (header s' (Chunk 3 0)) = NULL_CHUNKPTR
     \<and> h_next (header s' (Chunk 3 0)) = NULL_CHUNKPTR
     \<and> next_chunk (header s' (Chunk 3 0)) = Chunk 2 0
     \<and> lc_body_next_chunk (large s' (Chunk 2 0)) = NULL_CHUNKPTR
     \<and> (\<exists>bs. item_chunk_chain example_config s' (Chunk 3 0) bs
            \<and> length (Chunk 3 0 # bs) = unat (chunks_needed example_config 1 1500))"
proof -
  from example_alloc_large obtain s' where
    r: "do_item_alloc example_config (Suc 0) ''k'' 1 7 30 1500 0 initialized_state
          = Inr (Chunk 3 0, s')"
    and c: "next_chunk (header s' (Chunk 3 0)) = Chunk 2 0"
      "lc_body_next_chunk (large s' (Chunk 2 0)) = NULL_CHUNKPTR"
    by blast
  have n: "chunks_needed example_config 1 1500 \<noteq> 0"
    by (simp add: example_chunks_needed_2)
  from do_item_alloc_returns_item [of example_config "Suc 0" "''k''" 1 7 30 1500 0
      initialized_state "Chunk 3 0" s'] r n
  have "refcount (header s' (Chunk 3 0)) = 1 \<and> ITEM_VALID \<in> it_flags (header s' (Chunk 3 0))
     \<and> nkey (header s' (Chunk 3 0)) = 1 \<and> nbytes (header s' (Chunk 3 0)) = 1500
     \<and> exptime (header s' (Chunk 3 0)) = 30 \<and> flags (header s' (Chunk 3 0)) = 7
     \<and> next (header s' (Chunk 3 0)) = NULL_CHUNKPTR
     \<and> prev (header s' (Chunk 3 0)) = NULL_CHUNKPTR
     \<and> h_next (header s' (Chunk 3 0)) = NULL_CHUNKPTR
     \<and> (\<exists>bs. item_chunk_chain example_config s' (Chunk 3 0) bs
            \<and> length (Chunk 3 0 # bs) = unat (chunks_needed example_config 1 1500))"
    by simp
  with r c n show ?thesis
    by (intro exI [of _ s']) simp
qed

end
